(* ===== verification/Prelude.thy ===== *)
theory Prelude
  imports Main "HOL-Library.Word"
begin

text \<open>
  Shared vocabulary of the development: Python's \<open>bytes\<close> as lists of 8-bit words,
  slices, the fixed-width integer codecs of the \<open>struct\<close> module, decimal \<open>str(int)\<close>,
  the draws of the \<open>secrets\<close> module as an explicit entropy stream, and the exceptions
  that the modelled code can raise.
  The collection \<open>pybytes\<close> gathers the length and slice facts that every packet proof
  uses; \<open>codec\<close> gathers the round trips.
\<close>

unbundle bit_operations_syntax

named_theorems pybytes "lengths and slices of byte strings"
named_theorems codec "pack and unpack round trips"

section \<open>Bytes and slices\<close>

type_synonym byte = "8 word"
type_synonym bytes = "byte list"

text \<open>Python text is a list of code points.\<close>
type_synonym ustr = "nat list"

text \<open>An UDP peer: the IP address as text and the port.\<close>
type_synonym addr = "ustr \<times> nat"

definition slice :: "'a list \<Rightarrow> nat \<Rightarrow> nat \<Rightarrow> 'a list" where
  "slice xs i j = take (j - i) (drop i xs)"

lemma length_slice [pybytes]: "length (slice xs i j) = min (j - i) (length xs - i)"
  by (simp add: slice_def min.commute)

lemma slice_all [pybytes]: "n = length xs \<Longrightarrow> slice xs 0 n = xs"
  by (simp add: slice_def)

lemma slice_append_left [pybytes]:
  "j \<le> length xs \<Longrightarrow> slice (xs @ ys) i j = slice xs i j"
  by (simp add: slice_def)

lemma slice_append_right [pybytes]:
  "length xs \<le> i \<Longrightarrow> slice (xs @ ys) i j = slice ys (i - length xs) (j - length xs)"
  by (cases "i \<le> j") (simp_all add: slice_def)

lemma slice_take [pybytes]: "slice xs 0 n = take n xs"
  by (simp add: slice_def)

lemma slice_nth: "i < j - k \<Longrightarrow> k + i < length xs \<Longrightarrow> slice xs k j ! i = xs ! (k + i)"
  by (simp add: slice_def)

text \<open>A byte-string literal \<open>b"..."\<close> and a text literal.\<close>

definition bstr :: "string \<Rightarrow> bytes" where
  "bstr s = map of_char s"

definition ustr :: "string \<Rightarrow> ustr" where
  "ustr s = map of_char s"

lemma length_bstr [pybytes]: "length (bstr s) = length s"
  by (simp add: bstr_def)

section \<open>The struct module\<close>

fun le_bytes :: "nat \<Rightarrow> nat \<Rightarrow> bytes" where
  "le_bytes 0 v = []"
| "le_bytes (Suc n) v = of_nat v # le_bytes n (v div 256)"

fun le_val :: "bytes \<Rightarrow> nat" where
  "le_val [] = 0"
| "le_val (b # bs) = unat b + 256 * le_val bs"

definition be_bytes :: "nat \<Rightarrow> nat \<Rightarrow> bytes" where
  "be_bytes n v = rev (le_bytes n v)"

definition be_val :: "bytes \<Rightarrow> nat" where
  "be_val bs = le_val (rev bs)"

lemma length_le_bytes [pybytes]: "length (le_bytes n v) = n"
  by (induction n arbitrary: v) auto

lemma length_be_bytes [pybytes]: "length (be_bytes n v) = n"
  by (simp add: be_bytes_def length_le_bytes)

lemma unat_of_nat_byte: "unat (of_nat v :: byte) = v mod 256"
  by (simp add: unat_of_nat)

lemma le_val_le_bytes [codec]: "v < 256 ^ n \<Longrightarrow> le_val (le_bytes n v) = v"
proof (induction n arbitrary: v)
  case (Suc n)
  then have "v div 256 < 256 ^ n"
    by (simp add: less_mult_imp_div_less mult.commute)
  with Suc.IH show ?case
    by (simp add: unat_of_nat_byte mult.commute)
qed simp

lemma be_val_be_bytes [codec]: "v < 256 ^ n \<Longrightarrow> be_val (be_bytes n v) = v"
  by (simp add: be_val_def be_bytes_def le_val_le_bytes)

lemma unat_byte_less: "unat (b :: byte) < 256"
  using unsigned_less [of b] by simp

lemma le_val_less: "le_val bs < 256 ^ length bs"
proof (induction bs)
  case (Cons b bs)
  have "unat b + 256 * le_val bs < 256 * Suc (le_val bs)"
    using unat_byte_less [of b] by simp
  also have "\<dots> \<le> 256 * 256 ^ length bs"
    using Cons.IH by (intro mult_le_mono2) simp
  finally show ?case by simp
qed simp

lemma be_val_less: "be_val bs < 256 ^ length bs"
  using le_val_less [of "rev bs"] by (simp add: be_val_def)

lemma le_bytes_le_val [codec]: "le_bytes (length bs) (le_val bs) = bs"
proof (induction bs)
  case (Cons b bs)
  have "(of_nat (unat b + 256 * le_val bs) :: byte) = b"
    by (rule word_unat_eq_iff [THEN iffD2]) (simp only: unat_of_nat_byte, simp add: unat_byte_less)
  moreover have "(unat b + 256 * le_val bs) div 256 = le_val bs"
    using unat_byte_less [of b] by simp
  ultimately show ?case using Cons.IH by simp
qed simp

text \<open>
  \<open>struct.pack\<close> raises \<open>struct.error\<close> when the value does not fit its field and
  \<open>struct.unpack\<close> when the buffer has not exactly the field's width.
\<close>

definition pack_be :: "nat \<Rightarrow> int \<Rightarrow> bytes option" where
  "pack_be n v = (if 0 \<le> v \<and> v < 256 ^ n then Some (be_bytes n (nat v)) else None)"

definition unpack_be :: "nat \<Rightarrow> bytes \<Rightarrow> nat option" where
  "unpack_be n bs = (if length bs = n then Some (be_val bs) else None)"

lemma unpack_pack_be [codec]: "pack_be n v = Some bs \<Longrightarrow> unpack_be n bs = Some (nat v)"
proof -
  assume h: "pack_be n v = Some bs"
  then have "0 \<le> v" "v < int (256 ^ n)" and bs: "bs = be_bytes n (nat v)"
    by (auto simp: pack_be_def split: if_splits)
  then have "nat v < 256 ^ n" by (simp add: nat_less_iff)
  with bs show ?thesis by (simp add: unpack_be_def length_be_bytes be_val_be_bytes)
qed

section \<open>Decimal text\<close>

fun dec_digits :: "nat \<Rightarrow> nat list" where
  "dec_digits n = (if n < 10 then [48 + n] else dec_digits (n div 10) @ [48 + n mod 10])"

declare dec_digits.simps [simp del]

text \<open>\<open>str(n)\<close> of a natural number, and \<open>int(s)\<close> of a text of ASCII digits.\<close>

definition str_nat :: "nat \<Rightarrow> ustr" where
  "str_nat n = dec_digits n"

definition is_digit :: "nat \<Rightarrow> bool" where
  "is_digit c \<longleftrightarrow> 48 \<le> c \<and> c \<le> 57"

definition digits_val :: "nat list \<Rightarrow> nat" where
  "digits_val cs = foldl (\<lambda>a c. 10 * a + (c - 48)) 0 cs"

lemma dec_digits_digits: "c \<in> set (dec_digits n) \<Longrightarrow> is_digit c"
proof (induction n rule: dec_digits.induct)
  case (1 n)
  then show ?case
    by (cases "n < 10") (auto simp: dec_digits.simps [of n] is_digit_def)
qed

lemma dec_digits_nonempty: "dec_digits n \<noteq> []"
  by (subst dec_digits.simps) simp

lemma digits_val_dec_digits [codec]: "digits_val (dec_digits n) = n"
proof (induction n rule: dec_digits.induct)
  case (1 n)
  show ?case
  proof (cases "n < 10")
    case True
    then show ?thesis by (simp add: dec_digits.simps [of n] digits_val_def)
  next
    case False
    with 1 have "digits_val (dec_digits (n div 10)) = n div 10" by simp
    with False show ?thesis
      by (subst dec_digits.simps) (simp add: digits_val_def)
  qed
qed

section \<open>Randomness\<close>

text \<open>
  \<open>secrets.token_bytes(n)\<close> and \<open>secrets.randbelow(n)\<close> read an entropy stream at an
  explicit position, so that a theorem holds for every outcome of the draws.
\<close>

type_synonym entropy = "nat \<Rightarrow> nat"

definition token_bytes :: "entropy \<Rightarrow> nat \<Rightarrow> nat \<Rightarrow> bytes" where
  "token_bytes e k n = map (\<lambda>i. of_nat (e (k + i))) [0..<n]"

definition randbelow :: "entropy \<Rightarrow> nat \<Rightarrow> nat \<Rightarrow> nat" where
  "randbelow e k n = e k mod n"

lemma length_token_bytes [pybytes]: "length (token_bytes e k n) = n"
  by (simp add: token_bytes_def)

lemma randbelow_less: "0 < n \<Longrightarrow> randbelow e k n < n"
  by (simp add: randbelow_def)

section \<open>Exceptions\<close>

datatype pyexn =
    IndexError | KeyError | StructError | ValueError | TypeError | UnicodeError
  | ZeroDivisionError | CryptoError | OSError | IntegrityError | AttributeError
  | OverflowError | DatabaseError | RuntimeError

text \<open>\<open>xs[i]\<close> and \<open>xs[i] = v\<close> at a non-negative index.\<close>

definition py_get :: "'a list \<Rightarrow> nat \<Rightarrow> pyexn + 'a" where
  "py_get xs i = (if i < length xs then Inr (xs ! i) else Inl IndexError)"

definition py_set :: "'a list \<Rightarrow> nat \<Rightarrow> 'a \<Rightarrow> pyexn + 'a list" where
  "py_set xs i v = (if i < length xs then Inr (xs[i := v]) else Inl IndexError)"

end
