(* ===== verification/PyText.thy ===== *)
theory PyText
  imports Prelude
begin

text \<open>
  What the sources use of Python's text codecs: \<open>str.encode()\<close>, \<open>bytes.decode()\<close> (strict)
  and \<open>bytes.decode(errors="replace")\<close> for UTF-8, and \<open>decode("latin1")\<close>. Text is a list
  of code points. The replacement decoder consumes a maximal valid prefix of a sequence
  for one U+FFFD, as CPython does.
\<close>

fun utf8_char :: "nat \<Rightarrow> bytes option" where
  "utf8_char c =
     (if c < 0x80 then Some [of_nat c]
      else if c < 0x800 then Some [of_nat (0xC0 + c div 64), of_nat (0x80 + c mod 64)]
      else if 0xD800 \<le> c \<and> c \<le> 0xDFFF then None
      else if c < 0x10000 then
        Some [of_nat (0xE0 + c div 4096), of_nat (0x80 + c div 64 mod 64), of_nat (0x80 + c mod 64)]
      else if c < 0x110000 then
        Some [of_nat (0xF0 + c div 262144), of_nat (0x80 + c div 4096 mod 64),
              of_nat (0x80 + c div 64 mod 64), of_nat (0x80 + c mod 64)]
      else None)"

declare utf8_char.simps [simp del]

text \<open>\<open>s.encode("utf-8")\<close>: \<open>None\<close> where it raises (a lone surrogate).\<close>

fun utf8_encode :: "ustr \<Rightarrow> bytes option" where
  "utf8_encode [] = Some []"
| "utf8_encode (c # cs) =
     (case utf8_char c of None \<Rightarrow> None
      | Some b \<Rightarrow> (case utf8_encode cs of None \<Rightarrow> None | Some bs \<Rightarrow> Some (b @ bs)))"

text \<open>The lead byte: trailing bytes, range of the first of them, high bits.\<close>

definition utf8_lead :: "nat \<Rightarrow> (nat \<times> nat \<times> nat \<times> nat) option" where
  "utf8_lead b =
     (if b < 0x80 then Some (0, 0, 0, b)
      else if 0xC2 \<le> b \<and> b \<le> 0xDF then Some (1, 0x80, 0xBF, b - 0xC0)
      else if b = 0xE0 then Some (2, 0xA0, 0xBF, 0)
      else if b = 0xED then Some (2, 0x80, 0x9F, 13)
      else if 0xE1 \<le> b \<and> b \<le> 0xEF then Some (2, 0x80, 0xBF, b - 0xE0)
      else if b = 0xF0 then Some (3, 0x90, 0xBF, 0)
      else if 0xF1 \<le> b \<and> b \<le> 0xF3 then Some (3, 0x80, 0xBF, b - 0xF0)
      else if b = 0xF4 then Some (3, 0x80, 0x8F, 4)
      else None)"

fun utf8_trail :: "nat \<Rightarrow> nat \<Rightarrow> nat \<Rightarrow> nat \<Rightarrow> nat \<Rightarrow> bytes \<Rightarrow> nat option \<times> nat" where
  "utf8_trail 0 lo hi acc c bs = (Some acc, c)"
| "utf8_trail (Suc n) lo hi acc c [] = (None, c)"
| "utf8_trail (Suc n) lo hi acc c (b # bs) =
     (if lo \<le> unat b \<and> unat b \<le> hi
      then utf8_trail n 0x80 0xBF (acc * 64 + (unat b - 0x80)) (Suc c) bs
      else (None, c))"

text \<open>One step of the decoder: the code point or an error, and the bytes consumed.\<close>

definition utf8_step :: "byte \<Rightarrow> bytes \<Rightarrow> nat option \<times> nat" where
  "utf8_step b bs =
     (case utf8_lead (unat b) of
        None \<Rightarrow> (None, 1)
      | Some (n, lo, hi, acc) \<Rightarrow> utf8_trail n lo hi acc 1 bs)"

lemma utf8_trail_consumes: "c \<le> snd (utf8_trail n lo hi acc c bs)"
  by (induction n lo hi acc c bs rule: utf8_trail.induct) auto

lemma utf8_step_consumes: "0 < snd (utf8_step b bs)"
  using utf8_trail_consumes [of 1] by (auto simp: utf8_step_def Suc_le_eq split: option.splits)

function utf8_items :: "bytes \<Rightarrow> nat option list" where
  "utf8_items [] = []"
| "utf8_items (b # bs) =
     fst (utf8_step b bs) # utf8_items (drop (snd (utf8_step b bs)) (b # bs))"
  by pat_completeness auto
termination
  by (relation "measure length") (auto intro: diff_less simp: utf8_step_consumes simp del: drop_Suc_Cons)

definition utf8_decode :: "bytes \<Rightarrow> ustr option" where
  "utf8_decode bs =
     (let items = utf8_items bs in if None \<in> set items then None else Some (map the items))"

definition utf8_decode_replace :: "bytes \<Rightarrow> ustr" where
  "utf8_decode_replace bs =
     map (\<lambda>i. case i of None \<Rightarrow> 0xFFFD | Some c \<Rightarrow> c) (utf8_items bs)"

definition latin1_decode :: "bytes \<Rightarrow> ustr" where
  "latin1_decode bs = map unat bs"

section \<open>ASCII text\<close>

definition ascii :: "ustr \<Rightarrow> bool" where
  "ascii s \<longleftrightarrow> (\<forall>c \<in> set s. c < 128)"

lemma ascii_simps [simp]: "ascii []" "ascii (c # s) \<longleftrightarrow> c < 128 \<and> ascii s" "ascii (s @ t) \<longleftrightarrow> ascii s \<and> ascii t"
  by (auto simp: ascii_def)

lemma utf8_encode_ascii [codec]: "ascii s \<Longrightarrow> utf8_encode s = Some (map of_nat s)"
  by (induction s) (auto simp: utf8_char.simps)

lemma utf8_items_ascii: "ascii s \<Longrightarrow> utf8_items (map of_nat s) = map Some s"
  by (induction s) (auto simp: utf8_step_def utf8_lead_def unat_of_nat_byte)

lemma utf8_decode_ascii [codec]: "ascii s \<Longrightarrow> utf8_decode (map of_nat s) = Some s"
  by (auto simp: utf8_decode_def utf8_items_ascii Let_def comp_def)

lemma utf8_replace_ascii [codec]: "ascii s \<Longrightarrow> utf8_decode_replace (map of_nat s) = s"
  by (auto simp: utf8_decode_replace_def utf8_items_ascii comp_def)

lemma utf8_decode_replace_strict: "utf8_decode bs = Some s \<Longrightarrow> utf8_decode_replace bs = s"
  by (auto simp: utf8_decode_def utf8_decode_replace_def Let_def split: if_splits option.splits)

section \<open>The UTF-8 round trip\<close>

lemma unat_byte_of_nat: "n < 256 \<Longrightarrow> unat (of_nat n :: byte) = n"
  by (simp add: unat_of_nat_byte)

lemma utf8_step2:
  assumes "2 \<le> x" "x < 32" "y < 64"
  shows "utf8_step (of_nat (192 + x)) (of_nat (128 + y) # rest) = (Some (64 * x + y), 2)"
proof -
  have u: "unat (of_nat (192 + x) :: byte) = 192 + x" "unat (of_nat (128 + y) :: byte) = 128 + y"
    by (rule unat_byte_of_nat; use assms in simp)+
  have l: "utf8_lead (192 + x) = Some (1, 0x80, 0xBF, x)" using assms by (simp add: utf8_lead_def)
  show ?thesis
    unfolding utf8_step_def u l using assms u(2) by (simp add: mult.commute)
qed

lemma utf8_step3:
  assumes "x < 16" "y < 64" "z < 64" "x = 0 \<Longrightarrow> 32 \<le> y" "x = 13 \<Longrightarrow> y < 32"
  shows "utf8_step (of_nat (224 + x)) (of_nat (128 + y) # of_nat (128 + z) # rest) = (Some (4096 * x + 64 * y + z), 3)"
proof -
  have u: "unat (of_nat (224 + x) :: byte) = 224 + x" "unat (of_nat (128 + y) :: byte) = 128 + y"
    "unat (of_nat (128 + z) :: byte) = 128 + z"
    by (rule unat_byte_of_nat; use assms in simp)+
  have l: "\<exists>lo hi. utf8_lead (224 + x) = Some (2, lo, hi, x) \<and> lo \<le> 128 + y \<and> 128 + y \<le> hi"
    using assms by (auto simp: utf8_lead_def)
  then obtain lo hi where l: "utf8_lead (224 + x) = Some (2, lo, hi, x)" "lo \<le> 128 + y" "128 + y \<le> hi" by blast
  show ?thesis
    unfolding utf8_step_def u l using assms u(2,3) l(2,3) by (simp add: numeral_2_eq_2 algebra_simps)
qed

lemma utf8_step4:
  assumes "x < 5" "y < 64" "z < 64" "w < 64" "x = 0 \<Longrightarrow> 16 \<le> y" "x = 4 \<Longrightarrow> y < 16"
  shows "utf8_step (of_nat (240 + x)) (of_nat (128 + y) # of_nat (128 + z) # of_nat (128 + w) # rest) =
    (Some (262144 * x + 4096 * y + 64 * z + w), 4)"
proof -
  have u: "unat (of_nat (240 + x) :: byte) = 240 + x" "unat (of_nat (128 + y) :: byte) = 128 + y"
    "unat (of_nat (128 + z) :: byte) = 128 + z" "unat (of_nat (128 + w) :: byte) = 128 + w"
    by (rule unat_byte_of_nat; use assms in simp)+
  have "\<exists>lo hi. utf8_lead (240 + x) = Some (3, lo, hi, x) \<and> lo \<le> 128 + y \<and> 128 + y \<le> hi"
    using assms by (auto simp: utf8_lead_def)
  then obtain lo hi where l: "utf8_lead (240 + x) = Some (3, lo, hi, x)" "lo \<le> 128 + y" "128 + y \<le> hi" by blast
  show ?thesis
    unfolding utf8_step_def u l using assms u(2-4) l(2,3) by (simp add: numeral_3_eq_3 algebra_simps)
qed

lemma utf8_items_char:
  assumes "utf8_char c = Some bs"
  shows "utf8_items (bs @ rest) = Some c # utf8_items rest"
proof -
  consider (1) "c < 128" | (2) "128 \<le> c" "c < 2048" | (3) "2048 \<le> c" "c < 65536" "c < 55296 \<or> 57343 < c"
    | (4) "65536 \<le> c" "c < 1114112"
    using assms by (simp add: utf8_char.simps [of c] split: if_splits) linarith+
  then show ?thesis
  proof cases
    case 1
    then have "bs = [of_nat c]" using assms by (simp add: utf8_char.simps)
    with 1 show ?thesis by (simp add: utf8_step_def utf8_lead_def unat_byte_of_nat)
  next
    case 2
    then have bs: "bs = [of_nat (192 + c div 64), of_nat (128 + c mod 64)]"
      using assms by (simp add: utf8_char.simps)
    have d: "2 \<le> c div 64" "c div 64 < 32" "c mod 64 < 64" using 2 by auto
    have "64 * (c div 64) + c mod 64 = c" by simp
    with utf8_step2 [OF d, of rest] bs show ?thesis by simp
  next
    case 3
    then have bs: "bs = [of_nat (224 + c div 4096), of_nat (128 + c div 64 mod 64), of_nat (128 + c mod 64)]"
      using assms by (auto simp: utf8_char.simps [of c] split: if_splits)
    have d: "c div 4096 < 16" "c div 64 mod 64 < 64" "c mod 64 < 64" using 3 by auto
    have e: "c div 4096 = c div 64 div 64" by (simp add: div_mult2_eq [symmetric])
    have m: "64 * (c div 64) + c mod 64 = c" "64 * (c div 64 div 64) + c div 64 mod 64 = c div 64" by simp_all
    have s: "4096 * (c div 4096) + 64 * (c div 64 mod 64) + c mod 64 = c" using m unfolding e by linarith
    have z: "32 \<le> c div 64 mod 64" if "c div 4096 = 0" using that m d(3) 3(1) unfolding e by linarith
    have t: "c div 64 mod 64 < 32" if "c div 4096 = 13" using that m d 3(3) unfolding e by linarith
    from utf8_step3 [OF d z t, of rest] s bs show ?thesis by simp
  next
    case 4
    then have bs: "bs = [of_nat (240 + c div 262144), of_nat (128 + c div 4096 mod 64), of_nat (128 + c div 64 mod 64),
        of_nat (128 + c mod 64)]"
      using assms by (simp add: utf8_char.simps)
    have d: "c div 262144 < 5" "c div 4096 mod 64 < 64" "c div 64 mod 64 < 64" "c mod 64 < 64" using 4 by auto
    have e: "c div 4096 = c div 64 div 64" "c div 262144 = c div 64 div 64 div 64"
      by (simp_all add: div_mult2_eq [symmetric])
    have m: "64 * (c div 64) + c mod 64 = c" "64 * (c div 64 div 64) + c div 64 mod 64 = c div 64"
      "64 * (c div 64 div 64 div 64) + c div 64 div 64 mod 64 = c div 64 div 64" by simp_all
    have s: "262144 * (c div 262144) + 4096 * (c div 4096 mod 64) + 64 * (c div 64 mod 64) + c mod 64 = c"
      using m unfolding e by linarith
    have z: "16 \<le> c div 4096 mod 64" if "c div 262144 = 0" using that m d 4(1) unfolding e by linarith
    have t: "c div 4096 mod 64 < 16" if "c div 262144 = 4" using that m d 4(2) unfolding e by linarith
    from utf8_step4 [OF d z t, of rest] s bs show ?thesis by simp
  qed
qed

lemma utf8_items_encode: "utf8_encode s = Some bs \<Longrightarrow> utf8_items (bs @ rest) = map Some s @ utf8_items rest"
proof (induction s arbitrary: bs)
  case (Cons c s)
  then obtain b bs' where "utf8_char c = Some b" "utf8_encode s = Some bs'" "bs = b @ bs'"
    by (auto split: option.splits)
  with Cons.IH [of bs'] utf8_items_char [of c b "bs' @ rest"] show ?case by simp
qed simp

lemma utf8_roundtrip [codec]: "utf8_encode s = Some bs \<Longrightarrow> utf8_decode bs = Some s"
  using utf8_items_encode [of s bs "[]"] by (auto simp: utf8_decode_def Let_def comp_def)

lemma utf8_replace_roundtrip [codec]: "utf8_encode s = Some bs \<Longrightarrow> utf8_decode_replace bs = s"
  using utf8_roundtrip utf8_decode_replace_strict by blast

section \<open>Splitting, stripping, numbers\<close>

fun split_on :: "'a \<Rightarrow> 'a list \<Rightarrow> 'a list list" where
  "split_on s [] = [[]]"
| "split_on s (c # cs) =
     (if c = s then [] # split_on s cs
      else (case split_on s cs of [] \<Rightarrow> [[c]] | p # ps \<Rightarrow> (c # p) # ps))"

text \<open>White space of \<open>str.split()\<close> and \<open>int()\<close> below U+0100, and of \<open>bytes.strip()\<close>.\<close>

definition is_space :: "nat \<Rightarrow> bool" where
  "is_space c \<longleftrightarrow> 9 \<le> c \<and> c \<le> 13 \<or> 28 \<le> c \<and> c \<le> 32 \<or> c = 0x85 \<or> c = 0xA0"

definition is_bspace :: "byte \<Rightarrow> bool" where
  "is_bspace b \<longleftrightarrow> (9 \<le> unat b \<and> unat b \<le> 13) \<or> unat b = 32"

definition strip_by :: "('a \<Rightarrow> bool) \<Rightarrow> 'a list \<Rightarrow> 'a list" where
  "strip_by p xs = rev (dropWhile p (rev (dropWhile p xs)))"

fun split_ws_aux :: "ustr \<Rightarrow> ustr \<Rightarrow> ustr list" where
  "split_ws_aux w [] = (if w = [] then [] else [w])"
| "split_ws_aux w (c # cs) =
     (if is_space c then (if w = [] then split_ws_aux [] cs else w # split_ws_aux [] cs)
      else split_ws_aux (w @ [c]) cs)"

definition split_ws :: "ustr \<Rightarrow> ustr list" where
  "split_ws s = split_ws_aux [] s"

text \<open>\<open>int(s)\<close>: white space around, a sign, digits with single underscores between them.\<close>

fun int_digits :: "nat list \<Rightarrow> nat list option" where
  "int_digits [] = None"
| "int_digits [c] = (if is_digit c then Some [c] else None)"
| "int_digits (c # d # ds) =
     (if is_digit c
      then map_option ((#) c) (if d = 95 then int_digits ds else int_digits (d # ds))
      else None)"

definition py_int :: "ustr \<Rightarrow> int option" where
  "py_int s =
     (let t = strip_by is_space s in
      case t of
        [] \<Rightarrow> None
      | c # cs \<Rightarrow>
          if c = 45 then map_option (\<lambda>ds. - int (digits_val ds)) (int_digits cs)
          else if c = 43 then map_option (\<lambda>ds. int (digits_val ds)) (int_digits cs)
          else map_option (\<lambda>ds. int (digits_val ds)) (int_digits t))"

fun has_sub :: "'a list \<Rightarrow> 'a list \<Rightarrow> bool" where
  "has_sub p [] = (p = [])"
| "has_sub p (x # xs) = (take (length p) (x # xs) = p \<or> has_sub p xs)"

definition starts_with :: "'a list \<Rightarrow> 'a list \<Rightarrow> bool" where
  "starts_with xs p \<longleftrightarrow> take (length p) xs = p"

section \<open>Lemmas on text operations\<close>

lemma split_on_absent: "c \<notin> set xs \<Longrightarrow> split_on c xs = [xs]"
  by (induction xs) auto

lemma split_on_append: "c \<notin> set h \<Longrightarrow> split_on c (h @ c # p) = h # split_on c p"
  by (induction h) auto

lemma split_ws_word: "(\<forall>c \<in> set v. \<not> is_space c) \<Longrightarrow> w @ v \<noteq> [] \<Longrightarrow>
  split_ws_aux w (v @ 32 # cs) = (w @ v) # split_ws_aux [] cs"
proof (induction v arbitrary: w)
  case (Cons c v)
  then show ?case using Cons.IH [of "w @ [c]"] by simp
qed (simp add: is_space_def)

lemma int_digits_all: "ds \<noteq> [] \<Longrightarrow> \<forall>c \<in> set ds. is_digit c \<Longrightarrow> int_digits ds = Some ds"
  by (induction ds rule: int_digits.induct) (auto simp: is_digit_def)

lemma digit_not_space: "is_digit c \<Longrightarrow> \<not> is_space c \<and> c \<noteq> 45 \<and> c \<noteq> 43 \<and> c \<noteq> 58 \<and> c < 128"
  by (auto simp: is_digit_def is_space_def)

lemma strip_by_id: "\<forall>x \<in> set xs. \<not> p x \<Longrightarrow> strip_by p xs = xs"
proof -
  assume h: "\<forall>x \<in> set xs. \<not> p x"
  have "dropWhile p ys = ys" if "\<forall>x \<in> set ys. \<not> p x" for ys using that by (cases ys) auto
  from this [of xs] this [of "rev xs"] h show ?thesis by (simp add: strip_by_def)
qed

lemma py_int_str_nat [codec]: "py_int (str_nat n) = Some (int n)"
proof -
  have d: "\<forall>c \<in> set (dec_digits n). is_digit c" using dec_digits_digits by blast
  obtain c cs where e: "dec_digits n = c # cs" using dec_digits_nonempty by (cases "dec_digits n") auto
  have "strip_by is_space (dec_digits n) = dec_digits n"
    using d digit_not_space by (intro strip_by_id) blast
  moreover have "c \<noteq> 45" "c \<noteq> 43" using d e digit_not_space by auto
  ultimately show ?thesis
    using int_digits_all [OF dec_digits_nonempty d] digits_val_dec_digits [of n] e
    by (simp add: py_int_def str_nat_def)
qed

lemma set_str_nat: "c \<in> set (str_nat n) \<Longrightarrow> is_digit c"
  by (simp add: str_nat_def dec_digits_digits)

lemma latin1_of_ascii: "ascii s \<Longrightarrow> latin1_decode (map of_nat s) = s"
  by (induction s) (auto simp: latin1_decode_def unat_of_nat_byte)

lemma latin1_append: "latin1_decode (x @ y) = latin1_decode x @ latin1_decode y"
  by (simp add: latin1_decode_def)

end
