(* ===== verification/Url.thy ===== *)
theory Url
  imports PyText
begin

text \<open>
  What the sources use of \<open>urllib.parse\<close>: \<open>urlencode\<close> (\<open>quote_plus\<close> of UTF-8 text),
  \<open>parse_qs\<close> and the split of a URL into scheme, network location, path and query. The
  library's checks of unusual network locations (brackets, compatibility characters) are
  a parameter \<open>netloc_ok\<close> of the callers.
\<close>

section \<open>Quoting\<close>

definition always_safe :: "nat \<Rightarrow> bool" where
  "always_safe c \<longleftrightarrow> 65 \<le> c \<and> c \<le> 90 \<or> 97 \<le> c \<and> c \<le> 122 \<or> 48 \<le> c \<and> c \<le> 57 \<or>
     c = 95 \<or> c = 46 \<or> c = 45 \<or> c = 126"

definition hex_upper :: "nat \<Rightarrow> nat" where
  "hex_upper v = (if v < 10 then 48 + v else 55 + v)"

definition quote_byte :: "byte \<Rightarrow> ustr" where
  "quote_byte b =
     (let v = unat b in
      if always_safe v then [v] else if v = 32 then [43] else [37, hex_upper (v div 16), hex_upper (v mod 16)])"

text \<open>\<open>None\<close> where the UTF-8 encoding raises.\<close>

definition quote_plus :: "ustr \<Rightarrow> ustr option" where
  "quote_plus s = map_option (\<lambda>bs. concat (map quote_byte bs)) (utf8_encode s)"

definition hex_val :: "nat \<Rightarrow> nat option" where
  "hex_val c =
     (if 48 \<le> c \<and> c \<le> 57 then Some (c - 48)
      else if 65 \<le> c \<and> c \<le> 70 then Some (c - 55)
      else if 97 \<le> c \<and> c \<le> 102 then Some (c - 87) else None)"

text \<open>\<open>unquote_to_bytes\<close> of an ASCII run: a percent sign without two hex digits stays.\<close>

fun unquote_bytes :: "ustr \<Rightarrow> bytes" where
  "unquote_bytes (c # a # b # r) =
     (if c = 37 then
        (case (hex_val a, hex_val b) of
           (Some x, Some y) \<Rightarrow> of_nat (16 * x + y) # unquote_bytes r
         | _ \<Rightarrow> of_nat c # unquote_bytes (a # b # r))
      else of_nat c # unquote_bytes (a # b # r))"
| "unquote_bytes s = map of_nat s"

text \<open>Maximal ASCII runs are decoded as UTF-8, other characters are kept.\<close>

function unquote_runs :: "ustr \<Rightarrow> ustr" where
  "unquote_runs [] = []"
| "unquote_runs (c # cs) =
     (if c < 128
      then utf8_decode_replace (unquote_bytes (c # takeWhile (\<lambda>x. x < 128) cs)) @
           unquote_runs (dropWhile (\<lambda>x. x < 128) cs)
      else c # unquote_runs cs)"
  by pat_completeness auto
termination
  by (relation "measure length") (auto simp: le_imp_less_Suc length_dropWhile_le)

definition unquote :: "ustr \<Rightarrow> ustr" where
  "unquote s = (if 37 \<in> set s then unquote_runs s else s)"

definition unquote_plus :: "ustr \<Rightarrow> ustr" where
  "unquote_plus s = unquote (map (\<lambda>c. if c = 43 then 32 else c) s)"

section \<open>Query strings\<close>

fun join_amp :: "ustr list \<Rightarrow> ustr" where
  "join_amp [] = []"
| "join_amp [x] = x"
| "join_amp (x # y # xs) = x @ [38] @ join_amp (y # xs)"

definition urlencode :: "(ustr \<times> ustr) list \<Rightarrow> ustr option" where
  "urlencode kvs =
     (let qs = map (\<lambda>(k, v). (quote_plus k, quote_plus v)) kvs in
      if list_all (\<lambda>(a, b). a \<noteq> None \<and> b \<noteq> None) qs
      then Some (join_amp (map (\<lambda>(a, b). the a @ [61] @ the b) qs)) else None)"

text \<open>\<open>parse_qs\<close>: fields without \<open>=\<close> or with an empty value are skipped.\<close>

definition parse_field :: "ustr \<Rightarrow> (ustr \<times> ustr) option" where
  "parse_field f =
     (if 61 \<in> set f then
        (let k = takeWhile (\<lambda>c. c \<noteq> 61) f; v = tl (dropWhile (\<lambda>c. c \<noteq> 61) f) in
         if v = [] then None else Some (unquote_plus k, unquote_plus v))
      else None)"

definition parse_qs :: "ustr \<Rightarrow> (ustr \<times> ustr) list" where
  "parse_qs q = concat (map (\<lambda>f. case parse_field f of None \<Rightarrow> [] | Some kv \<Rightarrow> [kv]) (split_on 38 q))"

text \<open>\<open>qs.get(key, [default])[0]\<close>\<close>

definition qs_first :: "(ustr \<times> ustr) list \<Rightarrow> ustr \<Rightarrow> ustr \<Rightarrow> ustr" where
  "qs_first qs key dflt = (case map_of qs key of None \<Rightarrow> dflt | Some v \<Rightarrow> v)"

section \<open>URLs\<close>

definition scheme_char :: "nat \<Rightarrow> bool" where
  "scheme_char c \<longleftrightarrow> 65 \<le> c \<and> c \<le> 90 \<or> 97 \<le> c \<and> c \<le> 122 \<or> 48 \<le> c \<and> c \<le> 57 \<or> c = 43 \<or> c = 45 \<or> c = 46"

definition is_alpha :: "nat \<Rightarrow> bool" where
  "is_alpha c \<longleftrightarrow> 65 \<le> c \<and> c \<le> 90 \<or> 97 \<le> c \<and> c \<le> 122"

text \<open>Network location, path and query of \<open>urlparse\<close>; the library drops tabs and line ends.\<close>

definition urlparse :: "ustr \<Rightarrow> ustr \<times> ustr \<times> ustr" where
  "urlparse url0 =
     (let url1 = filter (\<lambda>c. c \<noteq> 9 \<and> c \<noteq> 10 \<and> c \<noteq> 13) (dropWhile (\<lambda>c. c \<le> 32) url0);
          sch = takeWhile (\<lambda>c. c \<noteq> 58) url1;
          url = (if 58 \<in> set url1 \<and> sch \<noteq> [] \<and> is_alpha (hd sch) \<and> list_all scheme_char sch
                 then drop (length sch + 1) url1 else url1);
          nl = (if take 2 url = [47, 47] then takeWhile (\<lambda>c. c \<noteq> 47 \<and> c \<noteq> 63 \<and> c \<noteq> 35) (drop 2 url) else []);
          rest = (if take 2 url = [47, 47] then drop (2 + length nl) url else url);
          nofrag = takeWhile (\<lambda>c. c \<noteq> 35) rest;
          path = takeWhile (\<lambda>c. c \<noteq> 63) nofrag;
          query = tl (dropWhile (\<lambda>c. c \<noteq> 63) nofrag)
      in (nl, path, query))"

section \<open>Round trips\<close>

lemma always_safe_chars:
  "always_safe c \<Longrightarrow> c < 128 \<and> c \<noteq> 38 \<and> c \<noteq> 61 \<and> c \<noteq> 35 \<and> c \<noteq> 63 \<and> c \<noteq> 47 \<and> \<not> is_space c"
  by (simp add: always_safe_def is_space_def) linarith

lemma hex_upper_safe: "v < 16 \<Longrightarrow> always_safe (hex_upper v)"
  by (auto simp: always_safe_def hex_upper_def)

lemma quote_byte_safe: "c \<in> set (quote_byte b) \<Longrightarrow> c = 37 \<or> c = 43 \<or> always_safe c"
proof -
  have "unat b div 16 < 16" using unat_byte_less [of b] by simp
  from hex_upper_safe [OF this] hex_upper_safe [of "unat b mod 16"]
  show "c \<in> set (quote_byte b) \<Longrightarrow> c = 37 \<or> c = 43 \<or> always_safe c"
    by (auto simp: quote_byte_def Let_def split: if_splits)
qed

lemma quote_byte_chars:
  "c \<in> set (quote_byte b) \<Longrightarrow> c < 128 \<and> c \<noteq> 38 \<and> c \<noteq> 61 \<and> c \<noteq> 35 \<and> c \<noteq> 63 \<and> c \<noteq> 47 \<and> \<not> is_space c"
  by (drule quote_byte_safe, elim disjE) (simp_all add: is_space_def always_safe_chars [unfolded is_space_def])

lemma hex_val_upper: "v < 16 \<Longrightarrow> hex_val (hex_upper v) = Some v"
  by (auto simp: hex_val_def hex_upper_def)

lemma byte_of_parts: "(of_nat (16 * (unat b div 16) + unat b mod 16) :: byte) = b"
  by simp

lemma unquote_bytes_cons: "c \<noteq> 37 \<Longrightarrow> unquote_bytes (c # r) = of_nat c # unquote_bytes r"
  by (cases r rule: unquote_bytes.cases) (auto split: list.split)

definition plus_space :: "ustr \<Rightarrow> ustr" where
  "plus_space s = map (\<lambda>c. if c = 43 then 32 else c) s"

lemma unquote_quote_byte: "unquote_bytes (plus_space (quote_byte b) @ r) = b # unquote_bytes r"
proof -
  have v: "unat b < 256" by (rule unat_byte_less)
  consider "always_safe (unat b)" | "\<not> always_safe (unat b)" "unat b = 32" | "\<not> always_safe (unat b)" "unat b \<noteq> 32"
    by blast
  then show ?thesis
  proof cases
    case 1
    then have "unat b \<noteq> 37" "unat b \<noteq> 43" by (auto simp: always_safe_def)
    with 1 show ?thesis by (simp add: quote_byte_def plus_space_def unquote_bytes_cons)
  next
    case 2
    then have "b = 32" by (simp add: word_unat_eq_iff)
    with 2 show ?thesis by (simp add: quote_byte_def plus_space_def unquote_bytes_cons always_safe_def)
  next
    case 3
    have h: "hex_upper (unat b div 16) \<noteq> 43" "hex_upper (unat b mod 16) \<noteq> 43" by (auto simp: hex_upper_def)
    have "unat b div 16 < 16" using v by simp
    then show ?thesis
      using 3 h hex_val_upper [of "unat b div 16"] hex_val_upper [of "unat b mod 16"]
      by (simp add: quote_byte_def plus_space_def Let_def)
  qed
qed

lemma unquote_quote_bytes: "unquote_bytes (plus_space (concat (map quote_byte bs))) = bs"
proof (induction bs)
  case (Cons b bs)
  then show ?case using unquote_quote_byte [of b "plus_space (concat (map quote_byte bs))"]
    by (simp add: plus_space_def)
qed (simp add: plus_space_def)

lemma unquote_bytes_ascii_plain: "37 \<notin> set s \<Longrightarrow> unquote_bytes s = map of_nat s"
  by (induction s) (simp_all add: unquote_bytes_cons)

lemma unquote_runs_ascii: "ascii s \<Longrightarrow> unquote_runs s = utf8_decode_replace (unquote_bytes s)"
proof (cases s)
  case (Cons c cs)
  assume a: "ascii s"
  then have r: "takeWhile (\<lambda>x. x < 128) cs = cs" "dropWhile (\<lambda>x. x < 128) cs = []" and c: "c < 128"
    using Cons by (auto simp: ascii_def takeWhile_eq_all_conv dropWhile_eq_Nil_conv)
  show ?thesis unfolding Cons unquote_runs.simps r if_P [OF c] append_Nil2 ..
qed (simp add: utf8_decode_replace_def)

lemma unquote_ascii: "ascii s \<Longrightarrow> unquote s = utf8_decode_replace (unquote_bytes s)"
  by (auto simp: unquote_def unquote_runs_ascii unquote_bytes_ascii_plain utf8_replace_ascii)

lemma unquote_quote [codec]: "quote_plus s = Some q \<Longrightarrow> unquote_plus q = s"
proof -
  assume "quote_plus s = Some q"
  then obtain bs where b: "utf8_encode s = Some bs" "q = concat (map quote_byte bs)"
    by (auto simp: quote_plus_def)
  have "ascii (plus_space q)" using b(2) quote_byte_chars by (fastforce simp: ascii_def plus_space_def)
  then have "unquote_plus q = utf8_decode_replace (unquote_bytes (plus_space q))"
    by (simp add: unquote_plus_def plus_space_def unquote_ascii)
  then show ?thesis using b by (simp add: unquote_quote_bytes utf8_replace_roundtrip)
qed

lemma quote_plus_chars:
  "quote_plus s = Some q \<Longrightarrow> c \<in> set q \<Longrightarrow> c < 128 \<and> c \<noteq> 38 \<and> c \<noteq> 61 \<and> c \<noteq> 35 \<and> c \<noteq> 63 \<and> c \<noteq> 47 \<and> \<not> is_space c"
  using quote_byte_chars by (fastforce simp: quote_plus_def)

lemma utf8_encode_nonempty: "utf8_encode s = Some bs \<Longrightarrow> bs = [] \<longleftrightarrow> s = []"
  by (metis utf8_roundtrip utf8_encode.simps(1) option.inject)

lemma quote_plus_nonempty: "quote_plus s = Some q \<Longrightarrow> q = [] \<longleftrightarrow> s = []"
proof -
  have ne: "quote_byte b \<noteq> []" for b by (simp add: quote_byte_def Let_def)
  assume "quote_plus s = Some q"
  then obtain bs where b: "utf8_encode s = Some bs" "q = concat (map quote_byte bs)" by (auto simp: quote_plus_def)
  have "q = [] \<longleftrightarrow> bs = []" using ne b(2) by (cases bs) auto
  with utf8_encode_nonempty [OF b(1)] show ?thesis by simp
qed

lemma parse_field_quoted:
  assumes "quote_plus k = Some qk" "quote_plus v = Some qv"
  shows "parse_field (qk @ [61] @ qv) = (if v = [] then None else Some (k, v))"
proof -
  have "\<forall>c \<in> set qk. c \<noteq> 61" using quote_plus_chars [OF assms(1)] by blast
  then have "takeWhile (\<lambda>c. c \<noteq> 61) (qk @ [61] @ qv) = qk" "dropWhile (\<lambda>c. c \<noteq> 61) (qk @ [61] @ qv) = 61 # qv"
    by (simp_all add: takeWhile_append2 dropWhile_append2)
  then show ?thesis
    using quote_plus_nonempty [OF assms(2)] unquote_quote [OF assms(1)] unquote_quote [OF assms(2)]
    by (simp add: parse_field_def Let_def)
qed

lemma split_join_amp:
  "xs \<noteq> [] \<Longrightarrow> \<forall>x \<in> set xs. 38 \<notin> set x \<Longrightarrow> split_on 38 (join_amp xs) = xs"
proof (induction xs rule: join_amp.induct)
  case (3 x y xs)
  then show ?case using split_on_append [of 38 x "join_amp (y # xs)"] by simp
qed (simp_all add: split_on_absent)

lemma parse_urlencode [codec]:
  assumes "urlencode kvs = Some q" "kvs \<noteq> []"
  shows "parse_qs q = filter (\<lambda>(k, v). v \<noteq> []) kvs"
proof -
  let ?f = "\<lambda>(k, v). the (quote_plus k) @ [61] @ the (quote_plus v)"
  have all: "\<forall>(k, v) \<in> set kvs. quote_plus k \<noteq> None \<and> quote_plus v \<noteq> None"
    and q: "q = join_amp (map ?f kvs)"
    using assms(1) by (auto simp: urlencode_def Let_def list_all_iff comp_def case_prod_unfold split: if_splits)
  have "\<forall>x \<in> set (map ?f kvs). 38 \<notin> set x"
    using all quote_plus_chars by fastforce
  then have "split_on 38 q = map ?f kvs" unfolding q using assms(2) by (intro split_join_amp) auto
  moreover have "concat (map (\<lambda>f. case parse_field f of None \<Rightarrow> [] | Some kv \<Rightarrow> [kv]) (map ?f l)) =
      filter (\<lambda>(k, v). v \<noteq> []) l" if "set l \<subseteq> set kvs" for l
    using that
  proof (induction l)
    case (Cons kv l)
    obtain k v where kv: "kv = (k, v)" by (cases kv)
    then obtain qk qv where "quote_plus k = Some qk" "quote_plus v = Some qv" using all Cons.prems by fastforce
    with Cons kv parse_field_quoted [of k qk v qv] show ?case by auto
  qed simp
  ultimately show ?thesis by (simp add: parse_qs_def)
qed

end
