(* ===== verification/Config.thy ===== *)
theory Config
  imports Url
begin

text \<open>
  aegs_config.py: the connection profile with its \<open>aegs://\<close> link and mobile configuration, and
  the profile store with its file. The older copy in tools/aegs_config.py, which differs in the
  link format and in how the active profile is kept, is modelled after it. \<open>base64\<close> and
  \<open>json\<close> together enter as a decoder of the fields that the import reads.
\<close>

section \<open>Profiles\<close>

record profile =
  pf_name :: ustr
  pf_ip :: ustr
  pf_port :: int
  pf_port_count :: int
  pf_token :: ustr
  pf_key_id :: ustr
  pf_mimicry :: bool
  pf_split_tunnel :: bool
  pf_mode :: ustr
  pf_active :: bool
  pf_assigned_ip :: ustr
  pf_dns :: ustr
  pf_bypass :: ustr
  pf_notes :: ustr

definition default_bypass_domains :: "ustr list" where
  "default_bypass_domains =
    [ustr ''sberbank.ru'', ustr ''sber.ru'', ustr ''tbank.ru'', ustr ''tinkoff.ru'', ustr ''vtb.ru'',
     ustr ''gosuslugi.ru'', ustr ''ya.ru'', ustr ''yandex.ru'', ustr ''vk.com'',
     ustr ''kinopoisk.ru'', ustr ''ozon.ru'', ustr ''wildberries.ru'', ustr ''avito.ru'',
     ustr ''nalog.gov.ru'', ustr ''mos.ru'']"

text \<open>The separator \<open>", "\<close> of \<open>join\<close>.\<close>

fun join_comma :: "ustr list \<Rightarrow> ustr" where
  "join_comma [] = []"
| "join_comma [x] = x"
| "join_comma (x # y # xs) = x @ [44, 32] @ join_comma (y # xs)"

text \<open>The constructor with its default field values.\<close>

definition new_profile :: "ustr \<Rightarrow> ustr \<Rightarrow> profile" where
  "new_profile name ip =
     \<lparr>pf_name = name, pf_ip = ip, pf_port = 50001, pf_port_count = 8,
      pf_token = ustr ''default_token_aegs_v6'', pf_key_id = ustr ''aegs_client_01'',
      pf_mimicry = True, pf_split_tunnel = True, pf_mode = ustr ''service'', pf_active = False,
      pf_assigned_ip = ustr ''10.8.0.2'', pf_dns = ustr ''1.1.1.1, 8.8.8.8'',
      pf_bypass = join_comma default_bypass_domains, pf_notes = []\<rparr>"

definition str_int :: "int \<Rightarrow> ustr" where
  "str_int n = (if n < 0 then 45 # str_nat (nat (- n)) else str_nat (nat n))"

text \<open>\<open>to_uri\<close>: \<open>None\<close> where \<open>urlencode\<close> raises.\<close>

definition to_uri :: "profile \<Rightarrow> ustr option" where
  "to_uri p =
     map_option (\<lambda>qs. ustr ''aegs://'' @ pf_ip p @ [58] @ str_int (pf_port p) @ [63] @ qs)
       (urlencode [(ustr ''token'', pf_token p), (ustr ''proto'', ustr ''titan_quic''),
                   (ustr ''key_id'', pf_key_id p), (ustr ''name'', pf_name p)])"

text \<open>What the import reads of the JSON object; a missing key is \<open>None\<close>, \<open>m\<close> and \<open>st\<close> by truth value.\<close>

record json_profile =
  jp_name :: "ustr option"
  jp_ip :: "ustr option"
  jp_p :: "int option"
  jp_pc :: "int option"
  jp_t :: "ustr option"
  jp_k :: "ustr option"
  jp_m :: "bool option"
  jp_st :: "bool option"

definition imported_name :: ustr where
  "imported_name =
     [1048, 1084, 1087, 1086, 1088, 1090, 1080, 1088, 1086, 1074, 1072, 1085, 1085, 1099, 1081, 32,
      1089, 1077, 1088, 1074, 1077, 1088]"

definition or_default :: "'a option \<Rightarrow> 'a \<Rightarrow> 'a" where
  "or_default x d = (case x of None \<Rightarrow> d | Some v \<Rightarrow> v)"

text \<open>\<open>raw + "=" * (-len(raw) % 4)\<close>\<close>

definition pad_b64 :: "ustr \<Rightarrow> ustr" where
  "pad_b64 raw = raw @ replicate (nat ((- int (length raw)) mod 4)) 61"

definition json_import :: "ustr \<Rightarrow> json_profile \<Rightarrow> pyexn + profile" where
  "json_import dflt_name d =
     (case jp_ip d of
        None \<Rightarrow> Inl KeyError
      | Some ip \<Rightarrow>
          Inr ((new_profile (or_default (jp_name d) dflt_name) ip)
                \<lparr>pf_port := or_default (jp_p d) 50001, pf_port_count := or_default (jp_pc d) 8,
                 pf_token := or_default (jp_t d) [], pf_key_id := or_default (jp_k d) [],
                 pf_mimicry := or_default (jp_m d) True, pf_split_tunnel := or_default (jp_st d) True,
                 pf_mode := ustr ''custom''\<rparr>))"

text \<open>Part 1 of \<open>from_uri\<close>; \<open>None\<close> where the \<open>try\<close> block raises.\<close>

definition parse_link :: "(ustr \<Rightarrow> bool) \<Rightarrow> ustr \<Rightarrow> profile option" where
  "parse_link netloc_ok raw =
     (let fake_url = (if starts_with raw (ustr ''http'') then raw else ustr ''aegs://'' @ raw);
          (nl, path, query) = urlparse fake_url;
          netloc = (if nl \<noteq> [] then nl else takeWhile (\<lambda>c. c \<noteq> 63) path) in
      if \<not> netloc_ok nl then None
      else
        (case (if 58 \<in> set netloc
               then (takeWhile (\<lambda>c. c \<noteq> 58) netloc, py_int (tl (dropWhile (\<lambda>c. c \<noteq> 58) netloc)))
               else (netloc, Some 50001)) of
           (ip, None) \<Rightarrow> None
         | (ip, Some port) \<Rightarrow>
             (let qs = parse_qs query in
              Some ((new_profile (qs_first qs (ustr ''name'') (ustr ''AEGS ('' @ ip @ [41])) ip)
                     \<lparr>pf_port := port, pf_token := qs_first qs (ustr ''token'') [],
                      pf_key_id := qs_first qs (ustr ''key_id'') (ustr ''key_'' @ ip),
                      pf_mode := (if has_sub (ustr ''185.196.'') ip then ustr ''service'' else ustr ''custom'')\<rparr>))))"

definition from_uri :: "(ustr \<Rightarrow> bool) \<Rightarrow> (ustr \<Rightarrow> json_profile option) \<Rightarrow> ustr \<Rightarrow> pyexn + profile" where
  "from_uri netloc_ok decode_json uri =
     (let raw0 = strip_by is_space uri;
          raw = (if starts_with raw0 (ustr ''aegs://'') then drop 7 raw0 else raw0);
          link = (if 63 \<in> set raw \<or> 58 \<in> set raw \<and> \<not> starts_with raw [123]
                  then parse_link netloc_ok raw else None) in
      case link of
        Some p \<Rightarrow> Inr p
      | None \<Rightarrow>
          (case decode_json (pad_b64 raw) of
             None \<Rightarrow> Inl ValueError
           | Some d \<Rightarrow> (case json_import imported_name d of Inl _ \<Rightarrow> Inl ValueError | Inr p \<Rightarrow> Inr p)))"

definition to_mobile_conf :: "profile \<Rightarrow> ustr" where
  "to_mobile_conf p = concat (map (\<lambda>l. l @ [10])
     [ustr ''# AEGS v6 High-Speed Stealth Protocol Profile'',
      ustr ''# Compatible with AEGS Mobile & Amnezia Client'',
      ustr ''[Interface]'',
      ustr ''Name = '' @ pf_name p,
      ustr ''AssignedIP = '' @ pf_assigned_ip p @ ustr ''/24'',
      ustr ''DNS = '' @ pf_dns p,
      ustr ''Mimicry = '' @ (if pf_mimicry p then ustr ''RFC9000_QUIC_INITIAL'' else ustr ''OFF''),
      ustr ''SplitTunneling = '' @ (if pf_split_tunnel p then ustr ''ENABLED'' else ustr ''DISABLED''),
      ustr ''BypassList = '' @ pf_bypass p,
      [],
      ustr ''[Server]'',
      ustr ''Endpoint = '' @ pf_ip p @ [58] @ str_int (pf_port p),
      ustr ''PortRange = '' @ str_int (pf_port p) @ ustr '' - '' @ str_int (pf_port p + pf_port_count p - 1),
      ustr ''Token = '' @ pf_token p,
      ustr ''KeyID = '' @ pf_key_id p,
      ustr ''Encryption = ChaCha20-Poly1305'',
      ustr ''AntiDDoS = StatelessCookies''])"

section \<open>The profile store\<close>

text \<open>The file: absent, unreadable as JSON profiles, or a list of profiles.\<close>

datatype store_file = NoFile | BadFile | ProfilesFile "profile list"

record storage =
  sto_profiles :: "profile list"
  sto_file :: store_file

text \<open>\<open>save\<close> swallows every exception: opening may fail, or writing after the file was cut.\<close>

datatype write_result = Written | OpenFailed | WriteBroke

definition save :: "write_result \<Rightarrow> storage \<Rightarrow> storage" where
  "save w st =
     (case w of
        Written \<Rightarrow> st\<lparr>sto_file := ProfilesFile (sto_profiles st)\<rparr>
      | OpenFailed \<Rightarrow> st
      | WriteBroke \<Rightarrow> st\<lparr>sto_file := BadFile\<rparr>)"

definition starter_profiles :: "profile list" where
  "starter_profiles =
     [(new_profile
         (ustr ''AEGS Cloud '' @ [1057, 1082, 1086, 1088, 1086, 1089, 1090, 1085, 1086, 1081, 32, 40
         , 1043, 1077, 1088, 1084, 1072, 1085, 1080, 1103, 41])
         (ustr ''31.76.9.86''))
        \<lparr>pf_token := ustr ''aegs_secure_token_titan_v6'', pf_key_id := ustr ''user_key_01'', pf_active := True,
         pf_notes :=
          [1054, 1092, 1080, 1094, 1080, 1072, 1083, 1100, 1085, 1099, 1081, 32, 1089, 1082, 1086
          , 1088, 1086, 1089, 1090, 1085, 1086, 1081, 32, 1089, 1077, 1088, 1074, 1077, 1088, 32]
          @ ustr ''AEGS '' @ [1089, 32, 1079, 1072, 1097, 1080, 1090, 1086, 1081, 32, 1086, 1090, 32
          , 1058, 1057, 1055, 1059] @ ustr ''/DPI''\<rparr>,
      (new_profile
         ([1052, 1086, 1081, 32, 1083, 1080, 1095, 1085, 1099, 1081, 32]
         @ ustr ''VPS (Amnezia-style)'')
         (ustr ''198.51.100.1''))
        \<lparr>pf_token := ustr ''my_vps_secret_token'', pf_key_id := ustr ''my_vps_key'', pf_mode := ustr ''custom'',
         pf_notes :=
          [1057, 1074, 1086, 1081, 32, 1089, 1077, 1088, 1074, 1077, 1088, 32, 40, 1074, 1074, 1077
          , 1076, 1080, 1090, 1077, 32, 73, 80, 32, 1080, 32, 1090, 1086, 1082, 1077, 1085, 32, 1074
          , 1072, 1096, 1077, 1075, 1086, 32] @ ustr ''VPS)''\<rparr>]"

definition storage_load :: "write_result \<Rightarrow> store_file \<Rightarrow> storage" where
  "storage_load w file =
     (case file of
        ProfilesFile (p # ps) \<Rightarrow> \<lparr>sto_profiles = p # ps, sto_file = file\<rparr>
      | _ \<Rightarrow> save w \<lparr>sto_profiles = starter_profiles, sto_file = file\<rparr>)"

definition add_profile :: "write_result \<Rightarrow> profile \<Rightarrow> storage \<Rightarrow> storage" where
  "add_profile w p st =
     save w (st\<lparr>sto_profiles := map (\<lambda>q. q\<lparr>pf_active := False\<rparr>) (sto_profiles st) @ [p\<lparr>pf_active := True\<rparr>]\<rparr>)"

definition remove_nth :: "nat \<Rightarrow> 'a list \<Rightarrow> 'a list" where
  "remove_nth i xs = take i xs @ drop (Suc i) xs"

definition delete_profile :: "write_result \<Rightarrow> int \<Rightarrow> storage \<Rightarrow> storage" where
  "delete_profile w idx st =
     (if 0 \<le> idx \<and> idx < int (length (sto_profiles st)) then
        (let ps = remove_nth (nat idx) (sto_profiles st);
             ps' = (case ps of
                      [] \<Rightarrow> []
                    | q # qs \<Rightarrow> if list_ex pf_active ps then ps else q\<lparr>pf_active := True\<rparr> # qs)
         in save w (st\<lparr>sto_profiles := ps'\<rparr>))
      else st)"

definition get_active :: "storage \<Rightarrow> profile option" where
  "get_active st =
     (case filter pf_active (sto_profiles st) of
        p # _ \<Rightarrow> Some p
      | [] \<Rightarrow> (case sto_profiles st of [] \<Rightarrow> None | p # _ \<Rightarrow> Some p))"

definition set_active :: "write_result \<Rightarrow> int \<Rightarrow> storage \<Rightarrow> storage" where
  "set_active w idx st =
     save w (st\<lparr>sto_profiles :=
       map (\<lambda>(i, p). p\<lparr>pf_active := (int i = idx)\<rparr>) (enumerate 0 (sto_profiles st))\<rparr>)"

section \<open>The copy in tools/\<close>

text \<open>
  The link is the base64 text of a JSON object, whose keys \<open>v\<close> (always 6) and \<open>dns\<close> no import reads;
  \<open>encode_json\<close> stands for both codecs, applied to \<open>dns\<close> and to the fields that are read back.
\<close>

definition tools_to_uri :: "(ustr \<Rightarrow> json_profile \<Rightarrow> ustr) \<Rightarrow> profile \<Rightarrow> ustr" where
  "tools_to_uri encode_json p =
     ustr ''aegs://'' @ encode_json (pf_dns p)
       \<lparr>jp_name = Some (pf_name p), jp_ip = Some (pf_ip p), jp_p = Some (pf_port p),
        jp_pc = Some (pf_port_count p), jp_t = Some (pf_token p), jp_k = Some (pf_key_id p),
        jp_m = Some (pf_mimicry p), jp_st = Some (pf_split_tunnel p)\<rparr>"

definition tools_from_uri :: "(ustr \<Rightarrow> json_profile option) \<Rightarrow> ustr \<Rightarrow> pyexn + profile" where
  "tools_from_uri decode_json uri =
     (if \<not> starts_with uri (ustr ''aegs://'') then Inl ValueError
      else (case decode_json (pad_b64 (drop 7 uri)) of
         None \<Rightarrow> Inl ValueError
       | Some d \<Rightarrow> json_import (ustr ''Imported Server'') d))"

definition tools_add_profile :: "write_result \<Rightarrow> profile \<Rightarrow> storage \<Rightarrow> storage" where
  "tools_add_profile w p st = save w (st\<lparr>sto_profiles := sto_profiles st @ [p]\<rparr>)"

definition tools_delete_profile :: "write_result \<Rightarrow> int \<Rightarrow> storage \<Rightarrow> storage" where
  "tools_delete_profile w idx st =
     (if 0 \<le> idx \<and> idx < int (length (sto_profiles st))
      then save w (st\<lparr>sto_profiles := remove_nth (nat idx) (sto_profiles st)\<rparr>) else st)"

definition tools_starter_profiles :: "profile list" where
  "tools_starter_profiles =
     [(new_profile
         (ustr ''AEGS Cloud '' @ [8212, 32, 1041, 1099, 1089, 1090, 1088, 1099, 1081, 32, 1089, 1077
         , 1088, 1074, 1077, 1088, 32, 40, 1040, 1085, 1090, 1080, 45, 1041, 1083, 1086, 1082, 1080
         , 1088, 1086, 1074, 1082, 1072, 41])
         (ustr ''31.76.9.86''))
        \<lparr>pf_token := ustr ''aegs_secure_token_titan_v6'', pf_key_id := ustr ''user_key_01'', pf_active := True,
         pf_notes :=
          [1054, 1092, 1080, 1094, 1080, 1072, 1083, 1100, 1085, 1099, 1081, 32, 1074, 1099, 1089
          , 1086, 1082, 1086, 1089, 1082, 1086, 1088, 1086, 1089, 1090, 1085, 1086, 1081, 32, 1089
          , 1077, 1088, 1074, 1077, 1088, 32] @ ustr ''AEGS '' @ [1089, 32, 1086, 1073, 1093, 1086
          , 1076, 1086, 1084, 32, 1058, 1057, 1055, 1059] @ ustr ''/DPI''\<rparr>,
      (new_profile
         ([1052, 1086, 1081, 32, 1089, 1086, 1073, 1089, 1090, 1074, 1077, 1085, 1085, 1099, 1081
         , 32] @ ustr ''VPS (Amnezia-style)'')
         (ustr ''198.51.100.1''))
        \<lparr>pf_token := ustr ''my_vps_secret_token'', pf_key_id := ustr ''my_vps_key'', pf_mode := ustr ''custom'',
         pf_notes :=
          [1055, 1086, 1083, 1100, 1079, 1086, 1074, 1072, 1090, 1077, 1083, 1100, 1089, 1082, 1080
          , 1081, 32, 1089, 1077, 1088, 1074, 1077, 1088, 32, 40, 1074, 1074, 1077, 1076, 1080, 1090
          , 1077, 32, 73, 80, 32, 1080, 32, 1090, 1086, 1082, 1077, 1085, 32, 1089, 1074, 1086, 1077
          , 1075, 1086, 32] @ ustr ''VPS)''\<rparr>]"

definition tools_storage_load :: "write_result \<Rightarrow> store_file \<Rightarrow> storage" where
  "tools_storage_load w file =
     (case file of
        ProfilesFile ps \<Rightarrow> \<lparr>sto_profiles = ps, sto_file = file\<rparr>
      | _ \<Rightarrow> save w \<lparr>sto_profiles = tools_starter_profiles, sto_file = file\<rparr>)"

section \<open>Lemmas\<close>

lemma strip_by_ends: "xs \<noteq> [] \<Longrightarrow> \<not> p (hd xs) \<Longrightarrow> \<not> p (last xs) \<Longrightarrow> strip_by p xs = xs"
proof -
  assume a: "xs \<noteq> []" "\<not> p (hd xs)" "\<not> p (last xs)"
  then have "dropWhile p xs = xs" by (cases xs) auto
  moreover have "dropWhile p (rev xs) = rev xs" using a by (cases xs rule: rev_cases) auto
  ultimately show ?thesis by (simp add: strip_by_def)
qed

lemma py_int_str_int [codec]: "py_int (str_int n) = Some n"
proof (cases "n < 0")
  case True
  let ?d = "dec_digits (nat (- n))"
  have d: "\<forall>c \<in> set ?d. is_digit c" using dec_digits_digits by blast
  then have "strip_by is_space (45 # ?d) = 45 # ?d"
    using digit_not_space by (intro strip_by_id) (auto simp: is_space_def)
  then show ?thesis
    using True int_digits_all [OF dec_digits_nonempty d] digits_val_dec_digits [of "nat (- n)"]
    by (simp add: py_int_def str_int_def str_nat_def)
next
  case False
  then show ?thesis using py_int_str_nat [of "nat n"] by (simp add: str_int_def)
qed

lemma set_str_int: "c \<in> set (str_int n) \<Longrightarrow> is_digit c \<or> c = 45"
  by (auto simp: str_int_def split: if_splits dest: set_str_nat)

lemma set_join_amp: "set (join_amp xs) \<subseteq> insert 38 (\<Union> (set ` set xs))"
  by (induction xs rule: join_amp.induct) auto

lemma urlencode_chars:
  assumes "urlencode kvs = Some q" "c \<in> set q"
  shows "\<not> is_space c \<and> c \<noteq> 35 \<and> c \<noteq> 63"
proof -
  let ?f = "\<lambda>(k, v). the (quote_plus k) @ [61] @ the (quote_plus v)"
  have all: "\<forall>(k, v) \<in> set kvs. quote_plus k \<noteq> None \<and> quote_plus v \<noteq> None"
    and q: "q = join_amp (map ?f kvs)"
    using assms(1) by (auto simp: urlencode_def Let_def list_all_iff comp_def case_prod_unfold split: if_splits)
  have "c = 38 \<or> (\<exists>kv \<in> set kvs. c \<in> set (?f kv))"
    using assms(2) set_join_amp [of "map ?f kvs"] unfolding q by auto
  then consider "c = 38 \<or> c = 61" | k v where "(k, v) \<in> set kvs" "c \<in> set (the (quote_plus k)) \<or> c \<in> set (the (quote_plus v))"
    by auto
  then show ?thesis
  proof cases
    case 1
    then show ?thesis by (auto simp: is_space_def)
  next
    case 2
    then obtain qk qv where qs: "quote_plus k = Some qk" "quote_plus v = Some qv" using all by fastforce
    from 2(2) show ?thesis
      using quote_plus_chars [OF qs(1), of c] quote_plus_chars [OF qs(2), of c] by (auto simp: qs)
  qed
qed

lemma takeWhile_append_stop: "\<forall>x \<in> set xs. P x \<Longrightarrow> \<not> P y \<Longrightarrow> takeWhile P (xs @ y # ys) = xs"
  by (induction xs) auto

lemma dropWhile_append_stop: "\<forall>x \<in> set xs. P x \<Longrightarrow> \<not> P y \<Longrightarrow> dropWhile P (xs @ y # ys) = y # ys"
  by (induction xs) auto

definition plain_host :: "ustr \<Rightarrow> bool" where
  "plain_host h \<longleftrightarrow> (\<forall>c \<in> set h. c \<noteq> 58 \<and> c \<noteq> 47 \<and> c \<noteq> 63 \<and> c \<noteq> 35 \<and> c \<noteq> 9 \<and> c \<noteq> 10 \<and> c \<noteq> 13)"

lemma urlparse_link:
  assumes "\<forall>c \<in> set nl. c \<noteq> 47 \<and> c \<noteq> 63 \<and> c \<noteq> 35 \<and> c \<noteq> 9 \<and> c \<noteq> 10 \<and> c \<noteq> 13"
    and "\<forall>c \<in> set qs. c \<noteq> 35 \<and> c \<noteq> 9 \<and> c \<noteq> 10 \<and> c \<noteq> 13"
  shows "urlparse (ustr ''aegs://'' @ nl @ [63] @ qs) = (nl, [], qs)"
proof -
  let ?u = "ustr ''aegs://'' @ nl @ [63] @ qs"
  have u: "?u = [97, 101, 103, 115] @ 58 # 47 # 47 # nl @ 63 # qs" by (simp add: ustr_def)
  have f: "filter (\<lambda>c. c \<noteq> 9 \<and> c \<noteq> 10 \<and> c \<noteq> 13) (dropWhile (\<lambda>c. c \<le> 32) ?u) = ?u"
    unfolding u using assms by (simp add: filter_id_conv)
  have s: "takeWhile (\<lambda>c. c \<noteq> 58) ?u = [97, 101, 103, 115]" unfolding u by (intro takeWhile_append_stop) auto
  have n: "takeWhile (\<lambda>c. c \<noteq> 47 \<and> c \<noteq> 63 \<and> c \<noteq> 35) (nl @ 63 # qs) = nl"
    using assms(1) by (intro takeWhile_append_stop) auto
  have r: "takeWhile (\<lambda>c. c \<noteq> 35) (63 # qs) = 63 # qs"
    using assms(2) by (intro takeWhile_eq_all_conv [THEN iffD2]) auto
  have d: "drop (Suc (length [97 :: nat, 101, 103, 115])) ?u = 47 # 47 # nl @ 63 # qs" unfolding u by simp
  have "58 \<in> set ?u" unfolding u by simp
  then show ?thesis
    unfolding urlparse_def Let_def f s using d n r
    by (simp add: is_alpha_def scheme_char_def)
qed

section \<open>Properties of the link\<close>

lemma from_uri_link:
  assumes qs: "urlencode kvs = Some qs" and "\<exists>kv \<in> set kvs. snd kv \<noteq> []"
    and "plain_host ip" "\<not> starts_with ip (ustr ''http'')" and "netloc_ok (ip @ [58] @ str_int port)"
  shows "from_uri netloc_ok decode_json (ustr ''aegs://'' @ ip @ [58] @ str_int port @ [63] @ qs) =
    (let fields = filter (\<lambda>(k, v). v \<noteq> []) kvs in
     Inr ((new_profile (qs_first fields (ustr ''name'') (ustr ''AEGS ('' @ ip @ [41])) ip)
      \<lparr>pf_port := port, pf_token := qs_first fields (ustr ''token'') [],
       pf_key_id := qs_first fields (ustr ''key_id'') (ustr ''key_'' @ ip),
       pf_mode := (if has_sub (ustr ''185.196.'') ip then ustr ''service'' else ustr ''custom'')\<rparr>))"
proof -
  let ?u = "ustr ''aegs://'' @ ip @ [58] @ str_int port @ [63] @ qs"
  let ?nl = "ip @ [58] @ str_int port"
  let ?raw = "?nl @ [63] @ qs"
  have parsed: "parse_qs qs = filter (\<lambda>(k, v). v \<noteq> []) kvs"
    using assms(2) by (intro parse_urlencode [OF qs]) auto
  then have "parse_qs qs \<noteq> []" using assms(2) by (auto simp: filter_empty_conv)
  moreover have "parse_qs [] = []" by (simp add: parse_qs_def parse_field_def)
  ultimately have qne: "qs \<noteq> []" by auto
  have qc: "\<forall>c \<in> set qs. \<not> is_space c \<and> c \<noteq> 35 \<and> c \<noteq> 63" using urlencode_chars [OF qs] by blast
  have strip: "strip_by is_space ?u = ?u"
  proof (rule strip_by_ends)
    show "?u \<noteq> []" "\<not> is_space (hd ?u)" by (simp_all add: ustr_def is_space_def)
    show "\<not> is_space (last ?u)" using qc qne by simp
  qed
  have raw: "starts_with ?u (ustr ''aegs://'')" "drop 7 ?u = ?raw" by (simp_all add: starts_with_def ustr_def)
  have nohttp: "\<not> starts_with ?raw (ustr ''http'')"
  proof
    assume h: "starts_with ?raw (ustr ''http'')"
    have l: "ustr ''http'' = [104, 116, 116, 112]" by (simp add: ustr_def)
    show False
    proof (cases "4 \<le> length ip")
      case True
      with h assms(4) show False by (simp add: starts_with_def l)
    next
      case False
      have eq: "take (length [104 :: nat, 116, 116, 112]) ?raw = [104, 116, 116, 112]"
        using h by (simp only: starts_with_def l)
      have "take (length [104 :: nat, 116, 116, 112]) ?raw ! length ip = ?raw ! length ip"
        by (rule nth_take) (use False in simp)
      also have "\<dots> = 58" by simp
      finally have "[104, 116, 116, 112 :: nat] ! length ip = 58" by (simp only: eq)
      moreover have "[104, 116, 116, 112 :: nat] ! length ip \<in> set [104, 116, 116, 112]"
        using False by (intro nth_mem) simp
      ultimately show False by simp
    qed
  qed
  have nlc: "\<forall>c \<in> set ?nl. c \<noteq> 47 \<and> c \<noteq> 63 \<and> c \<noteq> 35 \<and> c \<noteq> 9 \<and> c \<noteq> 10 \<and> c \<noteq> 13"
  proof
    fix c assume "c \<in> set ?nl"
    then have "c \<in> set ip \<or> c = 58 \<or> c \<in> set (str_int port)" by auto
    then consider "c \<in> set ip" | "c = 58" | "is_digit c \<or> c = 45"
      using set_str_int [of c port] by blast
    then show "c \<noteq> 47 \<and> c \<noteq> 63 \<and> c \<noteq> 35 \<and> c \<noteq> 9 \<and> c \<noteq> 10 \<and> c \<noteq> 13"
    proof cases
      case 1
      with assms(3) show ?thesis unfolding plain_host_def by blast
    qed (auto simp: is_digit_def)
  qed
  have up: "urlparse (ustr ''aegs://'' @ ?nl @ [63] @ qs) = (?nl, [], qs)"
  proof (rule urlparse_link [OF nlc])
    have "is_space 9" "is_space 10" "is_space 13" by (simp_all add: is_space_def)
    then show "\<forall>c \<in> set qs. c \<noteq> 35 \<and> c \<noteq> 9 \<and> c \<noteq> 10 \<and> c \<noteq> 13" using qc by blast
  qed
  have split: "takeWhile (\<lambda>c. c \<noteq> 58) ?nl = ip" "tl (dropWhile (\<lambda>c. c \<noteq> 58) ?nl) = str_int port"
    using assms(3) by (auto simp: plain_host_def takeWhile_append_stop dropWhile_append_stop)
  have "parse_link netloc_ok ?raw = Some ((new_profile (qs_first (parse_qs qs) (ustr ''name'') (ustr ''AEGS ('' @ ip @ [41])) ip)
      \<lparr>pf_port := port, pf_token := qs_first (parse_qs qs) (ustr ''token'') [],
       pf_key_id := qs_first (parse_qs qs) (ustr ''key_id'') (ustr ''key_'' @ ip),
       pf_mode := (if has_sub (ustr ''185.196.'') ip then ustr ''service'' else ustr ''custom'')\<rparr>)"
    unfolding parse_link_def Let_def if_not_P [OF nohttp] up prod.case
    using assms(5) split by (simp add: py_int_str_int)
  moreover have "63 \<in> set ?raw" by simp
  ultimately show ?thesis
    unfolding from_uri_def Let_def strip if_P [OF raw(1)] raw(2) parsed [symmetric] by simp
qed



section \<open>Properties of the store\<close>

text \<open>Exactly one profile is active, unless there is none.\<close>

definition one_active :: "profile list \<Rightarrow> bool" where
  "one_active ps \<longleftrightarrow> ps = [] \<or> (\<exists>i < length ps. \<forall>j < length ps. pf_active (ps ! j) \<longleftrightarrow> j = i)"

datatype store_cmd = Add profile | Delete int | Activate nat

definition store_step :: "store_cmd \<Rightarrow> write_result \<Rightarrow> storage \<Rightarrow> storage" where
  "store_step c w st =
     (case c of Add p \<Rightarrow> add_profile w p st | Delete i \<Rightarrow> delete_profile w i st
      | Activate i \<Rightarrow> if i < length (sto_profiles st) then set_active w (int i) st else st)"

fun store_run :: "(store_cmd \<times> write_result) list \<Rightarrow> storage \<Rightarrow> storage" where
  "store_run [] st = st"
| "store_run ((c, w) # cs) st = store_run cs (store_step c w st)"

lemma save_profiles [simp]: "sto_profiles (save w st) = sto_profiles st"
  by (simp add: save_def split: write_result.split)

lemma one_active_iff_filter: "one_active ps \<longleftrightarrow> ps = [] \<or> length (filter pf_active ps) = 1"
proof -
  have "length (filter pf_active ps) = 1 \<longleftrightarrow> (\<exists>i < length ps. \<forall>j < length ps. pf_active (ps ! j) \<longleftrightarrow> j = i)" for ps
  proof -
    have "length (filter pf_active ps) = card {j. j < length ps \<and> pf_active (ps ! j)}"
      by (rule length_filter_conv_card)
    then have "length (filter pf_active ps) = 1 \<longleftrightarrow> (\<exists>i. {j. j < length ps \<and> pf_active (ps ! j)} = {i})"
      by (simp add: card_1_singleton_iff)
    also have "\<dots> \<longleftrightarrow> (\<exists>i < length ps. \<forall>j < length ps. pf_active (ps ! j) \<longleftrightarrow> j = i)"
      by (auto simp: set_eq_iff)
    finally show ?thesis .
  qed
  then show ?thesis by (auto simp: one_active_def)
qed

lemma add_one_active: "one_active (sto_profiles (add_profile w p st))"
proof -
  have "filter pf_active (map (\<lambda>q. q\<lparr>pf_active := False\<rparr>) ps) = []" for ps :: "profile list"
    by (induction ps) auto
  then show ?thesis by (simp add: one_active_iff_filter add_profile_def)
qed

lemma filter_remove_nth: "length (filter P (remove_nth i ps)) \<le> length (filter P ps)"
proof -
  have "filter P ps = filter P (take i ps) @ filter P (drop i ps)" by (metis append_take_drop_id filter_append)
  moreover have "length (filter P (drop (Suc i) ps)) \<le> length (filter P (drop i ps))"
    by (metis drop_drop length_filter_le filter_append append_take_drop_id length_append le_add2 plus_1_eq_Suc)
  ultimately show ?thesis by (simp add: remove_nth_def)
qed

lemma filter_remove_nth_hit:
  assumes "i < length xs" "P (xs ! i)"
  shows "length (filter P xs) = Suc (length (filter P (remove_nth i xs)))"
proof -
  have "filter P xs = filter P (take i xs @ xs ! i # drop (Suc i) xs)"
    by (rule arg_cong [OF id_take_nth_drop [OF assms(1)]])
  then show ?thesis using assms(2) by (simp add: remove_nth_def)
qed

lemma delete_one_active:
  assumes "one_active (sto_profiles st)"
  shows "one_active (sto_profiles (delete_profile w i st))"
proof (cases "0 \<le> i \<and> i < int (length (sto_profiles st))")
  case True
  let ?ps = "remove_nth (nat i) (sto_profiles st)"
  have le: "length (filter pf_active ?ps) \<le> 1"
    using filter_remove_nth [of pf_active "nat i" "sto_profiles st"] assms True by (auto simp: one_active_iff_filter)
  show ?thesis
  proof (cases ?ps)
    case Nil
    with True show ?thesis by (simp add: delete_profile_def one_active_def)
  next
    case (Cons q qs)
    show ?thesis
    proof (cases "list_ex pf_active ?ps")
      case True
      then have "filter pf_active ?ps \<noteq> []" by (auto simp: list_ex_iff filter_empty_conv)
      with le have "length (filter pf_active ?ps) = 1" by (cases "filter pf_active ?ps") auto
      with \<open>0 \<le> i \<and> _\<close> True Cons show ?thesis by (simp add: delete_profile_def one_active_iff_filter)
    next
      case False
      then have "filter pf_active qs = []" using Cons by (auto simp: list_ex_iff filter_empty_conv)
      with \<open>0 \<le> i \<and> _\<close> False Cons show ?thesis by (simp add: delete_profile_def one_active_iff_filter)
    qed
  qed
next
  case False
  show ?thesis unfolding delete_profile_def if_not_P [OF False] by (rule assms)
qed

lemma set_active_nth:
  "j < length (sto_profiles st) \<Longrightarrow>
   sto_profiles (set_active w idx st) ! j = (sto_profiles st ! j)\<lparr>pf_active := (int j = idx)\<rparr>"
  by (simp add: set_active_def nth_enumerate_eq)

lemma length_set_active: "length (sto_profiles (set_active w idx st)) = length (sto_profiles st)"
  by (simp add: set_active_def)

lemma activate_one_active: "i < length (sto_profiles st) \<Longrightarrow> one_active (sto_profiles (set_active w (int i) st))"
  using set_active_nth [of _ st w "int i"] by (auto simp: one_active_def length_set_active)

lemma starter_one_active: "one_active starter_profiles"
  by (simp add: one_active_iff_filter starter_profiles_def new_profile_def)

text \<open>C26: Starting from the starter profiles or from a file with one active profile, every sequence of
  additions, deletions and in-range activations keeps exactly one profile active as long as there
  is any, and that one is what \<open>get_active\<close> returns, whatever the writes of the file do.\<close>
theorem store_one_active:
  assumes "case file of ProfilesFile ps \<Rightarrow> one_active ps | _ \<Rightarrow> True" "st = store_run cs (storage_load w file)"
  shows "one_active (sto_profiles st) \<and>
    (sto_profiles st \<noteq> [] \<longrightarrow> (\<exists>p \<in> set (sto_profiles st). pf_active p \<and> get_active st = Some p))"
proof -
  have "one_active (sto_profiles (storage_load w file))"
    using assms(1) starter_one_active by (auto simp: storage_load_def split: store_file.splits list.splits)
  moreover have "one_active (sto_profiles s) \<Longrightarrow> one_active (sto_profiles (store_run cs s))" for s
  proof (induction cs s rule: store_run.induct)
    case (2 c w cs st)
    have "one_active (sto_profiles (store_step c w st))"
      using 2(2) by (cases c) (auto simp: store_step_def add_one_active delete_one_active activate_one_active)
    from 2(1) [OF this] show ?case by simp
  qed simp
  ultimately have one: "one_active (sto_profiles st)" using assms(2) by simp
  have "\<exists>p \<in> set (sto_profiles st). pf_active p \<and> get_active st = Some p" if "sto_profiles st \<noteq> []"
  proof -
    have "length (filter pf_active (sto_profiles st)) = 1" using one that by (simp add: one_active_iff_filter)
    then obtain p where f: "filter pf_active (sto_profiles st) = [p]" by (metis One_nat_def length_0_conv length_Suc_conv)
    have "p \<in> set (filter pf_active (sto_profiles st))" unfolding f by simp
    then have "p \<in> set (sto_profiles st)" "pf_active p" by simp_all
    with f show ?thesis by (auto simp: get_active_def)
  qed
  with one show ?thesis by blast
qed

theorem store_one_active_witness:
  "one_active (sto_profiles (store_run [(Delete 0, Written), (Add (new_profile [65] [66]), OpenFailed)]
     (storage_load Written NoFile)))"
  by (rule store_one_active [OF _ refl, THEN conjunct1]) simp

text \<open>A successful write is read back as the same profiles, so a restart loses nothing; only when the
  last profile has been deleted does the next start bring the two starter profiles back.\<close>
theorem store_reload:
  assumes "sto_file st = ProfilesFile (sto_profiles st)"
  shows "sto_profiles (storage_load w (sto_file st)) =
    (if sto_profiles st = [] then starter_profiles else sto_profiles st) \<and>
    sto_file (store_step c Written st) = ProfilesFile (sto_profiles (store_step c Written st))"
proof
  show "sto_profiles (storage_load w (sto_file st)) =
    (if sto_profiles st = [] then starter_profiles else sto_profiles st)"
    using assms by (auto simp: storage_load_def split: list.split)
  show "sto_file (store_step c Written st) = ProfilesFile (sto_profiles (store_step c Written st))"
    using assms by (auto simp: store_step_def add_profile_def delete_profile_def set_active_def save_def Let_def
        split: store_cmd.split)
qed

theorem store_reload_witness:
  "sto_profiles (storage_load Written (sto_file \<lparr>sto_profiles = [], sto_file = ProfilesFile []\<rparr>)) = starter_profiles"
  using store_reload [of "\<lparr>sto_profiles = [], sto_file = ProfilesFile []\<rparr>" Written "Delete 0"] by simp

text \<open>The older copy under tools/ loses the active profile: deleting it leaves no profile marked, and
  \<open>get_active\<close> then silently answers with the first of the list.\<close>
theorem tools_delete_active:
  assumes "i < length (sto_profiles st)" "pf_active (sto_profiles st ! i)" "one_active (sto_profiles st)"
    and "1 < length (sto_profiles st)"
  shows "filter pf_active (sto_profiles (tools_delete_profile w (int i) st)) = [] \<and>
    get_active (tools_delete_profile w (int i) st) = Some (hd (sto_profiles (tools_delete_profile w (int i) st)))"
proof -
  let ?ps = "remove_nth i (sto_profiles st)"
  have p: "sto_profiles (tools_delete_profile w (int i) st) = ?ps"
    using assms(1) by (simp add: tools_delete_profile_def)
  have "length (filter pf_active (sto_profiles st)) = Suc (length (filter pf_active ?ps))"
    by (rule filter_remove_nth_hit [where P = pf_active, OF assms(1,2)])
  then have "filter pf_active ?ps = []" using assms(3,4) by (auto simp: one_active_iff_filter)
  moreover have "?ps \<noteq> []" using assms(1,4) by (auto simp: remove_nth_def)
  ultimately show ?thesis using p by (simp add: get_active_def split: list.split)
qed

theorem tools_delete_active_witness:
  "filter pf_active (sto_profiles (tools_delete_profile Written (int 0)
     \<lparr>sto_profiles = starter_profiles, sto_file = NoFile\<rparr>)) = []"
  by (rule tools_delete_active [THEN conjunct1])
    (simp_all add: starter_one_active, simp_all add: starter_profiles_def new_profile_def)

text \<open>A link made by the older copy is read by the current one: name, address, port, port count,
  token, key id and both switches survive, and the profile becomes a custom one.\<close>
theorem legacy_link_read:
  assumes "\<And>s d. decode_json (pad_b64 (encode_json s d)) = Some d"
    and "\<And>s d. \<forall>c \<in> set (encode_json s d). always_safe c \<and> c \<noteq> 46 \<and> c \<noteq> 126" "\<And>s d. encode_json s d \<noteq> []"
  shows "from_uri netloc_ok decode_json (tools_to_uri encode_json p) =
    Inr ((new_profile (pf_name p) (pf_ip p))
      \<lparr>pf_port := pf_port p, pf_port_count := pf_port_count p, pf_token := pf_token p, pf_key_id := pf_key_id p,
       pf_mimicry := pf_mimicry p, pf_split_tunnel := pf_split_tunnel p, pf_mode := ustr ''custom''\<rparr>)"
proof -
  let ?d = "\<lparr>jp_name = Some (pf_name p), jp_ip = Some (pf_ip p), jp_p = Some (pf_port p),
        jp_pc = Some (pf_port_count p), jp_t = Some (pf_token p), jp_k = Some (pf_key_id p),
        jp_m = Some (pf_mimicry p), jp_st = Some (pf_split_tunnel p)\<rparr>"
  let ?e = "encode_json (pf_dns p) ?d" and ?u = "ustr ''aegs://'' @ encode_json (pf_dns p) ?d"
  have safe: "\<forall>c \<in> set ?e. \<not> is_space c \<and> c \<noteq> 63 \<and> c \<noteq> 58"
  proof
    fix c assume "c \<in> set ?e"
    then have "always_safe c" using assms(2) [of "pf_dns p" ?d] by blast
    then show "\<not> is_space c \<and> c \<noteq> 63 \<and> c \<noteq> 58"
      using always_safe_chars [of c] by (auto simp: always_safe_def)
  qed
  have strip: "strip_by is_space ?u = ?u"
  proof (rule strip_by_ends)
    show "?u \<noteq> []" "\<not> is_space (hd ?u)" by (simp_all add: ustr_def is_space_def)
    show "\<not> is_space (last ?u)" using safe assms(3) [of "pf_dns p" ?d] by simp
  qed
  have s: "starts_with ?u (ustr ''aegs://'')" "drop 7 ?u = ?e" by (simp_all add: starts_with_def ustr_def)
  have "63 \<notin> set ?e" "58 \<notin> set ?e" using safe by blast+
  then show ?thesis
    unfolding from_uri_def tools_to_uri_def Let_def strip if_P [OF s(1)] s(2)
    using assms(1) [of "pf_dns p" ?d] by (simp add: json_import_def or_default_def)
qed

end
