(* ===== verification/PyHash.thy ===== *)
theory PyHash
  imports Prelude
begin

text \<open>
  What the sources use of Python's \<open>hashlib\<close> and \<open>hmac\<close>: SHA-256 (FIPS 180-4),
  \<open>hmac.new(key, msg, sha256).digest()\<close> (RFC 2104), \<open>hashlib.pbkdf2_hmac("sha256", ...)\<close>
  with a 32-byte output (RFC 8018, one block) and \<open>bytes.hex()\<close>. The functions are
  executable; the proofs use only their output lengths.
\<close>

section \<open>SHA-256\<close>

type_synonym w32 = "32 word"

text \<open>
  The constants are the first 32 bits of the fractional parts of the cube roots of the first 64
  primes and of the square roots of the first eight: \<open>root_bits k n i 0\<close> finds the integer
  \<open>k\<close>-th root of \<open>n\<close> bit by bit, from bit \<open>i - 1\<close> down.
\<close>

fun root_bits :: "nat \<Rightarrow> nat \<Rightarrow> nat \<Rightarrow> nat \<Rightarrow> nat" where
  "root_bits k n 0 r = r"
| "root_bits k n (Suc i) r = root_bits k n i (if (r + 2 ^ i) ^ k \<le> n then r + 2 ^ i else r)"

definition small_primes :: "nat list" where
  "small_primes =
   [2, 3, 5, 7, 11, 13, 17, 19, 23, 29, 31, 37, 41, 43, 47, 53, 59, 61, 67, 71, 73, 79, 83,
    89, 97, 101, 103, 107, 109, 113, 127, 131, 137, 139, 149, 151, 157, 163, 167, 173, 179,
    181, 191, 193, 197, 199, 211, 223, 227, 229, 233, 239, 241, 251, 257, 263, 269, 271, 277,
    281, 283, 293, 307, 311]"

definition sha_k :: "w32 list" where
  "sha_k = map (\<lambda>p. of_nat (root_bits 3 (p * 2 ^ 96) 36 0)) small_primes"

definition sha_init :: "w32 list" where
  "sha_init = map (\<lambda>p. of_nat (root_bits 2 (p * 2 ^ 64) 36 0)) (take 8 small_primes)"

definition ror32 :: "nat \<Rightarrow> w32 \<Rightarrow> w32" where
  "ror32 n x = drop_bit n x OR push_bit (32 - n) x"

definition sha_pad :: "bytes \<Rightarrow> bytes" where
  "sha_pad m =
     m @ [0x80] @ replicate ((119 - length m mod 64) mod 64) 0 @ be_bytes 8 (8 * length m)"

fun byte_chunks :: "nat \<Rightarrow> nat \<Rightarrow> 'a list \<Rightarrow> 'a list list" where
  "byte_chunks k 0 xs = []"
| "byte_chunks k (Suc c) xs = take k xs # byte_chunks k c (drop k xs)"

text \<open>The message schedule, newest word first.\<close>

definition sched_next :: "w32 list \<Rightarrow> w32" where
  "sched_next ws =
     (let a = ws ! 14; b = ws ! 1;
          s0 = ror32 7 a XOR ror32 18 a XOR drop_bit 3 a;
          s1 = ror32 17 b XOR ror32 19 b XOR drop_bit 10 b
      in ws ! 15 + s0 + ws ! 6 + s1)"

definition sha_sched :: "bytes \<Rightarrow> w32 list" where
  "sha_sched blk =
     rev (((\<lambda>ws. sched_next ws # ws) ^^ 48)
       (rev (map (\<lambda>c. of_nat (be_val c)) (byte_chunks 4 16 blk))))"

definition sha_round :: "w32 list \<Rightarrow> w32 \<times> w32 \<Rightarrow> w32 list" where
  "sha_round s kw =
     (let a = s ! 0; b = s ! 1; c = s ! 2; d = s ! 3; e = s ! 4; f = s ! 5; g = s ! 6; h = s ! 7;
          t1 = h + (ror32 6 e XOR ror32 11 e XOR ror32 25 e) + ((e AND f) XOR (NOT e AND g))
                 + fst kw + snd kw;
          t2 = (ror32 2 a XOR ror32 13 a XOR ror32 22 a)
                 + ((a AND b) XOR (a AND c) XOR (b AND c))
      in [t1 + t2, a, b, c, d + t1, e, f, g])"

definition sha_block :: "w32 list \<Rightarrow> bytes \<Rightarrow> w32 list" where
  "sha_block s blk =
     (let t = foldl sha_round s (zip sha_k (sha_sched blk))
      in map (\<lambda>i. s ! i + t ! i) [0..<8])"

definition sha256 :: "bytes \<Rightarrow> bytes" where
  "sha256 m =
     (let p = sha_pad m
      in concat (map (\<lambda>w. be_bytes 4 (unat w))
           (foldl sha_block sha_init (byte_chunks 64 (length p div 64) p))))"

lemma length_sha_init: "length sha_init = 8"
  by (simp add: sha_init_def small_primes_def)

lemma length_sha_block: "length (sha_block s blk) = 8"
  by (simp add: sha_block_def Let_def)

lemma length_foldl_sha_block: "length s = 8 \<Longrightarrow> length (foldl sha_block s bs) = 8"
  by (induction bs arbitrary: s) (auto simp: length_sha_block)

lemma length_sha256 [pybytes]: "length (sha256 m) = 32"
proof -
  have "length (concat (map (\<lambda>w :: w32. be_bytes 4 (unat w)) ws)) = 4 * length ws" for ws
    by (induction ws) (auto simp: length_be_bytes)
  then show ?thesis
    by (simp add: sha256_def Let_def length_foldl_sha_block length_sha_init)
qed

section \<open>HMAC and PBKDF2\<close>

definition hmac_sha256 :: "bytes \<Rightarrow> bytes \<Rightarrow> bytes" where
  "hmac_sha256 key msg =
     (let k0 = (if length key > 64 then sha256 key else key);
          k = k0 @ replicate (64 - length k0) 0
      in sha256 (map (\<lambda>b. b XOR 0x5c) k @ sha256 (map (\<lambda>b. b XOR 0x36) k @ msg)))"

lemma length_hmac_sha256 [pybytes]: "length (hmac_sha256 k m) = 32"
  by (simp add: hmac_sha256_def Let_def length_sha256)

definition xor_bytes :: "bytes \<Rightarrow> bytes \<Rightarrow> bytes" where
  "xor_bytes xs ys = map2 (XOR) xs ys"

fun pbkdf2_loop :: "bytes \<Rightarrow> nat \<Rightarrow> bytes \<Rightarrow> bytes \<Rightarrow> bytes" where
  "pbkdf2_loop pw 0 u acc = acc"
| "pbkdf2_loop pw (Suc c) u acc =
     (let u' = hmac_sha256 pw u in pbkdf2_loop pw c u' (xor_bytes acc u'))"

definition pbkdf2_hmac_sha256 :: "bytes \<Rightarrow> bytes \<Rightarrow> nat \<Rightarrow> bytes" where
  "pbkdf2_hmac_sha256 pw salt iterations =
     (let u = hmac_sha256 pw (salt @ be_bytes 4 1) in pbkdf2_loop pw (iterations - 1) u u)"

lemma length_pbkdf2_loop: "length acc = 32 \<Longrightarrow> length (pbkdf2_loop pw c u acc) = 32"
  by (induction c arbitrary: u acc) (auto simp: Let_def xor_bytes_def length_hmac_sha256)

lemma length_pbkdf2 [pybytes]: "length (pbkdf2_hmac_sha256 pw salt n) = 32"
  by (simp add: pbkdf2_hmac_sha256_def Let_def length_pbkdf2_loop length_hmac_sha256)

section \<open>Hexadecimal text\<close>

definition hex_digit :: "nat \<Rightarrow> nat" where
  "hex_digit v = (if v < 10 then 48 + v else 87 + v)"

definition hex_of :: "bytes \<Rightarrow> ustr" where
  "hex_of bs = concat (map (\<lambda>b. [hex_digit (unat b div 16), hex_digit (unat b mod 16)]) bs)"

lemma length_hex_of [pybytes]: "length (hex_of bs) = 2 * length bs"
  by (induction bs) (auto simp: hex_of_def)

end
