(* ===== verification/Crypto.thy ===== *)
theory Crypto
  imports PyHash
begin

text \<open>
  The third-party package \<open>cryptography\<close> is not part of the repository: it enters the
  model as a record of functions, one per call the sources make.
  \<open>crypto_ok\<close> states the documented behaviour the code relies on (RFC 5869 output
  lengths, ChaCha20 as an XOR stream, the AEAD round trip of RFC 8439, X25519 agreement);
  it is a hypothesis of the theorems that need it, and \<open>toy_crypto\<close> satisfies it. The fields are
  total functions: a malformed packet can make a nonce or a public key too short, on which the package
  raises, which is \<open>None\<close> of \<open>aead_decrypt\<close> and \<open>x25519_exchange\<close>; the other fields are only used at the
  lengths for which the package is defined.
\<close>

record crypto =
  hkdf :: "bytes option \<Rightarrow> bytes \<Rightarrow> bytes \<Rightarrow> nat \<Rightarrow> bytes"   \<comment> \<open>salt, input key, info, length\<close>
  chacha20 :: "bytes \<Rightarrow> bytes \<Rightarrow> bytes \<Rightarrow> bytes"              \<comment> \<open>key, 16-byte nonce, data\<close>
  aead_encrypt :: "bytes \<Rightarrow> bytes \<Rightarrow> bytes \<Rightarrow> bytes option \<Rightarrow> bytes"  \<comment> \<open>key, nonce, plaintext, AAD\<close>
  aead_decrypt :: "bytes \<Rightarrow> bytes \<Rightarrow> bytes \<Rightarrow> bytes option \<Rightarrow> bytes option"  \<comment> \<open>\<open>None\<close>: it raises\<close>
  x25519_public :: "bytes \<Rightarrow> bytes"
  x25519_exchange :: "bytes \<Rightarrow> bytes \<Rightarrow> bytes option"             \<comment> \<open>private, peer public; \<open>None\<close>: it raises\<close>

definition crypto_ok :: "crypto \<Rightarrow> bool" where
  "crypto_ok C \<longleftrightarrow>
     (\<forall>salt ikm info n. n \<le> 8160 \<longrightarrow> length (hkdf C salt ikm info n) = n) \<and>
     (\<forall>k n d. length (chacha20 C k n d) = length d) \<and>
     (\<forall>k n d. length k = 32 \<longrightarrow> length n = 16 \<longrightarrow> chacha20 C k n (chacha20 C k n d) = d) \<and>
     (\<forall>k n p a. length k = 32 \<longrightarrow> length n = 12 \<longrightarrow>
        length (aead_encrypt C k n p a) = length p + 16 \<and>
        aead_decrypt C k n (aead_encrypt C k n p a) a = Some p) \<and>
     (\<forall>k n c p a. aead_decrypt C k n c a = Some p \<longrightarrow> length k = 32 \<longrightarrow> length n = 12 \<longrightarrow>
        c = aead_encrypt C k n p a) \<and>
     (\<forall>p. length (x25519_public C p) = 32) \<and>
     (\<forall>a b. x25519_exchange C a (x25519_public C b) = x25519_exchange C b (x25519_public C a)) \<and>
     (\<forall>a b. x25519_exchange C a (x25519_public C b) \<noteq> None)"

lemma crypto_okD:
  assumes "crypto_ok C"
  shows length_hkdf: "n \<le> 8160 \<Longrightarrow> length (hkdf C salt ikm info n) = n"
    and length_chacha20: "length (chacha20 C k nn d) = length d"
    and chacha20_involution: "length k = 32 \<Longrightarrow> length nn = 16 \<Longrightarrow> chacha20 C k nn (chacha20 C k nn d) = d"
    and length_aead: "length k = 32 \<Longrightarrow> length nn = 12 \<Longrightarrow> length (aead_encrypt C k nn p a) = length p + 16"
    and aead_roundtrip: "length k = 32 \<Longrightarrow> length nn = 12 \<Longrightarrow>
           aead_decrypt C k nn (aead_encrypt C k nn p a) a = Some p"
    and aead_unique: "aead_decrypt C k nn c a = Some p \<Longrightarrow> length k = 32 \<Longrightarrow> length nn = 12 \<Longrightarrow>
           c = aead_encrypt C k nn p a"
    and length_x25519_public: "length (x25519_public C pr) = 32"
    and x25519_commute: "x25519_exchange C x (x25519_public C y) = x25519_exchange C y (x25519_public C x)"
    and x25519_defined: "\<exists>s. x25519_exchange C x (x25519_public C y) = Some s"
  using assms by (auto simp: crypto_ok_def)

lemmas crypto_lengths = length_hkdf length_chacha20 length_aead length_x25519_public

section \<open>An instance that satisfies the hypotheses\<close>

definition toy_tag :: "bytes \<Rightarrow> bytes \<Rightarrow> bytes \<Rightarrow> bytes option \<Rightarrow> bytes" where
  "toy_tag k n p a =
     replicate 16 (foldl (XOR) 0 (k @ n @ p @ (case a of None \<Rightarrow> [] | Some x \<Rightarrow> x)))"

definition toy_crypto :: crypto where
  "toy_crypto =
     \<lparr>hkdf = (\<lambda>salt ikm info n.
        take n (info @ ikm @ (case salt of None \<Rightarrow> [] | Some s \<Rightarrow> s) @ replicate n 0)),
      chacha20 = (\<lambda>k n d. map (\<lambda>b. b XOR foldl (XOR) 0 (k @ n)) d),
      aead_encrypt = (\<lambda>k n p a. p @ toy_tag k n p a),
      aead_decrypt = (\<lambda>k n c a.
        (let p = take (length c - 16) c
         in if 16 \<le> length c \<and> drop (length c - 16) c = toy_tag k n p a then Some p else None)),
      x25519_public = (\<lambda>pr. take 32 (pr @ replicate 32 0)),
      x25519_exchange = (\<lambda>pr pub.
        Some (map2 (XOR) (take 32 (pr @ replicate 32 0)) (take 32 (pub @ replicate 32 0))))\<rparr>"

lemma length_toy_tag: "length (toy_tag k n p a) = 16"
  by (simp add: toy_tag_def)

lemma map2_xor_commute: "map2 (XOR) (xs :: bytes) ys = map2 (XOR) ys xs"
proof (induction xs arbitrary: ys)
  case (Cons x xs)
  then show ?case by (cases ys) (auto simp: xor.commute)
qed simp

lemma toy_crypto_ok: "crypto_ok toy_crypto"
proof -
  have dec: "c = p @ toy_tag k n p a"
    if "16 \<le> length c" "drop (length c - 16) c = toy_tag k n p a" "p = take (length c - 16) c"
    for c p k n a
    using that by (metis append_take_drop_id)
  have pad: "32 - min n 32 = 32 - (n :: nat)" for n by simp
  show ?thesis
    unfolding crypto_ok_def
    by (intro conjI allI impI)
      (auto simp: toy_crypto_def length_toy_tag xor.assoc map2_xor_commute Let_def comp_def pad
        split: option.splits if_splits intro: dec)
qed

text \<open>Under the toy cipher a packet does not open under a key of another check byte.\<close>

lemma foldl_xor: "foldl (XOR) (a :: byte) xs = a XOR foldl (XOR) 0 xs"
proof (induction xs arbitrary: a)
  case (Cons x xs)
  from Cons [of "a XOR x"] Cons [of x] show ?case by (simp add: xor.assoc)
qed simp

lemma toy_encrypt: "aead_encrypt toy_crypto k n p a = p @ toy_tag k n p a"
  by (simp add: toy_crypto_def)

lemma toy_bad_tag: "aead_decrypt toy_crypto k n (xs @ replicate 15 0 @ [1]) a = None"
proof -
  have "(replicate 15 0 @ [1]) ! 0 \<noteq> (replicate 15 0 @ [1 :: byte]) ! 15" by (simp add: nth_append)
  moreover have "toy_tag k n p a ! 0 = toy_tag k n p a ! 15" for p by (simp add: toy_tag_def)
  ultimately have "replicate 15 0 @ [1] \<noteq> toy_tag k n p a" for p by metis
  then show ?thesis by (simp add: toy_crypto_def Let_def)
qed

lemma toy_wrong_key:
  assumes "foldl (XOR) 0 k \<noteq> foldl (XOR) 0 k'"
  shows "aead_decrypt toy_crypto k' n (aead_encrypt toy_crypto k n p a) a = None"
proof -
  have x: "(u :: byte) XOR w = v XOR w \<longleftrightarrow> u = v" for u v w
  proof
    assume "u XOR w = v XOR w"
    then have "u XOR (w XOR w) = v XOR (w XOR w)" by (simp only: xor.assoc [symmetric])
    then show "u = v" by simp
  qed simp
  define r where "r = n @ p @ (case a of None \<Rightarrow> [] | Some x \<Rightarrow> x)"
  have "foldl (XOR) 0 (k @ r) \<noteq> foldl (XOR) 0 (k' @ r)"
    using assms unfolding foldl_append foldl_xor [of "foldl (XOR) 0 k"] foldl_xor [of "foldl (XOR) 0 k'"] x .
  then have "toy_tag k n p a \<noteq> toy_tag k' n p a" by (simp add: toy_tag_def r_def)
  then show ?thesis by (simp add: toy_crypto_def length_toy_tag)
qed

end
