(* ===== verification/ReplaySpec.thy ===== *)
theory ReplaySpec
  imports Prelude
begin

text \<open>
  The contract of an anti-replay check, as an interface: a check takes the filter's state
  and a sequence number and answers whether the packet must be dropped. \<open>replay_guard\<close>
  promises that an accepted number stays blocked; \<open>replay_window\<close> adds what a sliding
  window of \<open>W\<close> numbers owes to honest traffic. The clients of the contract are proved
  here once; the filters of the programs are interpreted in their own theories.
\<close>

text \<open>The packets of a run that the check lets through, in order.\<close>

fun accepted_seqs :: "('s \<Rightarrow> nat \<Rightarrow> bool \<times> 's) \<Rightarrow> 's \<Rightarrow> nat list \<Rightarrow> nat list" where
  "accepted_seqs check s [] = []"
| "accepted_seqs check s (q # qs) =
     (case check s q of (dropped, s') \<Rightarrow>
        if dropped then accepted_seqs check s' qs else q # accepted_seqs check s' qs)"

fun run_filter :: "('s \<Rightarrow> nat \<Rightarrow> bool \<times> 's) \<Rightarrow> 's \<Rightarrow> nat list \<Rightarrow> 's" where
  "run_filter check s [] = s"
| "run_filter check s (q # qs) = run_filter check (snd (check s q)) qs"

locale replay_guard =
  fixes check :: "'s \<Rightarrow> nat \<Rightarrow> bool \<times> 's"
    and blocked :: "'s \<Rightarrow> nat \<Rightarrow> bool"
    and inv :: "'s \<Rightarrow> bool"
  assumes inv_check: "inv s \<Longrightarrow> inv (snd (check s q))"
    and blocked_dropped: "inv s \<Longrightarrow> blocked s q \<Longrightarrow> fst (check s q)"
    and accepted_blocked: "inv s \<Longrightarrow> \<not> fst (check s q) \<Longrightarrow> blocked (snd (check s q)) q"
    and blocked_stays: "inv s \<Longrightarrow> blocked s x \<Longrightarrow> blocked (snd (check s q)) x"
begin

lemma blocked_not_accepted: "inv s \<Longrightarrow> blocked s x \<Longrightarrow> x \<notin> set (accepted_seqs check s qs)"
proof (induction qs arbitrary: s)
  case (Cons q qs)
  obtain d s' where c: "check s q = (d, s')" by (cases "check s q")
  have "inv s'" "blocked s' x"
    using Cons.prems inv_check [of s q] blocked_stays [of s x q] c by auto
  then have rest: "x \<notin> set (accepted_seqs check s' qs)" by (rule Cons.IH)
  have "x \<noteq> q" if "\<not> d"
    using that blocked_dropped [of s q] Cons.prems c by auto
  with rest c show ?case by auto
qed simp

text \<open>No sequence number passes the check twice, whatever the order of arrival.\<close>

lemma accepted_distinct: "inv s \<Longrightarrow> distinct (accepted_seqs check s qs)"
proof (induction qs arbitrary: s)
  case (Cons q qs)
  obtain d s' where c: "check s q = (d, s')" by (cases "check s q")
  have i: "inv s'" using Cons.prems inv_check [of s q] c by simp
  have "q \<notin> set (accepted_seqs check s' qs)" if "\<not> d"
    using that accepted_blocked [of s q] Cons.prems c blocked_not_accepted [OF i] by auto
  with Cons.IH [OF i] c show ?case by auto
qed simp

lemma inv_run: "inv s \<Longrightarrow> inv (run_filter check s qs)"
  by (induction qs arbitrary: s) (auto intro: inv_check)

end

text \<open>
  A sliding window: \<open>top\<close> is the highest number accepted; a number above it is always
  accepted and becomes the top; a number at most \<open>W - 1\<close> behind it is dropped only if it
  was accepted before.
\<close>

locale replay_window = replay_guard +
  fixes top :: "'a \<Rightarrow> nat" and W :: nat
  assumes fresh_accepted: "inv s \<Longrightarrow> top s < q \<Longrightarrow> \<not> fst (check s q)"
    and top_step: "inv s \<Longrightarrow> top (snd (check s q)) = (if fst (check s q) then top s else max (top s) q)"
    and blocked_iff_old: "inv s \<Longrightarrow> blocked s q \<Longrightarrow> q = 0 \<or> q \<le> top s"
    and new_block: "inv s \<Longrightarrow> 0 < x \<Longrightarrow> blocked (snd (check s q)) x \<Longrightarrow>
          blocked s x \<or> x = q \<or> x + W \<le> top (snd (check s q))"
    and free_accepted: "inv s \<Longrightarrow> \<not> blocked s q \<Longrightarrow> \<not> fst (check s q)"
begin

lemma run_top: "inv s \<Longrightarrow> top s \<le> top (run_filter check s qs)"
proof (induction qs arbitrary: s)
  case (Cons q qs)
  have "top s \<le> top (snd (check s q))" using top_step [OF Cons.prems] by simp
  also have "\<dots> \<le> top (run_filter check (snd (check s q)) qs)"
    by (rule Cons.IH) (rule inv_check [OF Cons.prems])
  finally show ?case by simp
qed simp

lemma run_block: "inv s \<Longrightarrow> 0 < x \<Longrightarrow> blocked (run_filter check s qs) x \<Longrightarrow>
  blocked s x \<or> x \<in> set qs \<or> x + W \<le> top (run_filter check s qs)"
proof (induction qs arbitrary: s)
  case (Cons q qs)
  let ?s = "snd (check s q)"
  have i: "inv ?s" by (rule inv_check [OF Cons.prems(1)])
  have "blocked ?s x \<or> x \<in> set qs \<or> x + W \<le> top (run_filter check ?s qs)"
    using Cons.prems by (intro Cons.IH i) auto
  then show ?case
    using new_block [OF Cons.prems(1,2), of q] run_top [OF i, of qs] by fastforce
qed simp

text \<open>Out-of-order delivery inside the window loses nothing.\<close>

lemma window_complete:
  "inv s \<Longrightarrow> 0 < x \<Longrightarrow> \<not> blocked s x \<Longrightarrow> x \<notin> set qs \<Longrightarrow> top (run_filter check s qs) < x + W \<Longrightarrow>
   \<not> fst (check (run_filter check s qs) x)"
  using run_block [of s x qs] by (intro free_accepted inv_run) auto

end

end
