(* ===== verification/AntiReplay.thy ===== *)
theory AntiReplay
  imports ReplaySpec
begin

text \<open>
  \<open>AntiReplayFilter\<close> of aegs_server.py: a bit window over the last \<open>window_size\<close> sequence
  numbers. Bit \<open>d mod 8\<close> of byte \<open>d div 8\<close> stands for the number \<open>max_seq - d\<close>.
  The lemmas give the exact decision of \<open>check_and_update\<close>, the exact effect of its
  multi-byte shift on every bit, the invariant under which no index is out of range, and
  what the shift does to a run of packets that arrive in order.
\<close>

section \<open>The filter\<close>

record replay_filter =
  window_size :: nat
  max_seq :: nat
  window :: bytes

definition new_filter :: "nat \<Rightarrow> replay_filter" where
  "new_filter ws = \<lparr>window_size = ws, max_seq = 0, window = replicate (ws div 8) 0\<rparr>"

text \<open>The loop \<open>for i in range(len(window)-1, -1, -1)\<close>; the argument counts the bytes left.\<close>

fun shift_loop :: "nat \<Rightarrow> nat \<Rightarrow> byte \<Rightarrow> bytes \<Rightarrow> bytes" where
  "shift_loop b 0 carry w = w"
| "shift_loop b (Suc i) carry w =
     shift_loop b i (drop_bit (8 - b) (w ! i)) (w[i := push_bit b (w ! i) OR carry])"

definition shift_window :: "replay_filter \<Rightarrow> nat \<Rightarrow> bytes" where
  "shift_window f diff =
     (if diff \<ge> window_size f then replicate (window_size f div 8) 0
      else
        (let bytes_shift = diff div 8;
             bits_shift = diff mod 8;
             w = (if bytes_shift > 0
                  then replicate bytes_shift 0 @ take (length (window f) - bytes_shift) (window f)
                  else window f)
         in if bits_shift > 0 then shift_loop bits_shift (length w) 0 w else w))"

definition check_and_update :: "replay_filter \<Rightarrow> nat \<Rightarrow> (pyexn + bool) \<times> replay_filter" where
  "check_and_update f seq =
     (if seq = 0 then (Inr True, f)
      else if seq > max_seq f then
        (let w = shift_window f (seq - max_seq f);
             f1 = f\<lparr>max_seq := seq, window := w\<rparr>
         in case py_get w 0 of
              Inl e \<Rightarrow> (Inl e, f1)
            | Inr v \<Rightarrow> (Inr False, f1\<lparr>window := w[0 := v OR push_bit 0 1]\<rparr>))
      else
        (let diff = max_seq f - seq in
         if diff \<ge> window_size f then (Inr True, f)
         else
           (let byte_idx = diff div 8; bit_idx = diff mod 8 in
            case py_get (window f) byte_idx of
              Inl e \<Rightarrow> (Inl e, f)
            | Inr v \<Rightarrow>
                if v AND push_bit bit_idx 1 \<noteq> 0 then (Inr True, f)
                else (Inr False, f\<lparr>window := (window f)[byte_idx := v OR push_bit bit_idx 1]\<rparr>))))"

section \<open>Well-formed filters and their bits\<close>

definition filter_wf :: "replay_filter \<Rightarrow> bool" where
  "filter_wf f \<longleftrightarrow>
     0 < window_size f \<and> 8 dvd window_size f \<and> length (window f) = window_size f div 8"

definition marked :: "replay_filter \<Rightarrow> nat \<Rightarrow> bool" where
  "marked f d \<longleftrightarrow> d < window_size f \<and> bit (window f ! (d div 8)) (d mod 8)"

lemma new_filter_wf: "0 < ws \<Longrightarrow> 8 dvd ws \<Longrightarrow> filter_wf (new_filter ws)"
  by (simp add: filter_wf_def new_filter_def)

lemma marked_new: "8 dvd ws \<Longrightarrow> \<not> marked (new_filter ws) d"
  by (auto simp: marked_def new_filter_def elim!: dvdE)

lemma bit_push_bit_1: "n < 8 \<Longrightarrow> bit (push_bit n (1 :: byte)) m \<longleftrightarrow> m = n"
  by (auto simp: bit_push_bit_iff bit_1_iff possible_bit_def simp del: push_bit_of_1)

lemma and_push_bit_1: "n < 8 \<Longrightarrow> (v AND push_bit n 1 \<noteq> 0) \<longleftrightarrow> bit (v :: byte) n"
proof -
  assume n: "n < 8"
  have "v AND push_bit n 1 = 0 \<longleftrightarrow> (\<forall>m. \<not> bit (v AND push_bit n 1) m)"
    by (auto intro: bit_eqI)
  with n show ?thesis by (simp add: bit_and_iff bit_push_bit_1 del: push_bit_of_1)
qed

lemma bit_or_push_bit_1: "n < 8 \<Longrightarrow> bit ((v :: byte) OR push_bit n 1) m \<longleftrightarrow> bit v m \<or> m = n"
  by (simp add: bit_or_iff bit_push_bit_1 del: push_bit_of_1)

lemma div_mod_8_inj: "(d :: nat) div 8 = e div 8 \<Longrightarrow> d mod 8 = e mod 8 \<Longrightarrow> d = e"
  by (metis div_mult_mod_eq)

lemma wf_index: "filter_wf f \<Longrightarrow> d < window_size f \<Longrightarrow> d div 8 < length (window f)"
  by (auto simp: filter_wf_def elim!: dvdE)

section \<open>The shift\<close>

lemma length_shift_loop [simp]: "length (shift_loop b n c w) = length w"
  by (induction n arbitrary: c w) auto

lemma shift_loop_nth:
  "n \<le> length w \<Longrightarrow> j < length w \<Longrightarrow>
   shift_loop b n c w ! j =
     (if j < n then push_bit b (w ! j) OR (if Suc j < n then drop_bit (8 - b) (w ! Suc j) else c)
      else w ! j)"
proof (induction n arbitrary: c w)
  case (Suc n)
  have "shift_loop b (Suc n) c w ! j =
     (if j < n then push_bit b (w ! j) OR (if Suc j < n then drop_bit (8 - b) (w ! Suc j)
        else drop_bit (8 - b) (w ! n)) else w[n := push_bit b (w ! n) OR c] ! j)"
    using Suc.prems by (simp add: Suc.IH)
  with Suc.prems show ?case
    by (cases "Suc j < n"; cases "Suc j = n"; cases "j = n") (simp_all del: shift_loop.simps)
qed simp

text \<open>
  The carry runs from the higher byte to the lower one, so a bit that crosses a byte
  boundary is read sixteen places too high.
\<close>

lemma shift_loop_bit:
  assumes "0 < b" "b < 8" "d div 8 < length w"
  shows "bit (shift_loop b (length w) 0 w ! (d div 8)) (d mod 8) \<longleftrightarrow>
     (if b \<le> d mod 8 then bit (w ! (d div 8)) (d mod 8 - b)
      else Suc (d div 8) < length w \<and> bit (w ! Suc (d div 8)) (d mod 8 + 8 - b))"
  using assms
  by (auto simp: shift_loop_nth bit_or_iff bit_push_bit_iff bit_drop_bit_eq add.commute
      dest: bit_imp_le_length)

lemma length_shift_window:
  "filter_wf f \<Longrightarrow> length (shift_window f diff) = window_size f div 8"
  by (auto simp: shift_window_def filter_wf_def Let_def elim!: dvdE)

text \<open>The bit of number \<open>max_seq' - d\<close> after advancing by \<open>diff\<close>, in terms of the old bits.\<close>

definition shift_source :: "nat \<Rightarrow> nat \<Rightarrow> nat \<Rightarrow> nat option" where
  "shift_source ws diff d =
     (if diff mod 8 \<le> d mod 8 then (if diff \<le> d then Some (d - diff) else None)
      else if diff \<le> d + 16 \<and> d + 8 < ws + d mod 8 then Some (d + 16 - diff) else None)"

lemma byte_shift_nth:
  "j < length w \<Longrightarrow> (replicate bs 0 @ take (length w - bs) (w :: bytes)) ! j =
     (if j < bs then 0 else w ! (j - bs))"
  by (auto simp: nth_append)

lemma shift_window_bit:
  assumes wf: "filter_wf f" and d: "d < window_size f" and diff: "0 < diff" "diff < window_size f"
  shows "bit (shift_window f diff ! (d div 8)) (d mod 8) \<longleftrightarrow>
     (case shift_source (window_size f) diff d of None \<Rightarrow> False | Some s \<Rightarrow> marked f s)"
proof -
  define n where "n = length (window f)"
  define bs where "bs = diff div 8"
  define b where "b = diff mod 8"
  define w where "w = replicate bs 0 @ take (n - bs) (window f)"
  have ws: "window_size f = 8 * n" using wf by (auto simp: filter_wf_def n_def)
  have diffe: "diff = 8 * bs + b" and b8: "b < 8" by (simp_all add: bs_def b_def)
  have bsn: "bs < n" using diff ws by (simp add: bs_def)
  have lenw: "length w = n" using bsn by (simp add: w_def n_def)
  have wnth: "w ! j = (if j < bs then 0 else window f ! (j - bs))" if "j < n" for j
    using that byte_shift_nth [of j "window f" bs] by (simp add: w_def n_def)
  have dn: "d div 8 < n" using d ws by simp
  define q where "q = d div 8"
  define t where "t = d mod 8"
  have de: "d = 8 * q + t" and t8: "t < 8" by (simp_all add: q_def t_def)
  have sw: "shift_window f diff = (if b > 0 then shift_loop b n 0 w else w)"
    using diff lenw by (auto simp: shift_window_def Let_def bs_def b_def w_def n_def)
  have mk: "marked f (8 * j + u) \<longleftrightarrow> j < n \<and> bit (window f ! j) u" if "u < 8" for j u
    using that ws by (auto simp: marked_def)
  show ?thesis
  proof (cases "b \<le> t")
    case True
    have "bit (shift_window f diff ! q) t \<longleftrightarrow> bit (w ! q) (t - b)"
      using True b8 lenw dn shift_loop_bit [of b d w] by (auto simp: sw q_def t_def)
    also have "\<dots> \<longleftrightarrow> bs \<le> q \<and> marked f (8 * (q - bs) + (t - b))"
      using dn bsn t8 by (auto simp: wnth mk q_def)
    also have "\<dots> \<longleftrightarrow> (case shift_source (window_size f) diff d of None \<Rightarrow> False | Some s \<Rightarrow> marked f s)"
    proof -
      have "bs \<le> q \<longleftrightarrow> diff \<le> d" using True b8 t8 by (auto simp: diffe de)
      moreover have "8 * (q - bs) + (t - b) = d - diff" if "bs \<le> q"
        using that True by (simp add: diffe de)
      ultimately show ?thesis
        using True by (auto simp: shift_source_def b_def t_def)
    qed
    finally show ?thesis by (simp add: q_def t_def)
  next
    case False
    then have b0: "0 < b" by simp
    have "bit (shift_window f diff ! q) t \<longleftrightarrow> Suc q < n \<and> bit (w ! Suc q) (t + 8 - b)"
      using False b0 b8 lenw dn shift_loop_bit [of b d w] by (auto simp: sw q_def t_def)
    also have "\<dots> \<longleftrightarrow> Suc q < n \<and> bs \<le> Suc q \<and> marked f (8 * (Suc q - bs) + (t + 8 - b))"
      using False t8 by (cases "bs \<le> Suc q") (auto simp: wnth mk)
    also have "\<dots> \<longleftrightarrow> (case shift_source (window_size f) diff d of None \<Rightarrow> False | Some s \<Rightarrow> marked f s)"
    proof -
      have "bs \<le> Suc q \<longleftrightarrow> diff \<le> d + 16" using False b8 t8 by (auto simp: diffe de)
      moreover have "8 * (Suc q - bs) + (t + 8 - b) = d + 16 - diff" if "bs \<le> Suc q"
        using that False b8 by (simp add: diffe de)
      moreover have "Suc q < n \<longleftrightarrow> d + 8 < window_size f + d mod 8"
        using ws t8 by (auto simp: de)
      ultimately show ?thesis
        using False by (auto simp: shift_source_def b_def t_def)
    qed
    finally show ?thesis by (simp add: q_def t_def)
  qed
qed

section \<open>The decision and the new state\<close>

lemma py_get_wf: "filter_wf f \<Longrightarrow> d < window_size f \<Longrightarrow>
  py_get (window f) (d div 8) = Inr (window f ! (d div 8))"
  by (simp add: py_get_def wf_index)

lemma shift_window_nonempty: "filter_wf f \<Longrightarrow> 0 < length (shift_window f diff)"
  by (simp add: length_shift_window) (auto simp: filter_wf_def elim!: dvdE)

text \<open>The filter after a number above the top has been let through.\<close>

definition advance :: "replay_filter \<Rightarrow> nat \<Rightarrow> replay_filter" where
  "advance f seq =
     (let w = shift_window f (seq - max_seq f)
      in f\<lparr>max_seq := seq, window := w[0 := w ! 0 OR push_bit 0 1]\<rparr>)"

text \<open>The filter after a number inside the window has been let through.\<close>

definition mark :: "replay_filter \<Rightarrow> nat \<Rightarrow> replay_filter" where
  "mark f d = f\<lparr>window := (window f)[d div 8 := window f ! (d div 8) OR push_bit (d mod 8) 1]\<rparr>"

lemma check_and_update_wf:
  assumes "filter_wf f"
  shows "check_and_update f seq =
    (if seq = 0 then (Inr True, f)
     else if max_seq f < seq then (Inr False, advance f seq)
     else if window_size f \<le> max_seq f - seq \<or> marked f (max_seq f - seq) then (Inr True, f)
     else (Inr False, mark f (max_seq f - seq)))"
  using assms shift_window_nonempty [OF assms, of "seq - max_seq f"]
    py_get_wf [OF assms, of "max_seq f - seq"] and_push_bit_1
  by (auto simp: check_and_update_def Let_def advance_def mark_def marked_def py_get_def
      simp del: push_bit_of_1)

lemma advance_wf: "filter_wf f \<Longrightarrow> filter_wf (advance f seq)"
  by (simp add: filter_wf_def advance_def Let_def) (simp add: filter_wf_def length_shift_window)

lemma mark_wf: "filter_wf f \<Longrightarrow> filter_wf (mark f d)"
  by (simp add: filter_wf_def mark_def)

lemma check_and_update_keeps_wf: "filter_wf f \<Longrightarrow> filter_wf (snd (check_and_update f seq))"
  by (simp add: check_and_update_wf advance_wf mark_wf)

lemma window_size_advance [simp]: "window_size (advance f seq) = window_size f"
  by (simp add: advance_def Let_def)

lemma max_seq_advance [simp]: "max_seq (advance f seq) = seq"
  by (simp add: advance_def Let_def)

lemma window_size_mark [simp]: "window_size (mark f d) = window_size f"
  by (simp add: mark_def)

lemma max_seq_mark [simp]: "max_seq (mark f d) = max_seq f"
  by (simp add: mark_def)

lemma window_size_check [simp]:
  "filter_wf f \<Longrightarrow> window_size (snd (check_and_update f seq)) = window_size f"
  by (simp add: check_and_update_wf)

lemma marked_mark:
  assumes "filter_wf f" "d < window_size f"
  shows "marked (mark f d) e \<longleftrightarrow> marked f e \<or> e = d"
proof (cases "e div 8 = d div 8")
  case True
  then have "bit (window (mark f d) ! (e div 8)) (e mod 8) \<longleftrightarrow>
      bit (window f ! (e div 8)) (e mod 8) \<or> e mod 8 = d mod 8"
    using wf_index [OF assms] by (simp add: mark_def bit_or_push_bit_1 del: push_bit_of_1)
  then show ?thesis
    using True assms by (auto simp: marked_def dest: div_mod_8_inj)
qed (auto simp: marked_def mark_def)

lemma marked_advance:
  assumes "filter_wf f" "max_seq f < seq"
  shows "marked (advance f seq) d \<longleftrightarrow>
    d < window_size f \<and>
    (d = 0 \<or> seq - max_seq f < window_size f \<and>
       (case shift_source (window_size f) (seq - max_seq f) d of None \<Rightarrow> False | Some s \<Rightarrow> marked f s))"
proof -
  let ?diff = "seq - max_seq f" and ?w = "shift_window f (seq - max_seq f)"
  have ne: "0 < length ?w" by (rule shift_window_nonempty [OF assms(1)])
  have "bit (window (advance f seq) ! (d div 8)) (d mod 8) \<longleftrightarrow>
      d = 0 \<or> bit (?w ! (d div 8)) (d mod 8)"
    using ne div_mod_8_inj [of d 0]
    by (cases "d div 8 = 0") (auto simp: advance_def Let_def bit_or_iff bit_1_iff)
  moreover have "bit (?w ! (d div 8)) (d mod 8) \<longleftrightarrow>
      (?diff < window_size f \<and>
       (case shift_source (window_size f) ?diff d of None \<Rightarrow> False | Some s \<Rightarrow> marked f s))"
    if "d < window_size f"
  proof (cases "?diff < window_size f")
    case True
    with assms that show ?thesis by (simp add: shift_window_bit)
  next
    case False
    then show ?thesis using that assms(1)
      by (auto simp: shift_window_def filter_wf_def elim!: dvdE)
  qed
  ultimately show ?thesis by (auto simp: marked_def [of "advance f seq"])
qed

text \<open>A run of the filter: the states, whatever the decisions.\<close>

definition filter_run :: "replay_filter \<Rightarrow> nat list \<Rightarrow> replay_filter" where
  "filter_run f qs = foldl (\<lambda>f q. snd (check_and_update f q)) f qs"

lemma filter_run_wf: "filter_wf f \<Longrightarrow> filter_wf (filter_run f qs)"
  unfolding filter_run_def
  by (induction qs arbitrary: f) (auto intro: check_and_update_keeps_wf)

lemma filter_run_snoc: "filter_run f (qs @ [q]) = snd (check_and_update (filter_run f qs) q)"
  by (simp add: filter_run_def)

section \<open>A run of packets in order\<close>

text \<open>
  Each packet of an in-order run advances the window by one. Only the eight bits of byte 0
  survive, because the bit that leaves byte 0 is dropped instead of entering byte 1.
\<close>

lemma in_order_run:
  assumes "8 dvd ws" "8 < ws"
  shows "max_seq (filter_run (new_filter ws) [1..<Suc n]) = n \<and>
    window_size (filter_run (new_filter ws) [1..<Suc n]) = ws \<and>
    (\<forall>d. marked (filter_run (new_filter ws) [1..<Suc n]) d \<longleftrightarrow> d < min n 8)"
proof (induction n)
  case 0
  then show ?case using assms by (simp add: filter_run_def marked_new) (simp add: new_filter_def)
next
  case (Suc n)
  let ?f = "filter_run (new_filter ws) [1..<Suc n]"
  have wf: "filter_wf ?f" using assms by (intro filter_run_wf new_filter_wf) auto
  have step: "filter_run (new_filter ws) [1..<Suc (Suc n)] = advance ?f (Suc n)"
    using Suc wf filter_run_snoc [of "new_filter ws" "[1..<Suc n]" "Suc n"]
    by (simp add: check_and_update_wf)
  have "marked (advance ?f (Suc n)) d \<longleftrightarrow> d < min (Suc n) 8" for d
  proof -
    have "marked (advance ?f (Suc n)) d \<longleftrightarrow> d < ws \<and>
        (d = 0 \<or> (case shift_source ws 1 d of None \<Rightarrow> False | Some s \<Rightarrow> s < min n 8))"
      using marked_advance [OF wf, of "Suc n" d] Suc assms(2) by (simp split: option.splits)
    also have "\<dots> \<longleftrightarrow> d < min (Suc n) 8"
      using assms(2) by (cases "d < 8"; cases "d = 8") (auto simp: shift_source_def)
    finally show ?thesis .
  qed
  with step Suc show ?case by simp
qed

section \<open>Properties\<close>

text \<open>On a well-formed filter \<open>check_and_update\<close> never raises, keeps the filter well-formed,
  drops a number exactly when it is zero, or lies a whole window or more behind the top, or its
  bit is set, and otherwise raises the top to at least that number.\<close>
theorem filter_decision:
  assumes "filter_wf f" "check_and_update f seq = (r, f')"
  shows "r = Inr (seq = 0 \<or>
            seq \<le> max_seq f \<and> (window_size f \<le> max_seq f - seq \<or> marked f (max_seq f - seq))) \<and>
    filter_wf f' \<and> max_seq f' = (if r = Inr False then max (max_seq f) seq else max_seq f) \<and>
    (r = Inr True \<longrightarrow> f' = f)"
proof (intro conjI)
  show "filter_wf f'" using check_and_update_keeps_wf [OF assms(1), of seq] assms(2) by simp
qed (use assms in \<open>auto simp: check_and_update_wf advance_def mark_def Let_def split: if_splits\<close>)

theorem filter_decision_witness:
  "max_seq (snd (check_and_update (new_filter 2048) 7)) = 7"
proof -
  have wf: "filter_wf (new_filter 2048)" by (rule new_filter_wf) simp_all
  obtain r f' where c: "check_and_update (new_filter 2048) 7 = (r, f')" by fastforce
  from filter_decision [OF wf c] have "max_seq f' = 7" by (simp add: new_filter_def)
  with c show ?thesis by simp
qed

lemma accepted_then_dropped:
  assumes "filter_wf f" "check_and_update f seq = (Inr False, f')"
  shows "check_and_update f' seq = (Inr True, f')"
proof (cases "max_seq f < seq")
  case True
  then have f': "f' = advance f seq" and "0 < seq"
    using assms by (auto simp: check_and_update_wf split: if_splits)
  then have "filter_wf f'" "max_seq f' = seq"
    using assms(1) by (simp_all add: advance_wf)
  moreover have "marked f' 0"
    using marked_advance [OF assms(1) True, of 0] f' assms(1) by (auto simp: filter_wf_def)
  ultimately show ?thesis by (simp add: check_and_update_wf)
next
  case False
  let ?d = "max_seq f - seq"
  have f': "f' = mark f ?d" and d: "?d < window_size f" "0 < seq"
    using False assms by (auto simp: check_and_update_wf split: if_splits)
  have "marked f' ?d" using marked_mark [OF assms(1) d(1)] f' by simp
  moreover have "filter_wf f'" "max_seq f' = max_seq f"
    using f' assms(1) by (simp_all add: mark_wf)
  ultimately show ?thesis using False d by (simp add: check_and_update_wf)
qed

text \<open>A number that was let through is dropped when the same packet arrives again at once.\<close>
theorem duplicate_dropped:
  assumes "filter_wf f" "check_and_update f seq = (Inr False, f')"
  shows "check_and_update f' seq = (Inr True, f')"
  by (rule accepted_then_dropped [OF assms])

theorem duplicate_dropped_witness:
  "fst (check_and_update (snd (check_and_update (new_filter 2048) 7)) 7) = Inr True"
proof -
  have wf: "filter_wf (new_filter 2048)" by (rule new_filter_wf) simp_all
  then have c: "check_and_update (new_filter 2048) 7 = (Inr False, advance (new_filter 2048) 7)"
    by (simp add: check_and_update_wf) (simp add: new_filter_def)
  show ?thesis using duplicate_dropped [OF wf c] c by simp
qed

text \<open>C27: After packets \<open>1, ..., n\<close> have arrived in order, every number \<open>s\<close> at least eight behind
  the top is accepted a second time although it lies inside the window: the carry of the shift
  loop runs towards the wrong end, so the bit that leaves byte 0 is lost.\<close>
theorem replay_accepted_again:
  assumes "8 dvd ws" "8 < ws" "0 < s" "s + 8 \<le> n" "n - s < ws"
  shows "fst (check_and_update (filter_run (new_filter ws) [1..<Suc n]) s) = Inr False"
proof -
  let ?f = "filter_run (new_filter ws) [1..<Suc n]"
  have "filter_wf ?f" using assms(1,2) by (intro filter_run_wf new_filter_wf) auto
  moreover have "max_seq ?f = n" "window_size ?f = ws" "\<not> marked ?f (n - s)"
    using in_order_run [OF assms(1,2), of n] assms(3,4) by auto
  ultimately show ?thesis using assms(3-5) by (simp add: check_and_update_wf)
qed

theorem replay_accepted_again_witness:
  "fst (check_and_update (filter_run (new_filter 2048) [1..<Suc 20]) 5) = Inr False"
  by (rule replay_accepted_again) simp_all

text \<open>A jump of the top by a multiple of eight moves every bit of the window by exactly that
  distance: the window is then the one of the sliding-window algorithm.\<close>
theorem aligned_jump_exact:
  assumes "filter_wf f" "0 < k" "8 * k < window_size f"
    and "check_and_update f (max_seq f + 8 * k) = (r, f')"
  shows "r = Inr False \<and> max_seq f' = max_seq f + 8 * k \<and>
    (\<forall>d. marked f' d = (d = 0 \<or> 8 * k \<le> d \<and> d < window_size f \<and> marked f (d - 8 * k)))"
proof -
  have f': "f' = advance f (max_seq f + 8 * k)" "r = Inr False"
    using assms by (auto simp: check_and_update_wf)
  have "marked f' d = (d = 0 \<or> 8 * k \<le> d \<and> d < window_size f \<and> marked f (d - 8 * k))" for d
    using marked_advance [OF assms(1), of "max_seq f + 8 * k" d] assms(2,3) f'
    by (auto simp: shift_source_def)
  with f' show ?thesis by (simp add: advance_def Let_def)
qed

theorem aligned_jump_exact_witness:
  "fst (check_and_update (new_filter 2048) (max_seq (new_filter 2048) + 8 * 3)) = Inr False"
proof -
  have wf: "filter_wf (new_filter 2048)" by (rule new_filter_wf) simp_all
  obtain r f' where c: "check_and_update (new_filter 2048) (max_seq (new_filter 2048) + 8 * 3) = (r, f')"
    by fastforce
  have "8 * 3 < window_size (new_filter 2048)" by (simp add: new_filter_def)
  from aligned_jump_exact [OF wf _ this c] c show ?thesis by simp
qed

text \<open>A fresh packet can be dropped as a replay: if the number fifteen behind the top was
  accepted and packet \<open>max_seq + 2\<close> overtakes \<open>max_seq + 1\<close>, the late one is rejected although no
  packet of that number was ever seen.\<close>
theorem reordered_fresh_dropped:
  assumes "filter_wf f" "marked f 15"
  shows "fst (check_and_update (snd (check_and_update f (max_seq f + 2))) (max_seq f + 1)) = Inr True"
proof -
  let ?g = "advance f (max_seq f + 2)"
  have ws: "16 \<le> window_size f" using assms(2) by (simp add: marked_def)
  have "marked ?g 1"
    using marked_advance [OF assms(1), of "max_seq f + 2" 1] ws assms(2) by (simp add: shift_source_def)
  moreover have "filter_wf ?g" "max_seq ?g = max_seq f + 2"
    using assms(1) by (simp_all add: advance_wf)
  moreover have "snd (check_and_update f (max_seq f + 2)) = ?g"
    using assms(1) by (simp add: check_and_update_wf)
  ultimately show ?thesis by (simp add: check_and_update_wf)
qed

theorem reordered_fresh_dropped_witness:
  "fst (check_and_update (snd (check_and_update (filter_run (new_filter 32) [100, 85]) 102)) 101) = Inr True"
proof -
  let ?f = "filter_run (new_filter 32) [100, 85]"
  have "filter_wf ?f" by (intro filter_run_wf new_filter_wf) simp_all
  moreover have "marked ?f 15" by code_simp
  moreover have "max_seq ?f = 100" by code_simp
  ultimately show ?thesis using reordered_fresh_dropped [of ?f] by simp
qed

end
