(* ===== verification/Server.thy ===== *)
theory Server
  imports Crypto PyText AntiReplay
begin

text \<open>
  \<open>AegsServer\<close> of aegs_server.py: the key derivations of \<open>__init__\<close>, the numbered
  stages of \<open>process_packet\<close> in their order with their early returns, the inner frame
  commands of \<open>handle_client_payload\<close>, \<open>send_aegs_frame\<close>, the proxy thread and the
  receive loop. A step takes the state and returns the new state and the effects in order;
  a step whose Python text can raise also returns the exception, with the state as the
  raise leaves it.
\<close>

section \<open>Helpers and constants\<close>

definition pbkdf2_sha256 :: "bytes \<Rightarrow> bytes \<Rightarrow> bytes" where
  "pbkdf2_sha256 token salt_hex = pbkdf2_hmac_sha256 token salt_hex 5000"

definition hkdf_extract_and_expand :: "crypto \<Rightarrow> bytes \<Rightarrow> bytes \<Rightarrow> bytes \<Rightarrow> nat \<Rightarrow> bytes" where
  "hkdf_extract_and_expand C salt ikm info n = hkdf C (Some salt) ikm info n"

definition hkdf_expand :: "crypto \<Rightarrow> bytes \<Rightarrow> bytes \<Rightarrow> nat \<Rightarrow> bytes" where
  "hkdf_expand C prk info n = hkdf C None prk info n"

definition mask_unmask_header :: "crypto \<Rightarrow> bytes \<Rightarrow> bytes \<Rightarrow> bytes \<Rightarrow> bytes" where
  "mask_unmask_header C header key iv = chacha20 C key (iv @ [0, 0, 0, 0]) header"

definition CMD_CONNECT :: nat where "CMD_CONNECT = 1"
definition CMD_DATA :: nat where "CMD_DATA = 2"
definition CMD_CLOSE :: nat where "CMD_CLOSE = 3"
definition CMD_CHAFF :: nat where "CMD_CHAFF = 4"

lemmas cmd_defs = CMD_CONNECT_def CMD_DATA_def CMD_CLOSE_def CMD_CHAFF_def

text \<open>The magic \<open>b"AG2\x01"\<close> that ends a plain header.\<close>

definition ver_magic :: bytes where
  "ver_magic = bstr ''AG2'' @ [1]"

lemma length_ver_magic [pybytes]: "length ver_magic = 4"
  by (simp add: ver_magic_def bstr_def)

definition master_salt :: bytes where "master_salt = bstr ''aegs-v4-master-salt''"

section \<open>State, environment, effects\<close>

text \<open>
  What the outside decides during one step: the random draws, the clock, whether the UDP
  send and the writes to a stream's socket succeed.
\<close>

record env =
  ent :: entropy
  now_us :: nat
  clock_str :: ustr
  send_ok :: bool
  stream_ok :: "nat \<Rightarrow> bool"

record client_info =
  ci_addr :: addr
  ci_connected_at :: ustr
  ci_last_seen :: nat
  ci_streams :: nat

record server =
  sv_base_port :: nat
  sv_port_count :: nat
  sv_master_key :: bytes
  sv_mask_key :: bytes
  sv_raw_kid :: bytes
  sv_client_addr :: "addr option"
  sv_send_key :: "bytes option"
  sv_recv_key :: "bytes option"
  sv_replay :: replay_filter
  sv_tx_seq :: nat
  sv_streams :: "nat \<rightharpoonup> nat"
  sv_rkey :: bytes
  sv_seen_nonces :: "bytes set"
  sv_packets_rx :: nat
  sv_packets_tx :: nat
  sv_bytes_rx :: nat
  sv_bytes_tx :: nat
  sv_active :: "ustr \<rightharpoonup> client_info"

datatype hs_mode = NativeHandshake | RawHandshake

datatype srv_log =
    LogStun addr | LogAuthFail ustr | LogConnected addr hs_mode | LogHandshakeErr
  | LogResumeReplay ustr | LogResumeOk ustr | LogReplayDrop nat ustr | LogTamperDrop ustr
  | LogChaff ustr nat | LogForward nat ustr ustr nat

datatype srv_out =
    SendTo bytes addr              \<comment> \<open>a datagram on an UDP socket\<close>
  | StartProxy nat ustr nat        \<comment> \<open>a \<open>proxy_worker\<close> thread: stream, host, port\<close>
  | StreamSend nat bytes           \<comment> \<open>\<open>sendall\<close> on a remote TCP socket\<close>
  | StreamShut nat                 \<comment> \<open>\<open>close\<close> of a remote TCP socket\<close>
  | Log srv_log

type_synonym srv_res = "server \<times> srv_out list \<times> pyexn option"

text \<open>\<open>AegsServer.__init__\<close>; the token's \<open>encode\<close> raises on a lone surrogate.\<close>

definition server_init :: "crypto \<Rightarrow> nat \<Rightarrow> ustr \<Rightarrow> nat \<Rightarrow> pyexn + server" where
  "server_init C bp token pc =
     (case utf8_encode token of
        None \<Rightarrow> Inl UnicodeError
      | Some tok \<Rightarrow>
          (let mk = pbkdf2_sha256 tok master_salt in
           Inr \<lparr>sv_base_port = bp, sv_port_count = pc,
                sv_master_key = mk,
                sv_mask_key = hkdf_expand C mk (bstr ''AEGS-V4-MASK-KEY-2026'') 32,
                sv_raw_kid = take 8 (sha256 tok),
                sv_client_addr = None, sv_send_key = None, sv_recv_key = None,
                sv_replay = new_filter 2048, sv_tx_seq = 0, sv_streams = Map.empty,
                sv_rkey = hkdf_extract_and_expand C mk (bstr ''aegis-v2-salt'')
                            (bstr ''aegs-v4-resumption-key'') 32,
                sv_seen_nonces = {}, sv_packets_rx = 0, sv_packets_tx = 0,
                sv_bytes_rx = 0, sv_bytes_tx = 0, sv_active = Map.empty\<rparr>))"

text \<open>\<open>f"{addr[0]}:{addr[1]}"\<close>, the key of the monitor's table.\<close>

definition client_key :: "addr \<Rightarrow> ustr" where
  "client_key a = fst a @ ustr '':'' @ str_nat (snd a)"

definition print_client_connected_banner :: "env \<Rightarrow> server \<Rightarrow> addr \<Rightarrow> hs_mode \<Rightarrow> server \<times> srv_out list" where
  "print_client_connected_banner E st a mode =
     (st\<lparr>sv_active := (sv_active st)(client_key a \<mapsto>
           \<lparr>ci_addr = a, ci_connected_at = clock_str E, ci_last_seen = now_us E, ci_streams = 0\<rparr>)\<rparr>,
      [Log (LogConnected a mode)])"

section \<open>The wire header\<close>

definition plain_header :: "bytes \<Rightarrow> nat \<Rightarrow> byte \<Rightarrow> bytes" where
  "plain_header kid junk_len flag = kid @ be_bytes 2 junk_len @ [flag, 0] @ ver_magic"

text \<open>\<open>hdr_iv + mask(hdr_plain) + junk\<close>, the bytes bound as associated data.\<close>

definition outer_header :: "crypto \<Rightarrow> bytes \<Rightarrow> bytes \<Rightarrow> bytes \<Rightarrow> byte \<Rightarrow> bytes \<Rightarrow> bytes" where
  "outer_header C mask_key kid iv flag junk =
     iv @ mask_unmask_header C (plain_header kid (length junk) flag) mask_key iv @ junk"

section \<open>Stage 2: STUN decoy\<close>

definition stun_decoy :: "entropy \<Rightarrow> bytes" where
  "stun_decoy e = [1, 1, 0, 0] @ [0x21, 0x12, 0xA4, 0x42] @ token_bytes e 0 12"

section \<open>Stage 3: the masked handshake\<close>

text \<open>The answer to an authenticated initiation: server key, tag and session token, sealed.\<close>

definition handshake_response :: "crypto \<Rightarrow> entropy \<Rightarrow> server \<Rightarrow> bytes \<Rightarrow> bytes \<Rightarrow> bytes \<Rightarrow> bytes" where
  "handshake_response C e st hs_key hkdf_salt server_pub =
     (let server_tag = take 16 (hmac_sha256 hkdf_salt server_pub);
          session_tok = token_bytes e 0 32;
          payload = server_pub @ server_tag @ session_tok;
          resp_outer = outer_header C (sv_mask_key st) (sv_raw_kid st)
                         (token_bytes e 32 12) 0 (token_bytes e 44 16);
          resp_nonce = token_bytes e 60 12
      in resp_outer @ resp_nonce @ aead_encrypt C hs_key resp_nonce payload (Some resp_outer))"

text \<open>
  The result says whether \<open>process_packet\<close> returns here; an exception inside the \<open>try\<close>
  falls through to the next stage with whatever was assigned before it.
\<close>

definition accept_masked_init ::
  "crypto \<Rightarrow> env \<Rightarrow> server \<Rightarrow> addr \<Rightarrow> bytes \<Rightarrow> bytes \<Rightarrow> bytes \<Rightarrow> bytes \<Rightarrow> server \<times> srv_out list \<times> bool" where
  "accept_masked_init C E st a pt_hs hs_key server_priv server_pub =
     (let client_pub_raw = slice pt_hs 0 32;
          client_auth_tag = slice pt_hs 32 48;
          hkdf_salt = hkdf_expand C (sv_master_key st) (bstr ''AEGS-V4-HANDSHAKE-SALT'') 32;
          expected_tag = take 16 (hmac_sha256 hkdf_salt client_pub_raw)
      in if client_auth_tag \<noteq> expected_tag then (st, [Log (LogAuthFail (fst a))], True)
         else (case x25519_exchange C server_priv client_pub_raw of
            None \<Rightarrow> (st, [], False)
          | Some shared \<Rightarrow>
              (let st1 = st\<lparr>sv_recv_key := Some (hkdf_expand C shared (bstr ''AEGS-V4-CLIENT-WRITE-KEY-2026'') 32),
                            sv_send_key := Some (hkdf_expand C shared (bstr ''AEGS-V4-SERVER-WRITE-KEY-2026'') 32),
                            sv_client_addr := Some a,
                            sv_replay := new_filter 2048\<rparr>;
                   pkt = handshake_response C (ent E) st1 hs_key hkdf_salt server_pub
               in if send_ok E
                  then (case print_client_connected_banner E st1 a NativeHandshake of
                          (st2, outs) \<Rightarrow> (st2, SendTo pkt a # outs, True))
                  else (st1, [], False))))"

definition masked_handshake ::
  "crypto \<Rightarrow> env \<Rightarrow> server \<Rightarrow> addr \<Rightarrow> bytes \<Rightarrow> bytes \<Rightarrow> bytes \<Rightarrow> server \<times> srv_out list \<times> bool" where
  "masked_handshake C E st a data server_priv server_pub =
     (if length data < 28 + 12 + 48 then (st, [], False)
      else
        (let unmasked = mask_unmask_header C (slice data 12 28) (sv_mask_key st) (slice data 0 12) in
         if slice unmasked 0 8 = sv_raw_kid st \<and> slice unmasked 12 16 = ver_magic then
           (let outer_len = 28 + be_val (slice unmasked 8 10) in
            if length data < outer_len + 12 + 48 then (st, [], False)
            else
              (let hs_key = hkdf_expand C (sv_master_key st) (bstr ''AEGS-V4-HANDSHAKE-INIT-KEY'') 32 in
               case aead_decrypt C hs_key (slice data outer_len (outer_len + 12))
                      (drop (outer_len + 12) data) (Some (slice data 0 outer_len)) of
                 None \<Rightarrow> (st, [], False)
               | Some pt_hs \<Rightarrow>
                   if length pt_hs = 48
                   then accept_masked_init C E st a pt_hs hs_key server_priv server_pub
                   else (st, [], False)))
         else (st, [], False)))"

section \<open>Stage 4: the raw handshake\<close>

definition raw_config :: bytes where
  "raw_config = le_bytes 4 0x0200080A @ le_bytes 2 1400 @ replicate 10 0"

definition raw_handshake ::
  "crypto \<Rightarrow> env \<Rightarrow> server \<Rightarrow> addr \<Rightarrow> bytes \<Rightarrow> bytes \<Rightarrow> bytes \<Rightarrow> server \<times> srv_out list" where
  "raw_handshake C E st a data server_priv server_pub =
     (if slice data 8 16 \<noteq> sv_raw_kid st then (st, [])
      else if slice data 56 72 \<noteq> take 16 (hmac_sha256 (sv_master_key st) (slice data 0 56))
      then (st, [Log (LogAuthFail (fst a))])
      else (case x25519_exchange C server_priv (slice data 16 48) of
         None \<Rightarrow> (st, [Log LogHandshakeErr])
       | Some shared \<Rightarrow>
           (let rk = hkdf_extract_and_expand C shared (sv_master_key st) (bstr ''aegs-c2s'') 32;
                sk = hkdf_extract_and_expand C shared (sv_master_key st) (bstr ''aegs-s2c'') 32;
                st1 = st\<lparr>sv_recv_key := Some rk, sv_send_key := Some sk,
                         sv_client_addr := Some a, sv_replay := new_filter 2048\<rparr>;
                resp_hdr = [2] @ replicate 7 0 @ token_bytes (ent E) 0 8 @ server_pub;
                enc_cfg = aead_encrypt C sk (replicate 12 0) raw_config (Some resp_hdr)
            in if send_ok E
               then (case print_client_connected_banner E st1 a RawHandshake of
                       (st2, outs) \<Rightarrow> (st2, SendTo (resp_hdr @ enc_cfg) a # outs))
               else (st1, [Log LogHandshakeErr]))))"

section \<open>Stage 5: session resumption\<close>

definition resume_session :: "crypto \<Rightarrow> server \<Rightarrow> addr \<Rightarrow> bytes \<Rightarrow> server \<times> srv_out list" where
  "resume_session C st a data =
     (let tok = slice data 1 97; r_nonce = slice tok 0 12; ct_tag = slice tok 12 64 in
      case aead_decrypt C (sv_rkey st) r_nonce ct_tag None of
        None \<Rightarrow> (st, [])
      | Some dec \<Rightarrow>
          if r_nonce \<in> sv_seen_nonces st then (st, [Log (LogResumeReplay (fst a))])
          else (st\<lparr>sv_seen_nonces := insert r_nonce (sv_seen_nonces st),
                   sv_recv_key := Some (hkdf_expand C (sv_master_key st) (bstr ''aegs-c2s'') 32),
                   sv_send_key := Some (hkdf_expand C (sv_master_key st) (bstr ''aegs-s2c'') 32),
                   sv_client_addr := Some a,
                   sv_replay := new_filter 2048\<rparr>, [Log (LogResumeOk (fst a))]))"

section \<open>The inner frame\<close>

definition handle_client_payload :: "env \<Rightarrow> server \<Rightarrow> bytes \<Rightarrow> addr \<Rightarrow> srv_res" where
  "handle_client_payload E st pt a =
     (if length pt < 5 then (st, [], None)
      else
        (let stream_id = be_val (slice pt 0 4); cmd = unat (pt ! 4) in
         if cmd = CMD_CONNECT then
           (case py_get pt 5 of
              Inl e \<Rightarrow> (st, [], Some e)
            | Inr hl \<Rightarrow>
                (let host_len = unat hl;
                     host = utf8_decode_replace (slice pt 6 (6 + host_len))
                 in case unpack_be 2 (slice pt (6 + host_len) (8 + host_len)) of
                      None \<Rightarrow> (st, [], Some StructError)
                    | Some port \<Rightarrow>
                        (st, [Log (LogForward stream_id (fst a) host port),
                              StartProxy stream_id host port], None)))
         else if cmd = CMD_DATA then
           (case sv_streams st stream_id of
              None \<Rightarrow> (st, [], None)
            | Some s \<Rightarrow>
                (let payload = drop 5 pt in
                 if stream_ok E s
                 then (st\<lparr>sv_bytes_tx := sv_bytes_tx st + length payload\<rparr>, [StreamSend s payload], None)
                 else (st, [], None)))
         else if cmd = CMD_CLOSE then
           (case sv_streams st stream_id of
              None \<Rightarrow> (st, [], None)
            | Some s \<Rightarrow>
                (st\<lparr>sv_streams := (sv_streams st)(stream_id := None)\<rparr>, [StreamShut s], None))
         else (st, [], None)))"

section \<open>Stage 6: the encrypted data frame\<close>

text \<open>The guards on length and unmasked header: the chaff flag and the offset of the nonce.\<close>

definition frame_fields :: "crypto \<Rightarrow> server \<Rightarrow> bytes \<Rightarrow> (bool \<times> nat) option" where
  "frame_fields C st data =
     (if length data < 56 then None
      else
        (let unmasked = mask_unmask_header C (slice data 12 28) (sv_mask_key st) (slice data 0 12) in
         if slice unmasked 0 8 \<noteq> sv_raw_kid st \<or> slice unmasked 12 16 \<noteq> ver_magic then None
         else
           (let is_chaff = (unmasked ! 10 AND 0x80 \<noteq> 0);
                aead_offset = 12 + 16 + be_val (slice unmasked 8 10)
            in if length data < aead_offset + 12 + 16 then None else Some (is_chaff, aead_offset))))"

definition frame_nonce :: "bytes \<Rightarrow> nat \<Rightarrow> bytes" where
  "frame_nonce data off = slice data off (off + 12)"

definition frame_seq :: "bytes \<Rightarrow> nat \<Rightarrow> nat" where
  "frame_seq data off = le_val (slice (frame_nonce data off) 0 8)"

text \<open>After the replay check: decrypt, follow the client's address, hand the frame on.\<close>

definition open_frame ::
  "crypto \<Rightarrow> env \<Rightarrow> server \<Rightarrow> addr \<Rightarrow> bytes \<Rightarrow> bytes \<Rightarrow> bool \<Rightarrow> nat \<Rightarrow> srv_res" where
  "open_frame C E st a data rk is_chaff off =
     (case aead_decrypt C rk (frame_nonce data off) (drop (off + 12) data) (Some (slice data 0 off)) of
        None \<Rightarrow> (st, [Log (LogTamperDrop (fst a))], None)
      | Some pt \<Rightarrow>
          (let st1 = (if sv_client_addr st \<noteq> Some a then st\<lparr>sv_client_addr := Some a\<rparr> else st)
           in if is_chaff
              then (st1, [Log (LogChaff (fst a) (length data))], None)
              else handle_client_payload E st1 pt a))"

definition data_frame :: "crypto \<Rightarrow> env \<Rightarrow> server \<Rightarrow> addr \<Rightarrow> bytes \<Rightarrow> srv_res" where
  "data_frame C E st a data =
     (case sv_recv_key st of
        None \<Rightarrow> (st, [], None)
      | Some rk \<Rightarrow>
          (case frame_fields C st data of
             None \<Rightarrow> (st, [], None)
           | Some (is_chaff, off) \<Rightarrow>
               (case check_and_update (sv_replay st) (frame_seq data off) of
                  (Inl e, f) \<Rightarrow> (st\<lparr>sv_replay := f\<rparr>, [], Some e)
                | (Inr dropped, f) \<Rightarrow>
                    if dropped
                    then (st\<lparr>sv_replay := f\<rparr>, [Log (LogReplayDrop (frame_seq data off) (fst a))], None)
                    else open_frame C E (st\<lparr>sv_replay := f\<rparr>) a data rk is_chaff off)))"

section \<open>The dispatcher and the receive loop\<close>

definition process_packet :: "crypto \<Rightarrow> env \<Rightarrow> server \<Rightarrow> addr \<Rightarrow> bytes \<Rightarrow> bytes \<Rightarrow> bytes \<Rightarrow> srv_res" where
  "process_packet C E st a data server_priv server_pub =
     (if length data < 20 then (st, [], None)
      else if take 2 data = [0, 1] \<and> length data = 20 then
        (if send_ok E
         then (st, [SendTo (stun_decoy (ent E)) a, Log (LogStun a)], None)
         else (st, [], Some OSError))
      else
        (case masked_handshake C E st a data server_priv server_pub of
           (st1, outs, True) \<Rightarrow> (st1, outs, None)
         | (st1, outs, False) \<Rightarrow>
             if data ! 0 = 1 \<and> length data \<ge> 72 then
               (case raw_handshake C E st1 a data server_priv server_pub of (st2, outs2) \<Rightarrow> (st2, outs2, None))
             else if data ! 0 = 4 \<and> length data \<ge> 97 then
               (case resume_session C st1 a data of (st2, outs2) \<Rightarrow> (st2, outs2, None))
             else data_frame C E st1 a data))"

text \<open>One datagram in \<open>start\<close>: the counters, then the dispatcher; an exception is swallowed.\<close>

definition on_datagram :: "crypto \<Rightarrow> env \<Rightarrow> server \<Rightarrow> addr \<Rightarrow> bytes \<Rightarrow> bytes \<Rightarrow> bytes \<Rightarrow> server \<times> srv_out list" where
  "on_datagram C E st a data server_priv server_pub =
     (if data = [] then (st, [])
      else
        (case process_packet C E
                (st\<lparr>sv_packets_rx := sv_packets_rx st + 1, sv_bytes_rx := sv_bytes_rx st + length data\<rparr>)
                a data server_priv server_pub of
           (st', outs, _) \<Rightarrow> (st', outs)))"

text \<open>The ports \<open>start\<close> tries to bind; a port that is taken is skipped; none is an early return.\<close>

definition bound_ports :: "server \<Rightarrow> (nat \<Rightarrow> bool) \<Rightarrow> nat list option" where
  "bound_ports st can_bind =
     (let ps = filter can_bind [sv_base_port st..<sv_base_port st + sv_port_count st]
      in if ps = [] then None else Some ps)"

section \<open>Sending and the proxy thread\<close>

definition send_aegs_frame :: "crypto \<Rightarrow> env \<Rightarrow> server \<Rightarrow> nat \<Rightarrow> nat \<Rightarrow> bytes \<Rightarrow> srv_res" where
  "send_aegs_frame C E st stream_id cmd payload =
     (case (sv_client_addr st, sv_send_key st) of
        (Some a, Some sk) \<Rightarrow>
          (case (pack_be 4 (int stream_id), pack_be 1 (int cmd)) of
             (Some sid, Some c) \<Rightarrow>
               (let e = ent E;
                    pad_len = 16 + randbelow e 0 33;
                    frame_with_pad = sid @ c @ payload @ token_bytes e 1 pad_len;
                    st1 = st\<lparr>sv_tx_seq := sv_tx_seq st + 1\<rparr>
                in if sv_tx_seq st1 < 2 ^ 64 then
                     (let aead_nonce = le_bytes 8 (sv_tx_seq st1) @ token_bytes e 64 4;
                          outer = outer_header C (sv_mask_key st) (sv_raw_kid st)
                                    (token_bytes e 68 12) 0 (token_bytes e 80 8);
                          pkt = outer @ aead_nonce @ aead_encrypt C sk aead_nonce frame_with_pad (Some outer)
                      in if send_ok E
                         then (st1\<lparr>sv_packets_tx := sv_packets_tx st1 + 1\<rparr>, [SendTo pkt a], None)
                         else (st1, [], None))
                   else (st1, [], Some StructError))
           | _ \<Rightarrow> (st, [], Some StructError))
      | _ \<Rightarrow> (st, [], None))"

text \<open>
  \<open>proxy_worker\<close> in three steps, which other threads can interleave with: the connection is
  entered in the table, each chunk read from the remote is sent as a data frame, and the
  \<open>finally\<close> block removes the stream, sends the close frame and closes the socket.
\<close>

definition proxy_connected :: "server \<Rightarrow> nat \<Rightarrow> nat \<Rightarrow> server" where
  "proxy_connected st stream_id sock = st\<lparr>sv_streams := (sv_streams st)(stream_id \<mapsto> sock)\<rparr>"

definition proxy_chunk :: "crypto \<Rightarrow> env \<Rightarrow> server \<Rightarrow> nat \<Rightarrow> bytes \<Rightarrow> srv_res" where
  "proxy_chunk C E st stream_id chunk =
     (case send_aegs_frame C E st stream_id CMD_DATA chunk of
        (st', outs, None) \<Rightarrow> (st'\<lparr>sv_bytes_tx := sv_bytes_tx st' + length chunk\<rparr>, outs, None)
      | (st', outs, Some e) \<Rightarrow> (st', outs, Some e))"

definition proxy_finally :: "crypto \<Rightarrow> env \<Rightarrow> server \<Rightarrow> nat \<Rightarrow> nat option \<Rightarrow> srv_res" where
  "proxy_finally C E st stream_id sock =
     (case send_aegs_frame C E (st\<lparr>sv_streams := (sv_streams st)(stream_id := None)\<rparr>) stream_id CMD_CLOSE [] of
        (st', outs, None) \<Rightarrow>
          (st', outs @ (case sock of None \<Rightarrow> [] | Some s \<Rightarrow> [StreamShut s]), None)
      | (st', outs, Some e) \<Rightarrow> (st', outs, Some e))"

text \<open>The chunks until the remote closes (or a send raises): the \<open>try\<close> body after the connect.\<close>

fun proxy_pump :: "crypto \<Rightarrow> server \<Rightarrow> nat \<Rightarrow> (env \<times> bytes) list \<Rightarrow> server \<times> srv_out list" where
  "proxy_pump C st stream_id [] = (st, [])"
| "proxy_pump C st stream_id ((E, chunk) # cs) =
     (if chunk = [] then (st, [])
      else (case proxy_chunk C E st stream_id chunk of
          (st', outs, None) \<Rightarrow>
            (case proxy_pump C st' stream_id cs of (st'', outs') \<Rightarrow> (st'', outs @ outs'))
        | (st', outs, Some e) \<Rightarrow> (st', outs)))"

text \<open>The whole worker, run without interruption; \<open>conn\<close> is \<open>None\<close> when the connect fails.\<close>

definition proxy_worker ::
  "crypto \<Rightarrow> env \<Rightarrow> server \<Rightarrow> nat \<Rightarrow> nat option \<Rightarrow> (env \<times> bytes) list \<Rightarrow> srv_res" where
  "proxy_worker C E st stream_id conn chunks =
     (case conn of
        None \<Rightarrow> proxy_finally C E st stream_id None
      | Some sock \<Rightarrow>
          (case proxy_pump C (proxy_connected st stream_id sock) stream_id chunks of
             (st', outs) \<Rightarrow>
               (case proxy_finally C E st' stream_id (Some sock) of
                  (st'', outs', ex) \<Rightarrow> (st'', outs @ outs', ex))))"

end
