(* ===== verification/Client.thy ===== *)
theory Client
  imports Server
begin

text \<open>
  \<open>AegsClient\<close> of aegs_client.py: key derivation, port hopping, the STUN decoy, the masked
  handshake with its receive loop, \<open>send_raw_packet\<close> with its bimodal padding, one round
  of the chaffing loop, one round of the receiver loop and the registration of a local
  connection. The header and cipher helpers have the same text as in aegs_server.py
  (\<open>mask_unmask_header\<close>, \<open>hkdf_expand\<close>, \<open>outer_header\<close> of theory Server).
\<close>

section \<open>State\<close>

record client =
  cl_server_host :: ustr
  cl_base_port :: nat
  cl_port_count :: nat
  cl_auto_system :: bool
  cl_master_key :: bytes
  cl_mask_key :: bytes
  cl_raw_kid :: bytes
  cl_priv :: bytes
  cl_pub :: bytes
  cl_send_key :: "bytes option"
  cl_recv_key :: "bytes option"
  cl_resume_token :: "bytes option"
  cl_running :: bool
  cl_streams :: "nat \<rightharpoonup> nat"
  cl_stream_counter :: nat
  cl_tx_seq :: nat
  cl_last_real :: nat

datatype cl_out =
    UdpSend bytes addr         \<comment> \<open>a datagram to the server\<close>
  | ConnSend nat bytes         \<comment> \<open>\<open>sendall\<close> on a local connection\<close>
  | ConnShut nat               \<comment> \<open>\<open>close\<close> of a local connection\<close>

type_synonym cl_res = "client \<times> cl_out list \<times> pyexn option"

text \<open>\<open>AegsClient.__init__\<close>; \<open>priv\<close> is the private key that \<open>generate\<close> draws.\<close>

definition client_init :: "crypto \<Rightarrow> env \<Rightarrow> ustr \<Rightarrow> nat \<Rightarrow> ustr \<Rightarrow> nat \<Rightarrow> bool \<Rightarrow> bytes \<Rightarrow> pyexn + client" where
  "client_init C E host bp token pc auto priv =
     (case utf8_encode token of
        None \<Rightarrow> Inl UnicodeError
      | Some tok \<Rightarrow>
          (let mk = pbkdf2_sha256 tok master_salt in
           Inr \<lparr>cl_server_host = host, cl_base_port = bp, cl_port_count = pc, cl_auto_system = auto,
                cl_master_key = mk,
                cl_mask_key = hkdf_expand C mk (bstr ''AEGS-V4-MASK-KEY-2026'') 32,
                cl_raw_kid = take 8 (sha256 tok),
                cl_priv = priv, cl_pub = x25519_public C priv,
                cl_send_key = None, cl_recv_key = None, cl_resume_token = None,
                cl_running = True, cl_streams = Map.empty, cl_stream_counter = 100,
                cl_tx_seq = 0, cl_last_real = now_us E\<rparr>))"

definition get_current_port :: "env \<Rightarrow> client \<Rightarrow> pyexn + nat" where
  "get_current_port E cl =
     (if cl_port_count cl = 0 then Inl ZeroDivisionError
      else Inr (cl_base_port cl + (now_us E div 1000000) mod cl_port_count cl))"

section \<open>Pre-bypass decoy\<close>

definition stun_binding_req :: "entropy \<Rightarrow> bytes" where
  "stun_binding_req e =
     [0, 1, 0, 8] @ [0x21, 0x12, 0xa4, 0x42] @ token_bytes e 0 12 @ [0, 6, 0, 4, 0, 0, 0, 0]"

definition send_illusion_prebypass :: "env \<Rightarrow> client \<Rightarrow> cl_out list \<times> pyexn option" where
  "send_illusion_prebypass E cl =
     (case get_current_port E cl of
        Inl e \<Rightarrow> ([], Some e)
      | Inr p \<Rightarrow> (if send_ok E then [UdpSend (stun_binding_req (ent E)) (cl_server_host cl, p)] else [], None))"

section \<open>Handshake\<close>

definition handshake_salt :: "crypto \<Rightarrow> client \<Rightarrow> bytes" where
  "handshake_salt C cl = hkdf_expand C (cl_master_key cl) (bstr ''AEGS-V4-HANDSHAKE-SALT'') 32"

definition handshake_key :: "crypto \<Rightarrow> client \<Rightarrow> bytes" where
  "handshake_key C cl = hkdf_expand C (cl_master_key cl) (bstr ''AEGS-V4-HANDSHAKE-INIT-KEY'') 32"

definition handshake_init :: "crypto \<Rightarrow> env \<Rightarrow> client \<Rightarrow> bytes" where
  "handshake_init C E cl =
     (let e = ent E;
          auth_tag = take 16 (hmac_sha256 (handshake_salt C cl) (cl_pub cl));
          payload = cl_pub cl @ auth_tag;
          outer = outer_header C (cl_mask_key cl) (cl_raw_kid cl) (token_bytes e 0 12) 0 (token_bytes e 12 16);
          aead_nonce = token_bytes e 28 12
      in outer @ aead_nonce @ aead_encrypt C (handshake_key C cl) aead_nonce payload (Some outer))"

text \<open>One datagram of the wait loop: go on waiting, or return.\<close>

datatype hs_step = Waiting client | Returned client bool

definition handshake_reply :: "crypto \<Rightarrow> client \<Rightarrow> bytes \<Rightarrow> hs_step" where
  "handshake_reply C cl data =
     (if length data < 28 + 12 + 16 then Waiting cl
      else
        (let unmasked = mask_unmask_header C (slice data 12 28) (cl_mask_key cl) (slice data 0 12) in
         if slice unmasked 12 16 \<noteq> ver_magic then Waiting cl
         else
           (let outer_len = 28 + be_val (slice unmasked 8 10) in
            case aead_decrypt C (handshake_key C cl) (slice data outer_len (outer_len + 12))
                   (drop (outer_len + 12) data) (Some (slice data 0 outer_len)) of
              None \<Rightarrow> Waiting cl
            | Some pt \<Rightarrow>
                (let server_pub_raw = slice pt 0 32;
                     server_tag = slice pt 32 48;
                     cl1 = cl\<lparr>cl_resume_token := Some (slice pt 48 80)\<rparr>;
                     expected_tag = take 16 (hmac_sha256 (handshake_salt C cl) server_pub_raw)
                 in if server_tag \<noteq> expected_tag then Returned cl1 False
                    else (case x25519_exchange C (cl_priv cl) server_pub_raw of
                       None \<Rightarrow> Waiting cl1
                     | Some shared \<Rightarrow>
                         Returned (cl1\<lparr>cl_send_key := Some (hkdf_expand C shared (bstr ''AEGS-V4-CLIENT-WRITE-KEY-2026'') 32),
                                      cl_recv_key := Some (hkdf_expand C shared (bstr ''AEGS-V4-SERVER-WRITE-KEY-2026'') 32)\<rparr>)
                                  True)))))"

text \<open>
  The datagrams that arrive before the three seconds are over, in order; \<open>recvfrom(2048)\<close>
  drops what does not fit the buffer.
\<close>

fun handshake_wait :: "crypto \<Rightarrow> client \<Rightarrow> bytes list \<Rightarrow> client \<times> bool" where
  "handshake_wait C cl [] = (cl, False)"
| "handshake_wait C cl (d # ds) =
     (case handshake_reply C cl (take 2048 d) of
        Waiting cl' \<Rightarrow> handshake_wait C cl' ds
      | Returned cl' r \<Rightarrow> (cl', r))"

definition perform_handshake ::
  "crypto \<Rightarrow> env \<Rightarrow> client \<Rightarrow> bytes list \<Rightarrow> client \<times> cl_out list \<times> (pyexn + bool)" where
  "perform_handshake C E cl arrivals =
     (case get_current_port E cl of
        Inl e \<Rightarrow> (cl, [], Inl e)
      | Inr p \<Rightarrow>
          if send_ok E
          then (case handshake_wait C cl arrivals of
                  (cl', r) \<Rightarrow> (cl', [UdpSend (handshake_init C E cl) (cl_server_host cl, p)], Inr r))
          else (cl, [], Inl OSError))"

section \<open>Sending\<close>

definition pad_length :: "nat \<Rightarrow> nat \<Rightarrow> nat" where
  "pad_length frame_len draw =
     (let pad_target = (if frame_len < 200 then 256 else 1350)
      in max 16 (pad_target - frame_len - 40) + draw)"

definition junk_length :: "entropy \<Rightarrow> nat \<Rightarrow> nat" where
  "junk_length e k = (if randbelow e k 100 < 25 then 16 + randbelow e (k + 1) 17 else 0)"

text \<open>The sealed datagram for sequence number \<open>seq\<close>.\<close>

definition raw_packet :: "crypto \<Rightarrow> entropy \<Rightarrow> client \<Rightarrow> bytes \<Rightarrow> nat \<Rightarrow> bytes \<Rightarrow> bool \<Rightarrow> bytes" where
  "raw_packet C e cl sk seq frame is_chaff =
     (let pad_len = pad_length (length frame) (randbelow e 0 33);
          frame_with_pad = frame @ token_bytes e 1 pad_len;
          aead_nonce = le_bytes 8 seq @ token_bytes e 2000 4;
          junk = token_bytes e 2018 (junk_length e 2004);
          chaff_flag = (if is_chaff then 0x80 else 0);
          outer = outer_header C (cl_mask_key cl) (cl_raw_kid cl) (token_bytes e 2006 12) chaff_flag junk
      in outer @ aead_nonce @ aead_encrypt C sk aead_nonce frame_with_pad (Some outer))"

definition send_raw_packet :: "crypto \<Rightarrow> env \<Rightarrow> client \<Rightarrow> nat \<Rightarrow> nat \<Rightarrow> bytes \<Rightarrow> bool \<Rightarrow> cl_res" where
  "send_raw_packet C E cl sid cmd payload is_chaff =
     (case cl_send_key cl of
        None \<Rightarrow> (cl, [], None)
      | Some sk \<Rightarrow>
          (case (pack_be 4 (int sid), pack_be 1 (int cmd)) of
             (Some s, Some c) \<Rightarrow>
               (let cl1 = cl\<lparr>cl_tx_seq := cl_tx_seq cl + 1\<rparr>;
                    pkt = raw_packet C (ent E) cl sk (cl_tx_seq cl1) (s @ c @ payload) is_chaff
                in if cl_tx_seq cl1 < 2 ^ 64 then
                     (case get_current_port E cl1 of
                        Inl _ \<Rightarrow> (cl1, [], None)
                      | Inr p \<Rightarrow> (cl1, if send_ok E then [UdpSend pkt (cl_server_host cl1, p)] else [], None))
                   else (cl1, [], Some StructError))
           | _ \<Rightarrow> (cl, [], Some StructError)))"

text \<open>One round of \<open>chaffing_loop\<close>, after the sleep: a dummy when idle for 1.2 seconds.\<close>

definition chaff_round :: "crypto \<Rightarrow> env \<Rightarrow> client \<Rightarrow> cl_res" where
  "chaff_round C E cl =
     (if 1200000 < int (now_us E) - int (cl_last_real cl) then
        (case send_raw_packet C E cl 0 CMD_CHAFF
                (token_bytes (ent E) 3001 (randbelow (ent E) 3000 128 + 32)) True of
           (cl', outs, None) \<Rightarrow> (cl'\<lparr>cl_last_real := now_us E\<rparr>, outs, None)
         | r \<Rightarrow> r)
      else (cl, [], None))"

section \<open>Receiving\<close>

text \<open>What \<open>udp_receiver_loop\<close> does with the frame of a decrypted packet.\<close>

definition deliver_frame :: "env \<Rightarrow> client \<Rightarrow> bytes \<Rightarrow> client \<times> cl_out list" where
  "deliver_frame E cl pt =
     (if length pt < 5 then (cl, [])
      else
        (let stream_id = be_val (slice pt 0 4); cmd = unat (pt ! 4); payload = drop 5 pt in
         if stream_id = 0 \<or> cmd = CMD_CHAFF then (cl, [])
         else (case cl_streams cl stream_id of
             None \<Rightarrow> (cl, [])
           | Some conn \<Rightarrow>
               if cmd = CMD_DATA then (cl, if stream_ok E conn then [ConnSend conn payload] else [])
               else if cmd = CMD_CLOSE then
                 (cl\<lparr>cl_streams := (cl_streams cl)(stream_id := None)\<rparr>, [ConnShut conn])
               else (cl, []))))"

definition udp_receive :: "crypto \<Rightarrow> env \<Rightarrow> client \<Rightarrow> bytes \<Rightarrow> client \<times> cl_out list" where
  "udp_receive C E cl data =
     (if length data < 28 + 12 + 16 then (cl, [])
      else
        (let unmasked = mask_unmask_header C (slice data 12 28) (cl_mask_key cl) (slice data 0 12) in
         if slice unmasked 12 16 \<noteq> ver_magic then (cl, [])
         else
           (let outer_len = 28 + be_val (slice unmasked 8 10) in
            case cl_recv_key cl of
              None \<Rightarrow> (cl, [])
            | Some rk \<Rightarrow>
                (case aead_decrypt C rk (slice data outer_len (outer_len + 12))
                        (drop (outer_len + 12) data) (Some (slice data 0 outer_len)) of
                   None \<Rightarrow> (cl, [])
                 | Some pt \<Rightarrow> deliver_frame E cl pt))))"

text \<open>One round of \<open>udp_receiver_loop\<close> with a datagram pending: \<open>recvfrom(4096)\<close> cuts it off.\<close>

definition udp_round :: "crypto \<Rightarrow> env \<Rightarrow> client \<Rightarrow> bytes \<Rightarrow> client \<times> cl_out list" where
  "udp_round C E cl data = (if cl_running cl then udp_receive C E cl (take 4096 data) else (cl, []))"

section \<open>Local connections\<close>

text \<open>One \<open>accept\<close> of \<open>start_gateway_server\<close>: the next stream number, and its table entry.\<close>

definition register_conn :: "client \<Rightarrow> nat \<Rightarrow> client \<times> nat" where
  "register_conn cl conn =
     (let sid = cl_stream_counter cl + 1
      in (cl\<lparr>cl_stream_counter := sid, cl_streams := (cl_streams cl)(sid \<mapsto> conn)\<rparr>, sid))"

text \<open>The \<open>finally\<close> block of \<open>handle_client_conn\<close>.\<close>

definition conn_finally :: "crypto \<Rightarrow> env \<Rightarrow> client \<Rightarrow> nat \<Rightarrow> nat \<Rightarrow> cl_res" where
  "conn_finally C E cl sid conn =
     (case send_raw_packet C E (cl\<lparr>cl_streams := (cl_streams cl)(sid := None)\<rparr>) sid CMD_CLOSE [] False of
        (cl', outs, None) \<Rightarrow> (cl', outs @ [ConnShut conn], None)
      | r \<Rightarrow> r)"

section \<open>Invariant and sizes\<close>

definition client_wf :: "client \<Rightarrow> bool" where
  "client_wf cl \<longleftrightarrow>
     length (cl_master_key cl) = 32 \<and> length (cl_mask_key cl) = 32 \<and> length (cl_raw_kid cl) = 8 \<and>
     length (cl_pub cl) = 32 \<and>
     (\<forall>k. cl_send_key cl = Some k \<longrightarrow> length k = 32) \<and>
     (\<forall>k. cl_recv_key cl = Some k \<longrightarrow> length k = 32) \<and>
     (cl_send_key cl = None \<longleftrightarrow> cl_recv_key cl = None) \<and>
     (\<forall>sid \<in> dom (cl_streams cl). sid \<le> cl_stream_counter cl)"

lemma client_init_wf: "crypto_ok C \<Longrightarrow> client_init C E host bp token pc auto priv = Inr cl \<Longrightarrow> client_wf cl"
  by (auto simp: client_init_def client_wf_def Let_def pbkdf2_sha256_def length_pbkdf2 hkdf_expand_def
      length_hkdf length_x25519_public length_sha256 split: option.splits)

lemma handshake_reply_wf:
  assumes "crypto_ok C" "client_wf cl" "handshake_reply C cl d = r"
  shows "case r of Waiting cl' \<Rightarrow> client_wf cl' | Returned cl' b \<Rightarrow> client_wf cl'"
  using assms(2,3)
  by (auto simp: handshake_reply_def client_wf_def Let_def hkdf_expand_def length_hkdf [OF assms(1)]
      split: if_splits option.splits)

lemma handshake_wait_wf:
  "crypto_ok C \<Longrightarrow> client_wf cl \<Longrightarrow> handshake_wait C cl ds = (cl', r) \<Longrightarrow> client_wf cl'"
proof (induction ds arbitrary: cl)
  case (Cons d ds)
  then show ?case
    using handshake_reply_wf [OF Cons.prems(1,2) refl, of "take 2048 d"] by (auto split: hs_step.splits)
qed simp

lemma send_raw_packet_wf: "client_wf cl \<Longrightarrow> send_raw_packet C E cl sid cmd p ch = (cl', outs, ex) \<Longrightarrow> client_wf cl'"
  by (auto simp: send_raw_packet_def client_wf_def Let_def split: option.splits sum.splits if_splits)

lemma deliver_frame_wf: "client_wf cl \<Longrightarrow> deliver_frame E cl pt = (cl', outs) \<Longrightarrow> client_wf cl'"
  by (auto simp: deliver_frame_def client_wf_def Let_def split: option.splits if_splits)

lemma udp_receive_wf: "client_wf cl \<Longrightarrow> udp_receive C E cl d = (cl', outs) \<Longrightarrow> client_wf cl'"
  by (auto simp: udp_receive_def Let_def split: option.splits if_splits dest: deliver_frame_wf)

lemma register_conn_wf:
  "client_wf cl \<Longrightarrow> register_conn cl conn = (cl', sid) \<Longrightarrow>
   client_wf cl' \<and> cl_streams cl sid = None \<and> cl_streams cl' sid = Some conn"
  by (auto simp: register_conn_def client_wf_def Let_def) force+

lemma junk_length_le: "junk_length e k \<le> 32"
  using randbelow_less [of 17 e "k + 1"] by (simp add: junk_length_def)

lemma pad_length_ge: "16 \<le> pad_length n d"
  by (simp add: pad_length_def)

end
