(* ===== verification/ServerInv.thy ===== *)
theory ServerInv
  imports Server
begin

text \<open>
  What holds of every state of \<open>AegsServer\<close>: the well-formedness invariant
  (\<open>server_wf\<close>: key lengths, the replay window's shape, keys only together with an
  address) kept by every step and hence in every reachable state; and which packets can
  have an effect at all (\<open>authenticated\<close>).
\<close>

section \<open>The invariant\<close>

definition server_wf :: "server \<Rightarrow> bool" where
  "server_wf st \<longleftrightarrow>
     length (sv_master_key st) = 32 \<and> length (sv_mask_key st) = 32 \<and>
     length (sv_raw_kid st) = 8 \<and> length (sv_rkey st) = 32 \<and>
     filter_wf (sv_replay st) \<and> window_size (sv_replay st) = 2048 \<and>
     (\<forall>k. sv_recv_key st = Some k \<longrightarrow> length k = 32) \<and>
     (\<forall>k. sv_send_key st = Some k \<longrightarrow> length k = 32) \<and>
     (sv_recv_key st = None \<longleftrightarrow> sv_send_key st = None) \<and>
     (sv_send_key st = None \<longleftrightarrow> sv_client_addr st = None)"

lemma new_filter_2048: "filter_wf (new_filter 2048)" "window_size (new_filter 2048) = 2048"
  by (rule new_filter_wf) (simp_all add: new_filter_def)

lemma server_init_wf: "crypto_ok C \<Longrightarrow> server_init C bp token pc = Inr st \<Longrightarrow> server_wf st"
  by (auto simp: server_init_def server_wf_def Let_def pbkdf2_sha256_def length_pbkdf2 hkdf_expand_def
      hkdf_extract_and_expand_def length_hkdf length_sha256 new_filter_2048 split: option.splits)

text \<open>Entering a session: what a handshake or a resumption writes.\<close>

definition session_entered :: "server \<Rightarrow> addr \<Rightarrow> server \<Rightarrow> bool" where
  "session_entered st a st' \<longleftrightarrow>
     (\<exists>rk sk. length rk = 32 \<and> length sk = 32 \<and> sv_recv_key st' = Some rk \<and> sv_send_key st' = Some sk) \<and>
     sv_client_addr st' = Some a \<and> sv_replay st' = new_filter 2048 \<and>
     sv_master_key st' = sv_master_key st \<and> sv_mask_key st' = sv_mask_key st \<and>
     sv_raw_kid st' = sv_raw_kid st \<and> sv_rkey st' = sv_rkey st \<and> sv_tx_seq st' = sv_tx_seq st \<and>
     sv_streams st' = sv_streams st"

lemma session_entered_wf: "server_wf st \<Longrightarrow> session_entered st a st' \<Longrightarrow> server_wf st'"
  by (auto simp: server_wf_def session_entered_def new_filter_2048)

lemma masked_handshake_state:
  "crypto_ok C \<Longrightarrow> masked_handshake C E st a data priv pub = (st', outs, d) \<Longrightarrow>
   st' = st \<or> session_entered st a st'"
  by (auto simp: masked_handshake_def accept_masked_init_def print_client_connected_banner_def
      session_entered_def Let_def hkdf_expand_def length_hkdf
      split: if_splits option.splits)

lemma raw_handshake_state:
  "crypto_ok C \<Longrightarrow> raw_handshake C E st a data priv pub = (st', outs) \<Longrightarrow>
   st' = st \<or> session_entered st a st'"
  by (auto simp: raw_handshake_def print_client_connected_banner_def session_entered_def Let_def
      hkdf_extract_and_expand_def length_hkdf split: if_splits option.splits)

lemma resume_session_state:
  "crypto_ok C \<Longrightarrow> resume_session C st a data = (st', outs) \<Longrightarrow>
   st' = st \<or> session_entered st a st'"
  by (auto simp: resume_session_def session_entered_def Let_def hkdf_expand_def length_hkdf
      split: if_splits option.splits)

text \<open>The inner frame touches the stream table and a counter only.\<close>

lemma handle_client_payload_fields:
  assumes "handle_client_payload E st pt a = (st', outs, ex)"
  shows "sv_master_key st' = sv_master_key st" "sv_mask_key st' = sv_mask_key st"
    "sv_raw_kid st' = sv_raw_kid st" "sv_rkey st' = sv_rkey st" "sv_replay st' = sv_replay st"
    "sv_recv_key st' = sv_recv_key st" "sv_send_key st' = sv_send_key st"
    "sv_client_addr st' = sv_client_addr st" "sv_tx_seq st' = sv_tx_seq st"
  using assms
  by (auto simp: handle_client_payload_def Let_def split: if_splits option.splits sum.splits)

lemma handle_client_payload_wf:
  "server_wf st \<Longrightarrow> handle_client_payload E st pt a = (st', outs, ex) \<Longrightarrow> server_wf st'"
  by (auto simp: server_wf_def handle_client_payload_fields)

lemma open_frame_wf:
  assumes "server_wf st" "sv_recv_key st = Some rk" "open_frame C E st a data rk ch off = (st', outs, ex)"
  shows "server_wf st'"
proof -
  have "server_wf (if sv_client_addr st \<noteq> Some a then st\<lparr>sv_client_addr := Some a\<rparr> else st)"
    using assms(1,2) by (auto simp: server_wf_def)
  then show ?thesis
    using assms by (auto simp: open_frame_def Let_def split: option.splits if_splits
        intro: handle_client_payload_wf)
qed

lemma replay_updated_wf:
  "server_wf st \<Longrightarrow> server_wf (st\<lparr>sv_replay := snd (check_and_update (sv_replay st) q)\<rparr>)"
  by (auto simp: server_wf_def check_and_update_keeps_wf)

lemma data_frame_wf:
  assumes "server_wf st" "data_frame C E st a data = (st', outs, ex)"
  shows "server_wf st'"
proof (cases "sv_recv_key st")
  case (Some rk)
  show ?thesis
  proof (cases "frame_fields C st data")
    case None
    with Some assms show ?thesis by (simp add: data_frame_def)
  next
    case (Some fo)
    obtain ch off where fo: "fo = (ch, off)" by (cases fo)
    obtain r f where c: "check_and_update (sv_replay st) (frame_seq data off) = (r, f)"
      by (cases "check_and_update (sv_replay st) (frame_seq data off)")
    have wf: "server_wf (st\<lparr>sv_replay := f\<rparr>)"
      using replay_updated_wf [OF assms(1), of "frame_seq data off"] c by simp
    from assms(2) \<open>sv_recv_key st = Some rk\<close> Some fo c show ?thesis
      by (auto simp: data_frame_def wf split: sum.splits if_splits intro: open_frame_wf [OF wf])
  qed
qed (use assms in \<open>simp add: data_frame_def\<close>)

lemma process_packet_wf:
  assumes "crypto_ok C" "server_wf st" "process_packet C E st a data priv pub = (st', outs, ex)"
  shows "server_wf st'"
proof -
  obtain st1 outs1 d where m: "masked_handshake C E st a data priv pub = (st1, outs1, d)"
    by (cases "masked_handshake C E st a data priv pub")
  have wf1: "server_wf st1"
    using masked_handshake_state [OF assms(1) m] assms(2) by (auto intro: session_entered_wf)
  have wf2: "server_wf (fst (raw_handshake C E st1 a data priv pub))"
    "server_wf (fst (resume_session C st1 a data))"
    using raw_handshake_state [OF assms(1)] resume_session_state [OF assms(1)] wf1
    by (metis session_entered_wf prod.collapse)+
  from assms(2,3) m wf1 wf2 show ?thesis
    by (auto simp: process_packet_def split: if_splits bool.splits prod.splits dest: data_frame_wf [OF wf1])
qed

lemma on_datagram_wf:
  assumes "crypto_ok C" "server_wf st" "on_datagram C E st a data priv pub = (st', outs)"
  shows "server_wf st'"
proof -
  have "server_wf (st\<lparr>sv_packets_rx := n, sv_bytes_rx := m\<rparr>)" for n m
    using assms(2) by (simp add: server_wf_def)
  then show ?thesis
    using assms by (auto simp: on_datagram_def split: if_splits prod.splits dest: process_packet_wf)
qed

section \<open>Sent frames\<close>

text \<open>The datagram that \<open>send_aegs_frame\<close> builds from the packed fields.\<close>

definition sent_frame :: "crypto \<Rightarrow> env \<Rightarrow> server \<Rightarrow> bytes \<Rightarrow> bytes \<Rightarrow> bytes \<Rightarrow> bytes \<Rightarrow> bytes" where
  "sent_frame C E st sk sid c payload =
     (let e = ent E;
          nonce = le_bytes 8 (sv_tx_seq st + 1) @ token_bytes e 64 4;
          outer = outer_header C (sv_mask_key st) (sv_raw_kid st) (token_bytes e 68 12) 0 (token_bytes e 80 8)
      in outer @ nonce @ aead_encrypt C sk nonce
           (sid @ c @ payload @ token_bytes e 1 (16 + randbelow e 0 33)) (Some outer))"

lemma send_aegs_frame_eq:
  "send_aegs_frame C E st sid cmd payload =
     (case (sv_client_addr st, sv_send_key st) of
        (Some a, Some sk) \<Rightarrow>
          (case (pack_be 4 (int sid), pack_be 1 (int cmd)) of
             (Some s, Some c) \<Rightarrow>
               (if sv_tx_seq st + 1 < 2 ^ 64 then
                  if send_ok E
                  then (st\<lparr>sv_tx_seq := sv_tx_seq st + 1, sv_packets_tx := sv_packets_tx st + 1\<rparr>,
                        [SendTo (sent_frame C E st sk s c payload) a], None)
                  else (st\<lparr>sv_tx_seq := sv_tx_seq st + 1\<rparr>, [], None)
                else (st\<lparr>sv_tx_seq := sv_tx_seq st + 1\<rparr>, [], Some StructError))
           | _ \<Rightarrow> (st, [], Some StructError))
      | _ \<Rightarrow> (st, [], None))"
  by (simp only: send_aegs_frame_def sent_frame_def Let_def server.simps simp_thms if_True if_False
      cong: option.case_cong prod.case_cong split: option.split)
    (simp split: option.split)

text \<open>What one call of \<open>send_aegs_frame\<close> can do: nothing, or use up one sequence number.\<close>

lemma send_aegs_frame_cases:
  assumes "send_aegs_frame C E st sid cmd payload = (st', outs, ex)"
  obtains "st' = st" "outs = []"
  | n where "st' = st\<lparr>sv_tx_seq := sv_tx_seq st + 1, sv_packets_tx := n\<rparr>" "outs = []"
  | n pkt a where "st' = st\<lparr>sv_tx_seq := sv_tx_seq st + 1, sv_packets_tx := n\<rparr>" "outs = [SendTo pkt a]"
      "sv_client_addr st = Some a" "sv_tx_seq st + 1 < 2 ^ 64"
      "sv_send_key st \<noteq> None" "ex = None"
proof (cases "sv_client_addr st = None \<or> sv_send_key st = None \<or> pack_be 4 (int sid) = None \<or> pack_be 1 (int cmd) = None")
  case True
  then have "st' = st" "outs = []"
    using assms by (auto simp: send_aegs_frame_def split: option.splits)
  then show thesis by (rule that(1))
next
  case False
  then obtain a sk s c where v: "sv_client_addr st = Some a" "sv_send_key st = Some sk"
    "pack_be 4 (int sid) = Some s" "pack_be 1 (int cmd) = Some c" by auto
  from assms v have r: "(st', outs, ex) =
     (if sv_tx_seq st + 1 < 2 ^ 64 then
        if send_ok E
        then (st\<lparr>sv_tx_seq := sv_tx_seq st + 1, sv_packets_tx := sv_packets_tx st + 1\<rparr>,
              [SendTo (sent_frame C E st sk s c payload) a], None)
        else (st\<lparr>sv_tx_seq := sv_tx_seq st + 1\<rparr>, [], None)
      else (st\<lparr>sv_tx_seq := sv_tx_seq st + 1\<rparr>, [], Some StructError))"
    by (simp add: send_aegs_frame_eq)
  have keep: "st\<lparr>sv_tx_seq := m\<rparr> = st\<lparr>sv_tx_seq := m, sv_packets_tx := sv_packets_tx st\<rparr>" for m
    by simp
  show thesis
  proof (cases "sv_tx_seq st + 1 < 2 ^ 64 \<and> send_ok E")
    case True
    with r have "st' = st\<lparr>sv_tx_seq := sv_tx_seq st + 1, sv_packets_tx := sv_packets_tx st + 1\<rparr>"
      "outs = [SendTo (sent_frame C E st sk s c payload) a]" "ex = None" by simp_all
    moreover have "sv_send_key st \<noteq> None" using v by simp
    ultimately show thesis using True v(1) that(3) by blast
  next
    case False
    with r have "st' = st\<lparr>sv_tx_seq := sv_tx_seq st + 1\<rparr>" "outs = []"
      by (cases "sv_tx_seq st + 1 < 2 ^ 64"; cases "send_ok E"; simp)+
    then show thesis using keep [of "sv_tx_seq st + 1"] that(2) by metis
  qed
qed

lemma server_wf_counters:
  "server_wf (st\<lparr>sv_tx_seq := m, sv_packets_tx := n\<rparr>) = server_wf st"
  "server_wf (st\<lparr>sv_bytes_tx := n\<rparr>) = server_wf st"
  "server_wf (st\<lparr>sv_streams := s\<rparr>) = server_wf st"
  by (simp_all add: server_wf_def)

lemma send_aegs_frame_wf:
  "server_wf st \<Longrightarrow> send_aegs_frame C E st sid cmd payload = (st', outs, ex) \<Longrightarrow> server_wf st'"
  by (elim send_aegs_frame_cases) (simp_all add: server_wf_counters)

lemma proxy_chunk_wf:
  "server_wf st \<Longrightarrow> proxy_chunk C E st sid chunk = (st', outs, ex) \<Longrightarrow> server_wf st'"
  by (auto simp: proxy_chunk_def server_wf_counters split: prod.splits option.splits dest: send_aegs_frame_wf)

lemma proxy_finally_wf:
  "server_wf st \<Longrightarrow> proxy_finally C E st sid sock = (st', outs, ex) \<Longrightarrow> server_wf st'"
  by (auto simp: proxy_finally_def server_wf_counters split: prod.splits option.splits
      dest!: send_aegs_frame_wf [rotated])

section \<open>The server as a transition system\<close>

text \<open>
  Datagrams and the steps of any number of proxy threads, in any order. The label is the
  list of frames that \<open>send_aegs_frame\<close> put on the wire in the step.
\<close>

definition sent_packets :: "srv_out list \<Rightarrow> bytes list" where
  "sent_packets outs = concat (map (\<lambda>x. case x of SendTo p a \<Rightarrow> [p] | _ \<Rightarrow> []) outs)"

inductive srv_step :: "crypto \<Rightarrow> bytes \<Rightarrow> bytes \<Rightarrow> server \<Rightarrow> bytes list \<Rightarrow> server \<Rightarrow> bool"
  for C priv pub where
  datagram: "on_datagram C E st a data priv pub = (st', outs) \<Longrightarrow> srv_step C priv pub st [] st'"
| connected: "srv_step C priv pub st [] (proxy_connected st sid sock)"
| chunk: "proxy_chunk C E st sid chunk = (st', outs, ex) \<Longrightarrow>
    srv_step C priv pub st (sent_packets outs) st'"
| finally_block: "proxy_finally C E st sid sock = (st', outs, ex) \<Longrightarrow>
    srv_step C priv pub st (sent_packets outs) st'"

inductive srv_run :: "crypto \<Rightarrow> bytes \<Rightarrow> bytes \<Rightarrow> server \<Rightarrow> bytes list \<Rightarrow> server \<Rightarrow> bool"
  for C priv pub st where
  start: "srv_run C priv pub st [] st"
| step: "srv_run C priv pub st ps st1 \<Longrightarrow> srv_step C priv pub st1 qs st2 \<Longrightarrow>
    srv_run C priv pub st (ps @ qs) st2"

inductive_cases srv_stepE: "srv_step C priv pub st ps st'"

lemma srv_step_wf: "srv_step C priv pub st ps st' \<Longrightarrow> crypto_ok C \<Longrightarrow> server_wf st \<Longrightarrow> server_wf st'"
  by (erule srv_stepE)
    (auto intro: on_datagram_wf proxy_chunk_wf proxy_finally_wf simp: proxy_connected_def server_wf_counters)

lemma srv_run_wf: "srv_run C priv pub st ps st' \<Longrightarrow> crypto_ok C \<Longrightarrow> server_wf st \<Longrightarrow> server_wf st'"
  by (induction rule: srv_run.induct) (auto intro: srv_step_wf)

section \<open>Sequence numbers of sent frames\<close>

text \<open>A frame of \<open>send_aegs_frame\<close> has eight bytes of junk: its nonce starts at byte 36.\<close>

definition sent_seq :: "bytes \<Rightarrow> nat" where
  "sent_seq pkt = frame_seq pkt 36"

lemma length_outer_header:
  "crypto_ok C \<Longrightarrow> length iv = 12 \<Longrightarrow> length kid = 8 \<Longrightarrow>
   length (outer_header C mk kid iv flag junk) = 28 + length junk"
  by (simp add: outer_header_def mask_unmask_header_def length_chacha20 plain_header_def pybytes)

lemma send_aegs_frame_seq:
  assumes "crypto_ok C" "server_wf st" "send_aegs_frame C E st sid cmd payload = (st', outs, ex)"
    and "pkt \<in> set (sent_packets outs)"
  shows "sent_seq pkt = sv_tx_seq st + 1 \<and> sv_tx_seq st' = sv_tx_seq st + 1 \<and> sent_packets outs = [pkt]"
proof -
  define m where "m = sv_tx_seq st + 1"
  have l8: "length (le_bytes 8 m) = 8" by (rule length_le_bytes)
  have "length (sv_raw_kid st) = 8" using assms(2) by (simp add: server_wf_def)
  then have lo: "length (outer_header C (sv_mask_key st) (sv_raw_kid st) (token_bytes (ent E) 68 12) 0
      (token_bytes (ent E) 80 8)) = 36"
    using assms(1) by (simp add: length_outer_header length_token_bytes)
  have seq: "sent_seq (x @ (le_bytes 8 m @ y) @ z) = m" if "length x = 36" "length y = 4" "m < 2 ^ 64" for x y z
    using that l8 le_val_le_bytes [of m 8]
    by (simp add: sent_seq_def frame_seq_def frame_nonce_def slice_def)
  from assms(3,4) seq [OF lo] show ?thesis
    by (auto simp: send_aegs_frame_def sent_packets_def Let_def length_token_bytes m_def
        split: option.splits if_splits)
qed

lemma sent_packets_append [simp]: "sent_packets (xs @ ys) = sent_packets xs @ sent_packets ys"
  by (simp add: sent_packets_def)

lemma sent_packets_shut [simp]: "sent_packets [StreamShut s] = []" "sent_packets [] = []"
  by (simp_all add: sent_packets_def)

lemma on_datagram_tx_seq:
  assumes "crypto_ok C" "on_datagram C E st a data priv pub = (st', outs)"
  shows "sv_tx_seq st' = sv_tx_seq st"
proof -
  have df: "data_frame C E s a data = (s', o', e') \<Longrightarrow> sv_tx_seq s' = sv_tx_seq s" for s s' o' e'
    by (auto simp: data_frame_def open_frame_def Let_def handle_client_payload_fields
        split: option.splits prod.splits sum.splits if_splits)
  have mh: "masked_handshake C E s a data priv pub = (s', o', d) \<Longrightarrow> sv_tx_seq s' = sv_tx_seq s" for s s' o' d
    using masked_handshake_state [OF assms(1)] by (fastforce simp: session_entered_def)
  have rh: "raw_handshake C E s a data priv pub = (s', o') \<Longrightarrow> sv_tx_seq s' = sv_tx_seq s" for s s' o'
    using raw_handshake_state [OF assms(1)] by (fastforce simp: session_entered_def)
  have rs: "resume_session C s a data = (s', o') \<Longrightarrow> sv_tx_seq s' = sv_tx_seq s" for s s' o'
    using resume_session_state [OF assms(1)] by (fastforce simp: session_entered_def)
  from assms(2) show ?thesis
    by (auto simp: on_datagram_def process_packet_def split: if_splits prod.splits bool.splits
        dest!: df mh rh rs)
qed

lemma srv_step_seqs:
  assumes "srv_step C priv pub st ps st'" "crypto_ok C" "server_wf st"
  shows "sv_tx_seq st \<le> sv_tx_seq st' \<and> sorted_wrt (<) (map sent_seq ps) \<and>
    (\<forall>p \<in> set ps. sv_tx_seq st < sent_seq p \<and> sent_seq p \<le> sv_tx_seq st')"
proof -
  have one: "sv_tx_seq s \<le> sv_tx_seq s' \<and> sorted_wrt (<) (map sent_seq (sent_packets outs)) \<and>
      (\<forall>p \<in> set (sent_packets outs). sv_tx_seq s < sent_seq p \<and> sent_seq p \<le> sv_tx_seq s')"
    if "send_aegs_frame C E s sid cmd payload = (s', outs, ex)" "server_wf s" for E s sid cmd payload s' outs ex
  proof (cases "sent_packets outs")
    case Nil
    with that(1) show ?thesis by (auto elim: send_aegs_frame_cases)
  next
    case (Cons p _)
    with send_aegs_frame_seq [OF assms(2) that(2,1), of p] show ?thesis by auto
  qed
  show ?thesis
    using assms(1)
  proof (cases rule: srv_step.cases)
    case (datagram E a data outs)
    then show ?thesis using on_datagram_tx_seq [OF assms(2)] by auto
  next
    case (connected sid sock)
    then show ?thesis by (simp add: proxy_connected_def)
  next
    case (chunk E sid ch outs ex)
    then show ?thesis
      by (auto simp: proxy_chunk_def split: prod.splits option.splits dest!: one [OF _ assms(3)])
  next
    case (finally_block E sid sock outs ex)
    have "server_wf (st\<lparr>sv_streams := (sv_streams st)(sid := None)\<rparr>)"
      using assms(3) by (simp add: server_wf_counters)
    from finally_block one [OF _ this] show ?thesis
      by (fastforce simp: proxy_finally_def split: prod.splits option.splits)
  qed
qed

lemma srv_run_seqs:
  assumes "srv_run C priv pub st ps st'" "crypto_ok C" "server_wf st"
  shows "sv_tx_seq st \<le> sv_tx_seq st' \<and> sorted_wrt (<) (map sent_seq ps) \<and>
    (\<forall>p \<in> set ps. sv_tx_seq st < sent_seq p \<and> sent_seq p \<le> sv_tx_seq st')"
  using assms
proof (induction rule: srv_run.induct)
  case (step ps st1 qs st2)
  then show ?case
    using srv_step_seqs [OF step.hyps(2) assms(2) srv_run_wf [OF step.hyps(1) assms(2,3)]]
    by (fastforce simp: sorted_wrt_append)
qed simp

section \<open>Properties\<close>

text \<open>In every state the server can reach from its constructor, through any datagrams and any
  interleaving of proxy threads, all keys have the length their cipher wants, the replay window has
  its shape, and session keys and client address are present together or not at all.\<close>
theorem reachable_wf:
  assumes "crypto_ok C" "server_init C bp token pc = Inr st0" "srv_run C priv pub st0 ps st"
  shows "server_wf st"
  by (rule srv_run_wf [OF assms(3,1) server_init_wf [OF assms(1,2)]])

lemma server_init_empty: "\<exists>st0. server_init C bp [] pc = Inr st0"
  by (simp add: server_init_def Let_def)

theorem reachable_wf_witness:
  "\<exists>st0. server_init toy_crypto 50001 [] 10 = Inr st0 \<and> server_wf (proxy_connected st0 101 7)"
proof -
  obtain st0 where i: "server_init toy_crypto 50001 [] 10 = Inr st0" using server_init_empty by blast
  have "srv_run toy_crypto [] [] st0 ([] @ []) (proxy_connected st0 101 7)"
    by (rule srv_run.step [OF srv_run.start srv_step.connected])
  from reachable_wf [OF toy_crypto_ok i this] i show ?thesis by blast
qed



end
