(* ===== verification/ServerAuth.thy ===== *)
theory ServerAuth
  imports ServerInv
begin

text \<open>
  Which datagrams can move \<open>AegsServer\<close>: the four ways a packet can prove knowledge of a
  key, and what a packet that proves none of them leaves behind. The dispatcher's order
  also sends some genuine data frames down the wrong branch.
\<close>

section \<open>Authentication\<close>

definition header_ok :: "crypto \<Rightarrow> server \<Rightarrow> bytes \<Rightarrow> bool" where
  "header_ok C st data \<longleftrightarrow>
     (let u = mask_unmask_header C (slice data 12 28) (sv_mask_key st) (slice data 0 12)
      in slice u 0 8 = sv_raw_kid st \<and> slice u 12 16 = ver_magic)"

definition header_offset :: "crypto \<Rightarrow> server \<Rightarrow> bytes \<Rightarrow> nat" where
  "header_offset C st data =
     28 + be_val (slice (mask_unmask_header C (slice data 12 28) (sv_mask_key st) (slice data 0 12)) 8 10)"

text \<open>The sealed part of a datagram opens under key \<open>k\<close> with its own outer header.\<close>

definition opens_with :: "crypto \<Rightarrow> bytes \<Rightarrow> bytes \<Rightarrow> nat \<Rightarrow> bytes option" where
  "opens_with C k data off =
     aead_decrypt C k (slice data off (off + 12)) (drop (off + 12) data) (Some (slice data 0 off))"

definition auth_init :: "crypto \<Rightarrow> server \<Rightarrow> bytes \<Rightarrow> bool" where
  "auth_init C st data \<longleftrightarrow>
     header_ok C st data \<and>
     (case opens_with C (hkdf_expand C (sv_master_key st) (bstr ''AEGS-V4-HANDSHAKE-INIT-KEY'') 32)
             data (header_offset C st data) of
        None \<Rightarrow> False
      | Some pt \<Rightarrow> length pt = 48 \<and> slice pt 32 48 =
          take 16 (hmac_sha256 (hkdf_expand C (sv_master_key st) (bstr ''AEGS-V4-HANDSHAKE-SALT'') 32)
                    (slice pt 0 32)))"

definition auth_raw :: "server \<Rightarrow> bytes \<Rightarrow> bool" where
  "auth_raw st data \<longleftrightarrow>
     slice data 8 16 = sv_raw_kid st \<and>
     slice data 56 72 = take 16 (hmac_sha256 (sv_master_key st) (slice data 0 56))"

definition auth_resume :: "crypto \<Rightarrow> server \<Rightarrow> bytes \<Rightarrow> bool" where
  "auth_resume C st data \<longleftrightarrow>
     aead_decrypt C (sv_rkey st) (slice (slice data 1 97) 0 12) (slice (slice data 1 97) 12 64) None \<noteq> None"

definition auth_data :: "crypto \<Rightarrow> server \<Rightarrow> bytes \<Rightarrow> bool" where
  "auth_data C st data \<longleftrightarrow>
     (\<exists>rk. sv_recv_key st = Some rk \<and> header_ok C st data \<and>
        opens_with C rk data (header_offset C st data) \<noteq> None)"

definition authenticated :: "crypto \<Rightarrow> server \<Rightarrow> bytes \<Rightarrow> bool" where
  "authenticated C st data \<longleftrightarrow>
     auth_init C st data \<or> auth_raw st data \<or> auth_resume C st data \<or> auth_data C st data"

definition log_only :: "srv_out list \<Rightarrow> bool" where
  "log_only outs \<longleftrightarrow> (\<forall>x \<in> set outs. \<exists>l. x = Log l)"

lemma log_only_simps [simp]: "log_only []" "log_only (Log l # outs) = log_only outs"
  by (auto simp: log_only_def)

text \<open>At most the replay filter has changed.\<close>

definition replay_only :: "server \<Rightarrow> server \<Rightarrow> bool" where
  "replay_only st st' \<longleftrightarrow> st'\<lparr>sv_replay := sv_replay st\<rparr> = st"

lemma replay_only_simps [simp]: "replay_only st st" "replay_only st (st\<lparr>sv_replay := f\<rparr>)"
  by (simp_all add: replay_only_def)

section \<open>What an unauthenticated packet can do\<close>

lemma masked_handshake_inert:
  "masked_handshake C E st a data priv pub = (st', outs, d) \<Longrightarrow> \<not> auth_init C st data \<Longrightarrow>
   st' = st \<and> log_only outs"
  by (auto simp: masked_handshake_def accept_masked_init_def auth_init_def header_ok_def header_offset_def
      opens_with_def Let_def split: if_splits option.splits)

lemma raw_handshake_inert:
  "raw_handshake C E st a data priv pub = (st', outs) \<Longrightarrow> \<not> auth_raw st data \<Longrightarrow> st' = st \<and> log_only outs"
  by (auto simp: raw_handshake_def auth_raw_def split: if_splits)

lemma resume_session_inert:
  "resume_session C st a data = (st', outs) \<Longrightarrow> \<not> auth_resume C st data \<Longrightarrow> st' = st \<and> log_only outs"
  by (auto simp: resume_session_def auth_resume_def Let_def split: option.splits)

lemma frame_fields_header:
  "frame_fields C st data = Some (ch, off) \<Longrightarrow> header_ok C st data \<and> off = header_offset C st data"
  by (auto simp: frame_fields_def header_ok_def header_offset_def Let_def split: if_splits)

lemma data_frame_inert:
  assumes "data_frame C E st a data = (st', outs, ex)" "\<not> auth_data C st data"
  shows "replay_only st st' \<and> log_only outs"
proof (cases "sv_recv_key st = None \<or> frame_fields C st data = None")
  case True
  with assms show ?thesis by (auto simp: data_frame_def split: option.splits)
next
  case False
  then obtain rk ch off where k: "sv_recv_key st = Some rk" "frame_fields C st data = Some (ch, off)" by auto
  have "aead_decrypt C rk (frame_nonce data off) (drop (off + 12) data) (Some (slice data 0 off)) = None"
    using assms(2) k frame_fields_header [OF k(2)]
    by (auto simp: auth_data_def opens_with_def frame_nonce_def)
  with assms(1) k show ?thesis
    by (auto simp: data_frame_def open_frame_def split: prod.splits sum.splits if_splits)
qed

lemma process_packet_inert:
  assumes "process_packet C E st a data priv pub = (st', outs, ex)" "\<not> authenticated C st data"
  shows "replay_only st st' \<and>
    (log_only outs \<or> (length data = 20 \<and> outs = [SendTo (stun_decoy (ent E)) a, Log (LogStun a)]))"
proof -
  obtain outs1 d where m: "masked_handshake C E st a data priv pub = (st, outs1, d)" "log_only outs1"
    using masked_handshake_inert [of C E st a data priv pub] assms(2)
    by (metis authenticated_def prod_cases3)
  obtain o2 where raw: "raw_handshake C E st a data priv pub = (st, o2)" "log_only o2"
    using raw_handshake_inert [of C E st a data priv pub] assms(2) by (metis authenticated_def surj_pair)
  obtain o3 where res: "resume_session C st a data = (st, o3)" "log_only o3"
    using resume_session_inert [of C st a data] assms(2) by (metis authenticated_def surj_pair)
  obtain s4 o4 e4 where dat: "data_frame C E st a data = (s4, o4, e4)" "replay_only st s4" "log_only o4"
    using data_frame_inert [of C E st a data] assms(2) by (metis authenticated_def prod_cases3)
  show ?thesis
    using assms(1) m raw res dat
    by (auto simp: process_packet_def split: if_splits bool.splits)
qed

section \<open>Response sizes\<close>

lemma length_handshake_response:
  assumes "crypto_ok C" "server_wf st" "length hs = 32" "length pub = 32"
  shows "length (handshake_response C e st hs salt pub) = 152"
proof -
  have "length (sv_raw_kid st) = 8" using assms(2) by (simp add: server_wf_def)
  with assms(1,3,4) show ?thesis
    by (simp add: handshake_response_def Let_def length_outer_header length_aead pybytes)
qed

text \<open>Every datagram the server sends in answer to a packet, and its size.\<close>

definition reply_sizes :: "srv_out list \<Rightarrow> nat list" where
  "reply_sizes outs = map length (sent_packets outs)"

lemma reply_sizes_simps [simp]:
  "reply_sizes [] = []" "reply_sizes (Log l # outs) = reply_sizes outs"
  "reply_sizes (SendTo p a # outs) = length p # reply_sizes outs"
  by (simp_all add: reply_sizes_def sent_packets_def)

lemma reply_sizes_log_only: "log_only outs \<Longrightarrow> reply_sizes outs = []"
  by (induction outs) (auto simp: log_only_def)

lemma reply_sizes_payload:
  "handle_client_payload E st pt a = (st', outs, ex) \<Longrightarrow> reply_sizes outs = []"
  by (auto simp: handle_client_payload_def Let_def reply_sizes_def sent_packets_def
      split: if_splits option.splits sum.splits)

lemma reply_sizes_data_frame: "data_frame C E st a data = (st', outs, ex) \<Longrightarrow> reply_sizes outs = []"
  by (auto simp: data_frame_def open_frame_def Let_def dest: reply_sizes_payload
      split: option.splits prod.splits sum.splits if_splits)

lemma reply_sizes_masked:
  assumes "crypto_ok C" "server_wf st" "length pub = 32"
    and "masked_handshake C E st a data priv pub = (st', outs, d)"
  shows "reply_sizes outs = [] \<or> (reply_sizes outs = [152] \<and> 88 \<le> length data \<and> auth_init C st data)"
proof -
  have wf: "server_wf (st\<lparr>sv_recv_key := Some rk, sv_send_key := Some sk, sv_client_addr := Some a,
      sv_replay := new_filter 2048\<rparr>)" if "length rk = 32" "length sk = 32" for rk sk
    using that assms(2) by (simp add: server_wf_def new_filter_2048)
  show ?thesis
    using assms(3,4) length_handshake_response [OF assms(1) wf _ assms(3)]
    by (auto simp: masked_handshake_def accept_masked_init_def print_client_connected_banner_def Let_def
        auth_init_def header_ok_def header_offset_def opens_with_def
        hkdf_expand_def length_hkdf [OF assms(1)] split: if_splits option.splits)
qed

lemma reply_sizes_raw:
  assumes "crypto_ok C" "length pub = 32" "raw_handshake C E st a data priv pub = (st', outs)"
  shows "reply_sizes outs = [] \<or> (reply_sizes outs = [80] \<and> auth_raw st data)"
  using assms(2,3)
  by (auto simp: raw_handshake_def print_client_connected_banner_def Let_def auth_raw_def
      raw_config_def length_aead [OF assms(1)] hkdf_extract_and_expand_def length_hkdf [OF assms(1)] pybytes
      split: if_splits option.splits)

section \<open>The receive loop\<close>

lemma authenticated_counters:
  "authenticated C (st\<lparr>sv_packets_rx := n, sv_bytes_rx := m\<rparr>) data = authenticated C st data"
  by (simp add: authenticated_def auth_init_def auth_raw_def auth_resume_def auth_data_def header_ok_def
      header_offset_def cong: option.case_cong)

text \<open>At most the receive counters and the replay filter have changed.\<close>

definition session_kept :: "server \<Rightarrow> server \<Rightarrow> bool" where
  "session_kept st st' \<longleftrightarrow>
     sv_recv_key st' = sv_recv_key st \<and> sv_send_key st' = sv_send_key st \<and>
     sv_client_addr st' = sv_client_addr st \<and> sv_tx_seq st' = sv_tx_seq st \<and>
     sv_streams st' = sv_streams st \<and> sv_seen_nonces st' = sv_seen_nonces st \<and>
     sv_active st' = sv_active st"

lemma replay_only_session_kept:
  "replay_only (st\<lparr>sv_packets_rx := n, sv_bytes_rx := m\<rparr>) st' \<Longrightarrow> session_kept st st'"
  by (cases st; cases st') (simp add: replay_only_def session_kept_def)

lemma length_stun_decoy [pybytes]: "length (stun_decoy e) = 20"
  by (simp add: stun_decoy_def length_token_bytes)

lemma reply_sizes_resume: "resume_session C st a data = (st', outs) \<Longrightarrow> reply_sizes outs = []"
  by (auto simp: resume_session_def Let_def split: option.splits if_splits)

lemma process_packet_reply_sizes:
  assumes "crypto_ok C" "server_wf st" "length pub = 32"
    and "process_packet C E st a data priv pub = (st', outs, ex)"
  shows "reply_sizes outs = [] \<or> (reply_sizes outs = [20] \<and> length data = 20) \<or>
    (reply_sizes outs = [152] \<and> 88 \<le> length data) \<or> (reply_sizes outs = [80] \<and> 72 \<le> length data)"
proof (cases "length data < 20 \<or> take 2 data = [0, 1] \<and> length data = 20")
  case True
  with assms(4) show ?thesis
    by (auto simp: process_packet_def length_stun_decoy split: if_splits)
next
  case False
  obtain st1 o1 d where m: "masked_handshake C E st a data priv pub = (st1, o1, d)"
    by (cases "masked_handshake C E st a data priv pub")
  show ?thesis
  proof (cases d)
    case True
    with False m assms(4) have "outs = o1" by (auto simp: process_packet_def)
    with reply_sizes_masked [OF assms(1-3) m] show ?thesis by auto
  next
    case d: False
    obtain s2 o2 where raw: "raw_handshake C E st1 a data priv pub = (s2, o2)" by fastforce
    obtain s3 o3 where res: "resume_session C st1 a data = (s3, o3)" by fastforce
    obtain s4 o4 e4 where dat: "data_frame C E st1 a data = (s4, o4, e4)"
      by (cases "data_frame C E st1 a data")
    have "outs = (if data ! 0 = 1 \<and> 72 \<le> length data then o2
        else if data ! 0 = 4 \<and> 97 \<le> length data then o3 else o4)"
      using False d m raw res dat assms(4) by (auto simp: process_packet_def split: if_splits)
    then show ?thesis
      using reply_sizes_raw [OF assms(1,3) raw] reply_sizes_resume [OF res] reply_sizes_data_frame [OF dat]
      by auto
  qed
qed

section \<open>An accepted initiation\<close>

definition hs_key :: "crypto \<Rightarrow> server \<Rightarrow> bytes" where
  "hs_key C st = hkdf_expand C (sv_master_key st) (bstr ''AEGS-V4-HANDSHAKE-INIT-KEY'') 32"

definition hs_salt :: "crypto \<Rightarrow> server \<Rightarrow> bytes" where
  "hs_salt C st = hkdf_expand C (sv_master_key st) (bstr ''AEGS-V4-HANDSHAKE-SALT'') 32"

definition c2s_key :: "crypto \<Rightarrow> bytes \<Rightarrow> bytes" where
  "c2s_key C shared = hkdf_expand C shared (bstr ''AEGS-V4-CLIENT-WRITE-KEY-2026'') 32"

definition s2c_key :: "crypto \<Rightarrow> bytes \<Rightarrow> bytes" where
  "s2c_key C shared = hkdf_expand C shared (bstr ''AEGS-V4-SERVER-WRITE-KEY-2026'') 32"

text \<open>The datagram is an initiation that the server will accept, with X25519 secret \<open>shared\<close>.\<close>

definition valid_init :: "crypto \<Rightarrow> server \<Rightarrow> bytes \<Rightarrow> bytes \<Rightarrow> bytes \<Rightarrow> bool" where
  "valid_init C st priv data shared \<longleftrightarrow>
     header_ok C st data \<and> header_offset C st data + 60 \<le> length data \<and>
     (case opens_with C (hs_key C st) data (header_offset C st data) of
        None \<Rightarrow> False
      | Some pt \<Rightarrow> length pt = 48 \<and> slice pt 32 48 = take 16 (hmac_sha256 (hs_salt C st) (slice pt 0 32)) \<and>
          x25519_exchange C priv (slice pt 0 32) = Some shared)"

definition session_state :: "crypto \<Rightarrow> server \<Rightarrow> addr \<Rightarrow> bytes \<Rightarrow> server" where
  "session_state C st a shared =
     st\<lparr>sv_recv_key := Some (c2s_key C shared), sv_send_key := Some (s2c_key C shared),
        sv_client_addr := Some a, sv_replay := new_filter 2048\<rparr>"

lemma handshake_response_cong:
  "sv_mask_key st = sv_mask_key st' \<Longrightarrow> sv_raw_kid st = sv_raw_kid st' \<Longrightarrow>
   handshake_response C e st k s p = handshake_response C e st' k s p"
  by (simp add: handshake_response_def)

lemma masked_handshake_accepts:
  assumes "valid_init C st priv data shared" "send_ok E"
  shows "masked_handshake C E st a data priv pub =
    (case print_client_connected_banner E (session_state C st a shared) a NativeHandshake of
       (st2, outs) \<Rightarrow> (st2, SendTo (handshake_response C (ent E) st (hs_key C st) (hs_salt C st) pub) a # outs, True))"
proof -
  have off: "28 \<le> header_offset C st data" by (simp add: header_offset_def)
  have len: "88 \<le> length data" "\<not> length data < header_offset C st data + 12 + 48"
    using assms(1) off by (simp_all add: valid_init_def)
  have resp: "handshake_response C e (session_state C st a shared) k s p = handshake_response C e st k s p" for e k s p
    by (rule handshake_response_cong) (simp_all add: session_state_def)
  obtain pt where pt: "opens_with C (hs_key C st) data (header_offset C st data) = Some pt"
    "length pt = 48" "slice pt 32 48 = take 16 (hmac_sha256 (hs_salt C st) (slice pt 0 32))"
    "x25519_exchange C priv (slice pt 0 32) = Some shared"
    using assms(1) by (auto simp: valid_init_def split: option.splits)
  have acc: "accept_masked_init C E st a pt (hs_key C st) priv pub =
    (case print_client_connected_banner E (session_state C st a shared) a NativeHandshake of
       (st2, outs) \<Rightarrow> (st2, SendTo (handshake_response C (ent E) st (hs_key C st) (hs_salt C st) pub) a # outs, True))"
    using pt(2-4) assms(2) resp
    by (simp add: accept_masked_init_def Let_def hs_salt_def [symmetric] c2s_key_def [symmetric]
        s2c_key_def [symmetric] session_state_def)
  show ?thesis
    using assms(1) len pt(1,2) acc
    by (simp add: masked_handshake_def valid_init_def header_ok_def header_offset_def opens_with_def
        hs_key_def Let_def)
qed

lemma on_datagram_accepts:
  assumes "valid_init C st priv data shared" "send_ok E" "on_datagram C E st a data priv pub = (st', outs)"
  shows "sv_recv_key st' = Some (c2s_key C shared)" "sv_send_key st' = Some (s2c_key C shared)"
    "sv_client_addr st' = Some a" "sv_replay st' = new_filter 2048" "sv_streams st' = sv_streams st"
    "sv_tx_seq st' = sv_tx_seq st"
    "SendTo (handshake_response C (ent E) st (hs_key C st) (hs_salt C st) pub) a \<in> set outs"
    "sv_master_key st' = sv_master_key st" "sv_mask_key st' = sv_mask_key st" "sv_raw_kid st' = sv_raw_kid st"
proof -
  let ?st = "st\<lparr>sv_packets_rx := sv_packets_rx st + 1, sv_bytes_rx := sv_bytes_rx st + length data\<rparr>"
  have len: "88 \<le> length data" using assms(1) by (simp add: valid_init_def header_offset_def)
  then have ne: "data \<noteq> []" by auto
  have v: "valid_init C ?st priv data shared"
    using assms(1) by (simp add: valid_init_def header_ok_def header_offset_def hs_key_def hs_salt_def
        cong: option.case_cong)
  have resp: "handshake_response C e ?st (hs_key C ?st) (hs_salt C ?st) p =
      handshake_response C e st (hs_key C st) (hs_salt C st) p" for e p
    using handshake_response_cong [of ?st st] by (simp add: hs_key_def hs_salt_def)
  have "(st', outs) =
    (case print_client_connected_banner E (session_state C ?st a shared) a NativeHandshake of
       (st2, outs) \<Rightarrow> (st2, SendTo (handshake_response C (ent E) st (hs_key C st) (hs_salt C st) pub) a # outs))"
    using assms(3) len ne masked_handshake_accepts [OF v assms(2), of a pub] resp [of "ent E" pub]
    by (auto simp: on_datagram_def process_packet_def split: prod.splits)
  then show "sv_recv_key st' = Some (c2s_key C shared)" "sv_send_key st' = Some (s2c_key C shared)"
    "sv_client_addr st' = Some a" "sv_replay st' = new_filter 2048" "sv_streams st' = sv_streams st"
    "sv_tx_seq st' = sv_tx_seq st"
    "SendTo (handshake_response C (ent E) st (hs_key C st) (hs_salt C st) pub) a \<in> set outs"
    "sv_master_key st' = sv_master_key st" "sv_mask_key st' = sv_mask_key st" "sv_raw_kid st' = sv_raw_kid st"
    by (simp_all add: print_client_connected_banner_def session_state_def)
qed

lemma valid_init_cong:
  "sv_master_key st' = sv_master_key st \<Longrightarrow> sv_mask_key st' = sv_mask_key st \<Longrightarrow> sv_raw_kid st' = sv_raw_kid st \<Longrightarrow>
   valid_init C st' priv data shared = valid_init C st priv data shared"
  by (simp add: valid_init_def header_ok_def header_offset_def hs_key_def hs_salt_def cong: option.case_cong)

text \<open>The handshake stage lets a datagram pass that does not open under the handshake key.\<close>

lemma masked_handshake_passes:
  "opens_with C (hs_key C st) data (header_offset C st data) = None \<Longrightarrow>
   masked_handshake C E st a data priv pub = (st, [], False)"
  by (auto simp: masked_handshake_def opens_with_def hs_key_def header_offset_def Let_def)

lemma frame_fields_counters:
  "frame_fields C (st\<lparr>sv_packets_rx := n, sv_bytes_rx := m\<rparr>) data = frame_fields C st data"
  by (simp add: frame_fields_def Let_def)

text \<open>The stage that \<open>process_packet\<close> reaches when no handshake opens.\<close>

lemma on_datagram_dispatch:
  assumes "opens_with C (hs_key C st) data (header_offset C st data) = None" "28 \<le> length data"
  shows "on_datagram C E st a data priv pub =
    (let st0 = st\<lparr>sv_packets_rx := sv_packets_rx st + 1, sv_bytes_rx := sv_bytes_rx st + length data\<rparr>
     in if data ! 0 = 1 \<and> length data \<ge> 72 then raw_handshake C E st0 a data priv pub
        else if data ! 0 = 4 \<and> length data \<ge> 97 then resume_session C st0 a data
        else (case data_frame C E st0 a data of (st', outs, ex) \<Rightarrow> (st', outs)))"
proof -
  let ?st = "st\<lparr>sv_packets_rx := sv_packets_rx st + 1, sv_bytes_rx := sv_bytes_rx st + length data\<rparr>"
  have "opens_with C (hs_key C ?st) data (header_offset C ?st data) = None"
    using assms(1) by (simp add: hs_key_def header_offset_def)
  from masked_handshake_passes [OF this] assms(2) show ?thesis
    by (auto simp: on_datagram_def process_packet_def Let_def split: prod.splits)
qed

section \<open>Sample states\<close>

text \<open>A concrete server with a session, for the examples; all keys have the right length.\<close>

definition sample_server :: server where
  "sample_server = \<lparr>sv_base_port = 50001, sv_port_count = 10,
     sv_master_key = replicate 32 1, sv_mask_key = replicate 32 2, sv_raw_kid = replicate 8 5,
     sv_client_addr = Some (ustr ''10.0.0.2'', 4000), sv_send_key = Some (replicate 32 3),
     sv_recv_key = Some (replicate 32 4), sv_replay = new_filter 2048, sv_tx_seq = 0,
     sv_streams = [101 \<mapsto> 7], sv_rkey = replicate 32 6, sv_seen_nonces = {},
     sv_packets_rx = 0, sv_packets_tx = 0, sv_bytes_rx = 0, sv_bytes_tx = 0, sv_active = Map.empty\<rparr>"

definition sample_env :: env where
  "sample_env = \<lparr>ent = (\<lambda>_. 9), now_us = 5000000, clock_str = [], send_ok = True, stream_ok = (\<lambda>_. True)\<rparr>"

definition sample_addr :: addr where "sample_addr = (ustr ''10.0.0.9'', 4001)"

lemma sample_server_sel:
  "sv_master_key sample_server = replicate 32 1" "sv_mask_key sample_server = replicate 32 2"
  "sv_raw_kid sample_server = replicate 8 5" "sv_recv_key sample_server = Some (replicate 32 4)"
  "sv_send_key sample_server = Some (replicate 32 3)" "sv_rkey sample_server = replicate 32 6"
  "sv_replay sample_server = new_filter 2048" "sv_streams sample_server = [101 \<mapsto> 7]"
  "sv_client_addr sample_server = Some (ustr ''10.0.0.2'', 4000)" "sv_tx_seq sample_server = 0"
  by (simp_all add: sample_server_def)

lemmas sample_eval = frame_fields_def header_ok_def header_offset_def auth_resume_def hs_key_def sample_server_sel

lemma sample_server_wf: "server_wf sample_server"
  by (simp add: server_wf_def sample_server_def new_filter_2048)

text \<open>
  Two datagrams with a valid masked header: one with sequence number 5000 and a wrong tag, and
  a sealed data frame for stream 101 whose header IV begins with 1.
\<close>

definition forged_frame :: bytes where
  "forged_frame =
    [9, 9, 9, 9, 9, 9, 9, 9, 9, 9, 9, 9, 5, 5, 5, 5, 5, 5, 5, 5, 0, 0, 0, 0, 65, 71, 50, 1,
     136, 19, 0, 0, 0, 0, 0, 0, 0, 0, 0, 0, 77, 77, 77, 77, 77, 77, 77, 77, 77, 77, 77, 77, 77,
     77, 77, 77]"

definition lost_frame :: bytes where
  "lost_frame =
    [1, 1, 1, 1, 1, 1, 1, 1, 1, 1, 1, 1, 5, 5, 5, 5, 5, 5, 5, 5, 0, 0, 0, 0, 65, 71, 50, 1, 1,
     0, 0, 0, 0, 0, 0, 0, 0, 0, 0, 0, 0, 0, 0, 101, 2, 65, 65, 65, 65, 65, 65, 65, 65, 65, 65,
     65, 65, 65, 65, 65, 65, 65, 65, 65, 65, 83, 83, 83, 83, 83, 83, 83, 83, 83, 83, 83, 83,
     83, 83, 83, 83]"

section \<open>Properties\<close>



text \<open>C31: Every answer of the server goes with a request at least half its size, and a datagram of
  fewer than 20 bytes gets no answer at all: the amplification of the UDP service is below two.\<close>
theorem amplification_bound:
  assumes "crypto_ok C" "server_wf st" "length pub = 32"
    and "on_datagram C E st a data priv pub = (st', outs)"
  shows "sum_list (reply_sizes outs) \<le> 2 * length data \<and> (length data < 20 \<longrightarrow> outs = [])"
proof (intro conjI)
  let ?st = "st\<lparr>sv_packets_rx := sv_packets_rx st + 1, sv_bytes_rx := sv_bytes_rx st + length data\<rparr>"
  have wf: "server_wf ?st" using assms(2) by (simp add: server_wf_def)
  show "sum_list (reply_sizes outs) \<le> 2 * length data"
  proof (cases "data = []")
    case True
    with assms(4) show ?thesis by (simp add: on_datagram_def)
  next
    case False
    with assms(4) obtain ex where "process_packet C E ?st a data priv pub = (st', outs, ex)"
      by (auto simp: on_datagram_def split: prod.splits)
    from process_packet_reply_sizes [OF assms(1) wf assms(3) this] show ?thesis by auto
  qed
  show "length data < 20 \<longrightarrow> outs = []"
    using assms(4) by (auto simp: on_datagram_def process_packet_def split: if_splits)
qed

theorem amplification_bound_witness:
  "snd (on_datagram toy_crypto sample_env sample_server sample_addr [0, 1, 2] [] (replicate 32 0)) = []"
  using amplification_bound [OF toy_crypto_ok sample_server_wf, of "replicate 32 0" sample_env sample_addr "[0, 1, 2]" "[]"]
  by (cases "on_datagram toy_crypto sample_env sample_server sample_addr [0, 1, 2] [] (replicate 32 0)") auto

text \<open>C29: An initiation that was accepted once is accepted again, from any address and in any later
  state: it brings back the same session keys, directs the session to the sender of the copy and
  empties the replay filter, so that every recorded data frame counts as fresh again.\<close>
theorem replayed_init_reopens:
  assumes "valid_init C st priv data shared" "send_ok E" "send_ok E2"
    and "on_datagram C E st a data priv pub = (st1, outs1)"
    and "sv_master_key st2 = sv_master_key st" "sv_mask_key st2 = sv_mask_key st"
      "sv_raw_kid st2 = sv_raw_kid st"
    and "on_datagram C E2 st2 a2 data priv pub = (st3, outs3)"
  shows "sv_recv_key st3 = sv_recv_key st1 \<and> sv_send_key st3 = sv_send_key st1 \<and>
    sv_client_addr st3 = Some a2 \<and> (\<forall>q > 0. fst (check_and_update (sv_replay st3) q) = Inr False)"
proof -
  have v: "valid_init C st2 priv data shared"
    using assms(1) valid_init_cong [OF assms(5-7)] by simp
  note r = on_datagram_accepts [OF assms(1,2,4)] on_datagram_accepts [OF v assms(3,8)]
  have "filter_wf (new_filter 2048)" by (rule new_filter_2048)
  then have "\<forall>q > 0. fst (check_and_update (new_filter 2048) q) = Inr False"
    by (simp add: check_and_update_wf) (simp add: new_filter_def)
  then show ?thesis using r by simp
qed



text \<open>The dispatcher looks at the first byte, which in a data frame is a byte of the random
  header IV: a frame that opens under the session key is lost without a trace when its IV begins
  with 1, or with 4 and the frame has at least 97 bytes.\<close>
theorem genuine_frame_lost:
  assumes "auth_data C st data" "opens_with C (hs_key C st) data (header_offset C st data) = None"
    and "data ! 0 = 1 \<and> 72 \<le> length data \<and> \<not> auth_raw st data \<or>
         data ! 0 = 4 \<and> 97 \<le> length data \<and> \<not> auth_resume C st data"
    and "on_datagram C E st a data priv pub = (st', outs)"
  shows "session_kept st st' \<and> sv_replay st' = sv_replay st \<and> log_only outs"
proof -
  let ?st = "st\<lparr>sv_packets_rx := sv_packets_rx st + 1, sv_bytes_rx := sv_bytes_rx st + length data\<rparr>"
  have len: "28 \<le> length data" using assms(3) by auto
  have "st' = ?st \<and> log_only outs"
  proof (cases "data ! 0 = 1 \<and> 72 \<le> length data")
    case True
    then have "raw_handshake C E ?st a data priv pub = (st', outs)" "\<not> auth_raw ?st data"
      using assms on_datagram_dispatch [OF assms(2) len, of E a priv pub] by (auto simp: auth_raw_def)
    then show ?thesis by (rule raw_handshake_inert)
  next
    case False
    then have "resume_session C ?st a data = (st', outs)" "\<not> auth_resume C ?st data"
      using assms on_datagram_dispatch [OF assms(2) len, of E a priv pub] by (auto simp: auth_resume_def)
    then show ?thesis by (rule resume_session_inert)
  qed
  then show ?thesis by (simp add: session_kept_def)
qed

theorem genuine_frame_lost_witness:
  "log_only (snd (on_datagram toy_crypto sample_env sample_server sample_addr lost_frame [] []))"
proof -
  let ?d = lost_frame
  have "header_ok toy_crypto sample_server ?d \<and>
      opens_with toy_crypto (replicate 32 4) ?d (header_offset toy_crypto sample_server ?d) \<noteq> None"
    unfolding sample_eval by code_simp
  then have a: "auth_data toy_crypto sample_server ?d"
    by (simp add: auth_data_def sample_server_sel)
  have o: "opens_with toy_crypto (hs_key toy_crypto sample_server) ?d
      (header_offset toy_crypto sample_server ?d) = None"
    unfolding sample_eval by code_simp
  have r: "slice ?d 8 16 \<noteq> sv_raw_kid sample_server" "?d ! 0 = 1" "72 \<le> length ?d"
    unfolding sample_eval by code_simp+
  then have l: "?d ! 0 = 1 \<and> 72 \<le> length ?d \<and> \<not> auth_raw sample_server ?d \<or>
      ?d ! 0 = 4 \<and> 97 \<le> length ?d \<and> \<not> auth_resume toy_crypto sample_server ?d"
    by (simp add: auth_raw_def)
  obtain st' outs where "on_datagram toy_crypto sample_env sample_server sample_addr ?d [] [] = (st', outs)"
    by fastforce
  with genuine_frame_lost [OF a o l this] show ?thesis by simp
qed

end
