(* ===== verification/Tunnel.thy ===== *)
theory Tunnel
  imports Client ServerAuth
begin

text \<open>
  Client and server together (aegs_client.py against aegs_server.py): what one side puts on the
  wire is parsed, opened and acted on by the other. The lemmas on \<open>outer_header\<close> packets are
  shared by the handshake and by the data frames of both directions.
\<close>

section \<open>Parsing a packet built by the peer\<close>

lemma length_plain_header: "length kid = 8 \<Longrightarrow> length (plain_header kid n flag) = 16"
  by (simp add: plain_header_def pybytes)

lemma plain_header_fields:
  assumes "length kid = 8" "n < 65536"
  shows "slice (plain_header kid n flag) 0 8 = kid" "be_val (slice (plain_header kid n flag) 8 10) = n"
    "slice (plain_header kid n flag) 12 16 = ver_magic" "plain_header kid n flag ! 10 = flag"
proof -
  have l: "length (be_bytes 2 n) = 2" by (rule length_be_bytes)
  have v: "be_val (be_bytes 2 n) = n" using assms(2) by (simp add: be_val_be_bytes)
  show "slice (plain_header kid n flag) 0 8 = kid" "be_val (slice (plain_header kid n flag) 8 10) = n"
    "slice (plain_header kid n flag) 12 16 = ver_magic" "plain_header kid n flag ! 10 = flag"
    using assms(1) l v length_ver_magic by (simp_all add: plain_header_def slice_def nth_append)
qed

text \<open>
  What the sender of a packet put together: header IV, junk, flag, AEAD nonce and ciphertext.
\<close>

definition sealed_packet ::
  "crypto \<Rightarrow> bytes \<Rightarrow> bytes \<Rightarrow> bytes \<Rightarrow> byte \<Rightarrow> bytes \<Rightarrow> bytes \<Rightarrow> bytes \<Rightarrow> bytes \<Rightarrow> bool" where
  "sealed_packet C mk kid iv flag junk nonce ct pkt \<longleftrightarrow>
     crypto_ok C \<and> length mk = 32 \<and> length kid = 8 \<and> length iv = 12 \<and> length junk < 65536 \<and>
     length nonce = 12 \<and> pkt = outer_header C mk kid iv flag junk @ nonce @ ct"

lemma sealed_unmasked:
  assumes "sealed_packet C mk kid iv flag junk nonce ct pkt"
  shows "mask_unmask_header C (slice pkt 12 28) mk (slice pkt 0 12) = plain_header kid (length junk) flag"
proof -
  note h = assms [unfolded sealed_packet_def]
  have "length (mask_unmask_header C (plain_header kid (length junk) flag) mk iv) = 16"
    using h by (simp add: mask_unmask_header_def length_chacha20 length_plain_header)
  then have "slice pkt 0 12 = iv" "slice pkt 12 28 = mask_unmask_header C (plain_header kid (length junk) flag) mk iv"
    using h by (simp_all add: outer_header_def slice_def)
  then show ?thesis
    using h by (simp add: mask_unmask_header_def chacha20_involution)
qed

lemma sealed_parts:
  assumes "sealed_packet C mk kid iv flag junk nonce ct pkt"
  shows "slice pkt 0 (28 + length junk) = outer_header C mk kid iv flag junk"
    "slice pkt (28 + length junk) (28 + length junk + 12) = nonce"
    "drop (28 + length junk + 12) pkt = ct"
    "length pkt = 40 + length junk + length ct"
proof -
  note h = assms [unfolded sealed_packet_def]
  have "length (outer_header C mk kid iv flag junk) = 28 + length junk"
    using h by (intro length_outer_header) auto
  with h show "slice pkt 0 (28 + length junk) = outer_header C mk kid iv flag junk"
    "slice pkt (28 + length junk) (28 + length junk + 12) = nonce"
    "drop (28 + length junk + 12) pkt = ct"
    "length pkt = 40 + length junk + length ct"
    by (simp_all add: slice_def)
qed

lemma sealed_fields:
  assumes "sealed_packet C mk kid iv flag junk nonce ct pkt"
  shows "slice (plain_header kid (length junk) flag) 0 8 = kid"
    "be_val (slice (plain_header kid (length junk) flag) 8 10) = length junk"
    "slice (plain_header kid (length junk) flag) 12 16 = ver_magic"
    "plain_header kid (length junk) flag ! 10 = flag"
  using plain_header_fields [of kid "length junk" flag] assms by (simp_all add: sealed_packet_def)

lemma sealed_server_header:
  assumes "sealed_packet C (sv_mask_key st) (sv_raw_kid st) iv flag junk nonce ct pkt"
  shows "header_ok C st pkt" "header_offset C st pkt = 28 + length junk"
  by (simp_all add: header_ok_def header_offset_def sealed_unmasked [OF assms] sealed_fields [OF assms])

lemma sealed_server_opens:
  assumes "sealed_packet C mk kid iv flag junk nonce ct pkt"
  shows "opens_with C k pkt (28 + length junk) = aead_decrypt C k nonce ct (Some (outer_header C mk kid iv flag junk))"
  by (simp only: opens_with_def sealed_parts [OF assms])

lemma sealed_server_fields:
  assumes "sealed_packet C (sv_mask_key st) (sv_raw_kid st) iv flag junk nonce ct pkt" "16 \<le> length ct"
  shows "frame_fields C st pkt = Some (flag AND 0x80 \<noteq> 0, 28 + length junk)"
  using sealed_parts(4) [OF assms(1)] assms(2)
  by (simp add: frame_fields_def sealed_unmasked [OF assms(1)] sealed_fields [OF assms(1)] Let_def)

lemma sealed_client_opens:
  assumes "sealed_packet C (cl_mask_key cl) kid iv flag junk nonce ct pkt" "16 \<le> length ct"
  shows "udp_receive C E cl pkt =
     (case cl_recv_key cl of None \<Rightarrow> (cl, [])
      | Some rk \<Rightarrow> (case aead_decrypt C rk nonce ct (Some (outer_header C (cl_mask_key cl) kid iv flag junk)) of
           None \<Rightarrow> (cl, []) | Some pt \<Rightarrow> deliver_frame E cl pt))"
  using sealed_parts [OF assms(1)] assms(2)
  by (simp add: udp_receive_def sealed_unmasked [OF assms(1)] sealed_fields [OF assms(1)] Let_def
      cong: option.case_cong)

section \<open>Handshake\<close>

text \<open>A client and a server configured with the same token.\<close>

definition peers :: "client \<Rightarrow> server \<Rightarrow> bool" where
  "peers cl st \<longleftrightarrow> cl_master_key cl = sv_master_key st \<and> cl_mask_key cl = sv_mask_key st \<and>
     cl_raw_kid cl = sv_raw_kid st"

lemma same_token_peers:
  "client_init C E host bp token pc auto priv = Inr cl \<Longrightarrow> server_init C bp' token pc' = Inr st \<Longrightarrow> peers cl st"
  by (auto simp: client_init_def server_init_def peers_def Let_def split: option.splits)

lemma peers_keys: "peers cl st \<Longrightarrow> handshake_salt C cl = hs_salt C st \<and> handshake_key C cl = hs_key C st"
  by (simp add: peers_def handshake_salt_def hs_salt_def handshake_key_def hs_key_def)

lemma length_tag: "length (take 16 (hmac_sha256 k m)) = 16"
  by (simp add: length_hmac_sha256)

lemma handshake_init_sealed:
  assumes "crypto_ok C" "client_wf cl" "peers cl st"
  shows "sealed_packet C (sv_mask_key st) (sv_raw_kid st) (token_bytes (ent E) 0 12) 0 (token_bytes (ent E) 12 16)
    (token_bytes (ent E) 28 12)
    (aead_encrypt C (hs_key C st) (token_bytes (ent E) 28 12)
       (cl_pub cl @ take 16 (hmac_sha256 (hs_salt C st) (cl_pub cl)))
       (Some (outer_header C (sv_mask_key st) (sv_raw_kid st) (token_bytes (ent E) 0 12) 0 (token_bytes (ent E) 12 16))))
    (handshake_init C E cl)"
  using assms peers_keys [OF assms(3)]
  by (simp add: sealed_packet_def handshake_init_def Let_def pybytes client_wf_def peers_def)

lemma handshake_init_valid:
  assumes "crypto_ok C" "client_wf cl" "peers cl st" "x25519_exchange C priv (cl_pub cl) = Some shared"
  shows "valid_init C st priv (handshake_init C E cl) shared"
proof -
  note sp = handshake_init_sealed [OF assms(1-3), of E]
  have k: "length (hs_key C st) = 32" by (simp add: hs_key_def hkdf_expand_def length_hkdf [OF assms(1)])
  have p: "length (cl_pub cl) = 32" using assms(2) by (simp add: client_wf_def)
  have op: "opens_with C (hs_key C st) (handshake_init C E cl) (28 + 16) =
      Some (cl_pub cl @ take 16 (hmac_sha256 (hs_salt C st) (cl_pub cl)))"
    using sealed_server_opens [OF sp, of "hs_key C st"] aead_roundtrip [OF assms(1) k, of "token_bytes (ent E) 28 12"]
    by (simp add: length_token_bytes)
  have len: "length (handshake_init C E cl) = 120"
    using sealed_parts(4) [OF sp] length_aead [OF assms(1) k, of "token_bytes (ent E) 28 12"] p
    by (simp add: length_token_bytes length_hmac_sha256)
  have "slice (cl_pub cl @ t) 0 32 = cl_pub cl" "slice (cl_pub cl @ t) 32 48 = t" if "length t = 16" for t :: bytes
    using p that by (simp_all add: slice_def)
  from this [OF length_tag] show ?thesis
    using sealed_server_header [OF sp] op len p assms(4)
    by (simp add: valid_init_def length_token_bytes length_hmac_sha256)
qed

lemma handshake_response_sealed:
  assumes "crypto_ok C" "server_wf st"
  shows "sealed_packet C (sv_mask_key st) (sv_raw_kid st) (token_bytes e 32 12) 0 (token_bytes e 44 16)
    (token_bytes e 60 12)
    (aead_encrypt C k (token_bytes e 60 12) (pub @ take 16 (hmac_sha256 salt pub) @ token_bytes e 0 32)
       (Some (outer_header C (sv_mask_key st) (sv_raw_kid st) (token_bytes e 32 12) 0 (token_bytes e 44 16))))
    (handshake_response C e st k salt pub)"
  using assms by (simp add: sealed_packet_def handshake_response_def Let_def pybytes server_wf_def)

lemma handshake_reply_accepts:
  assumes "crypto_ok C" "client_wf cl" "server_wf st" "peers cl st" "length pub = 32"
    and "x25519_exchange C (cl_priv cl) pub = Some shared"
  shows "handshake_reply C cl (handshake_response C e st (hs_key C st) (hs_salt C st) pub) =
    Returned (cl\<lparr>cl_resume_token := Some (token_bytes e 0 32), cl_send_key := Some (c2s_key C shared),
                 cl_recv_key := Some (s2c_key C shared)\<rparr>) True"
proof -
  note sp = handshake_response_sealed [OF assms(1,3), of e "hs_key C st" pub "hs_salt C st"]
  let ?r = "handshake_response C e st (hs_key C st) (hs_salt C st) pub"
  let ?pt = "pub @ take 16 (hmac_sha256 (hs_salt C st) pub) @ token_bytes e 0 32"
  have k: "length (hs_key C st) = 32" by (simp add: hs_key_def hkdf_expand_def length_hkdf [OF assms(1)])
  have len: "length ?r = 152" by (rule length_handshake_response [OF assms(1,3) k assms(5)])
  have mk: "cl_mask_key cl = sv_mask_key st" using assms(4) by (simp add: peers_def)
  have dec: "aead_decrypt C (hs_key C st) (slice ?r (28 + 16) (28 + 16 + 12)) (drop (28 + 16 + 12) ?r)
      (Some (slice ?r 0 (28 + 16))) = Some ?pt"
    using sealed_parts [OF sp] aead_roundtrip [OF assms(1) k, of "token_bytes e 60 12"]
    by (simp add: length_token_bytes)
  have "slice ?pt 0 32 = pub" "slice ?pt 32 48 = take 16 (hmac_sha256 (hs_salt C st) pub)"
    "slice ?pt 48 80 = token_bytes e 0 32"
    using assms(5) length_tag [of "hs_salt C st" pub] by (simp_all add: slice_def length_token_bytes)
  then show ?thesis
    using len mk dec sealed_unmasked [OF sp] sealed_fields [OF sp] peers_keys [OF assms(4)] assms(6)
    by (simp add: handshake_reply_def length_token_bytes Let_def c2s_key_def s2c_key_def)
qed


section \<open>Data frames from the client\<close>

lemma udp_sent_cases:
  assumes "send_raw_packet C E cl sid cmd payload ch = (cl', [UdpSend pkt dest], ex)"
  obtains k where "cl_send_key cl = Some k" "sid < 2 ^ 32" "cmd < 256" "cl_tx_seq cl + 1 < 2 ^ 64" "ex = None"
    "pkt = raw_packet C (ent E) cl k (cl_tx_seq cl + 1) (be_bytes 4 sid @ be_bytes 1 cmd @ payload) ch"
  using assms
  by (auto simp: send_raw_packet_def raw_packet_def pack_be_def Let_def split: option.splits sum.splits if_splits)

text \<open>The frame that the AEAD seals: the packed fields, the payload and the padding.\<close>

definition client_plain :: "entropy \<Rightarrow> nat \<Rightarrow> nat \<Rightarrow> bytes \<Rightarrow> bytes" where
  "client_plain e sid cmd payload =
     be_bytes 4 sid @ be_bytes 1 cmd @ payload @ token_bytes e 1 (pad_length (5 + length payload) (randbelow e 0 33))"

definition client_junk :: "entropy \<Rightarrow> bytes" where
  "client_junk e = token_bytes e 2018 (junk_length e 2004)"

lemma raw_packet_sealed:
  assumes "crypto_ok C" "client_wf cl" "peers cl st"
  shows "sealed_packet C (sv_mask_key st) (sv_raw_kid st) (token_bytes e 2006 12) (if ch then 0x80 else 0)
    (client_junk e) (le_bytes 8 seq @ token_bytes e 2000 4)
    (aead_encrypt C k (le_bytes 8 seq @ token_bytes e 2000 4) (client_plain e sid cmd payload)
       (Some (outer_header C (sv_mask_key st) (sv_raw_kid st) (token_bytes e 2006 12) (if ch then 0x80 else 0)
                (client_junk e))))
    (raw_packet C e cl k seq (be_bytes 4 sid @ be_bytes 1 cmd @ payload) ch)"
  using assms junk_length_le [of e 2004]
  by (simp add: sealed_packet_def raw_packet_def client_plain_def client_junk_def Let_def pybytes client_wf_def
      peers_def)

lemma frame_seq_sealed:
  assumes "sealed_packet C mk kid iv flag junk (le_bytes 8 n @ r) ct pkt" "n < 2 ^ 64"
  shows "frame_seq pkt (28 + length junk) = n"
proof -
  have "length (le_bytes 8 n) = 8" by (rule length_le_bytes)
  then have "slice (le_bytes 8 n @ r) 0 8 = le_bytes 8 n" by (simp add: slice_def)
  moreover have "le_val (le_bytes 8 n) = n" using assms(2) by (intro le_val_le_bytes) simp
  ultimately show ?thesis
    by (simp only: frame_seq_def frame_nonce_def sealed_parts(2) [OF assms(1)])
qed

lemma open_frame_roams:
  "open_frame C E st a data rk ch off =
     (case aead_decrypt C rk (frame_nonce data off) (drop (off + 12) data) (Some (slice data 0 off)) of
        None \<Rightarrow> (st, [Log (LogTamperDrop (fst a))], None)
      | Some pt \<Rightarrow>
          if ch then (st\<lparr>sv_client_addr := Some a\<rparr>, [Log (LogChaff (fst a) (length data))], None)
          else handle_client_payload E (st\<lparr>sv_client_addr := Some a\<rparr>) pt a)"
proof -
  have "(if sv_client_addr st \<noteq> Some a then st\<lparr>sv_client_addr := Some a\<rparr> else st) = st\<lparr>sv_client_addr := Some a\<rparr>"
    by (cases st) auto
  then show ?thesis by (simp only: open_frame_def Let_def)
qed

text \<open>The server does with a client's frame what its address and replay filter let it.\<close>

lemma client_frame_opened:
  assumes ok: "crypto_ok C" "client_wf cl" "server_wf st" "peers cl st"
    and k: "cl_send_key cl = sv_recv_key st"
    and sent: "send_raw_packet C E cl sid cmd payload ch = (cl', [UdpSend pkt dest], ex)"
    and hs: "opens_with C (hs_key C st) pkt (header_offset C st pkt) = None"
    and first: "pkt ! 0 \<noteq> 1" "pkt ! 0 \<noteq> 4"
    and fresh: "check_and_update (sv_replay st) (cl_tx_seq cl + 1) = (Inr False, f)"
  shows "on_datagram C Es st a pkt priv pub =
    (let st1 = st\<lparr>sv_packets_rx := sv_packets_rx st + 1, sv_bytes_rx := sv_bytes_rx st + length pkt,
                  sv_replay := f, sv_client_addr := Some a\<rparr>
     in if ch then (st1, [Log (LogChaff (fst a) (length pkt))])
        else (case handle_client_payload Es st1 (client_plain (ent E) sid cmd payload) a of
                (st', outs, ex) \<Rightarrow> (st', outs)))"
proof -
  let ?flag = "if ch then 0x80 else 0 :: byte"
  obtain key where s: "cl_send_key cl = Some key" "cl_tx_seq cl + 1 < 2 ^ 64"
    "pkt = raw_packet C (ent E) cl key (cl_tx_seq cl + 1) (be_bytes 4 sid @ be_bytes 1 cmd @ payload) ch"
    using sent by (rule udp_sent_cases)
  let ?n = "cl_tx_seq cl + 1" and ?e = "ent E"
  let ?nonce = "le_bytes 8 ?n @ token_bytes ?e 2000 4"
  let ?outer = "outer_header C (sv_mask_key st) (sv_raw_kid st) (token_bytes ?e 2006 12) ?flag (client_junk ?e)"
  let ?ct = "aead_encrypt C key ?nonce (client_plain ?e sid cmd payload) (Some ?outer)"
  let ?off = "28 + length (client_junk ?e)"
  have sp: "sealed_packet C (sv_mask_key st) (sv_raw_kid st) (token_bytes ?e 2006 12) ?flag (client_junk ?e) ?nonce ?ct pkt"
    using raw_packet_sealed [OF ok(1,2,4), of ?e ch ?n key sid cmd payload] s(3) by simp
  let ?st = "st\<lparr>sv_packets_rx := sv_packets_rx st + 1, sv_bytes_rx := sv_bytes_rx st + length pkt\<rparr>"
  have rk: "sv_recv_key st = Some key" and kl: "length key = 32"
    using k s(1) ok(3) by (auto simp: server_wf_def)
  have nl: "length ?nonce = 12" by (simp add: pybytes)
  have ct: "16 \<le> length ?ct" using length_aead [OF ok(1) kl nl] by simp
  have ff: "frame_fields C ?st pkt = Some (ch, ?off)"
    using sealed_server_fields [OF sp ct] frame_fields_counters by (cases ch) simp_all
  have dec: "aead_decrypt C key (frame_nonce pkt ?off) (drop (?off + 12) pkt) (Some (slice pkt 0 ?off)) =
      Some (client_plain ?e sid cmd payload)"
    using sealed_parts [OF sp] aead_roundtrip [OF ok(1) kl nl] by (simp add: frame_nonce_def)
  have sq: "frame_seq pkt ?off = ?n" by (rule frame_seq_sealed [OF sp s(2)])
  have len: "28 \<le> length pkt" using sealed_parts(4) [OF sp] by simp
  have "data_frame C Es ?st a pkt =
      (if ch then (?st\<lparr>sv_replay := f, sv_client_addr := Some a\<rparr>, [Log (LogChaff (fst a) (length pkt))], None)
       else handle_client_payload Es (?st\<lparr>sv_replay := f, sv_client_addr := Some a\<rparr>) (client_plain ?e sid cmd payload) a)"
    using rk ff dec sq fresh by (simp add: data_frame_def open_frame_roams)
  with on_datagram_dispatch [OF hs len, of Es a priv pub] first show ?thesis by (simp add: Let_def)
qed

lemma client_plain_fields:
  assumes "sid < 2 ^ 32" "cmd < 256"
  shows "5 \<le> length (client_plain e sid cmd payload)"
    "be_val (slice (client_plain e sid cmd payload) 0 4) = sid"
    "unat (client_plain e sid cmd payload ! 4) = cmd"
    "drop 5 (client_plain e sid cmd payload) =
       payload @ token_bytes e 1 (pad_length (5 + length payload) (randbelow e 0 33))"
proof -
  have l: "length (be_bytes 4 sid) = 4" "length (be_bytes 1 cmd) = 1" by (rule length_be_bytes)+
  have v: "be_val (be_bytes 4 sid) = sid" using assms(1) by (intro be_val_be_bytes) simp
  have one: "be_bytes 1 cmd = [of_nat cmd]" by (simp add: be_bytes_def)
  show "5 \<le> length (client_plain e sid cmd payload)"
    "be_val (slice (client_plain e sid cmd payload) 0 4) = sid"
    "unat (client_plain e sid cmd payload ! 4) = cmd"
    "drop 5 (client_plain e sid cmd payload) =
       payload @ token_bytes e 1 (pad_length (5 + length payload) (randbelow e 0 33))"
    using l v assms(2) one by (simp_all add: client_plain_def slice_def nth_append unat_of_nat_byte)
qed

text \<open>A connect request as the client packs it: the server reads back the host and the port.\<close>

lemma connect_payload_handled:
  assumes "sid < 2 ^ 32" "CMD_CONNECT < 256" "length hb < 256" "port < 65536"
  shows "handle_client_payload Es st (client_plain e sid CMD_CONNECT (be_bytes 1 (length hb) @ hb @ be_bytes 2 port)) a =
    (st, [Log (LogForward sid (fst a) (utf8_decode_replace hb) port), StartProxy sid (utf8_decode_replace hb) port], None)"
proof -
  let ?p = "be_bytes 1 (length hb) @ hb @ be_bytes 2 port"
  let ?pt = "client_plain e sid CMD_CONNECT ?p"
  obtain pad where d: "drop 5 ?pt = ?p @ pad" "5 \<le> length ?pt"
    using client_plain_fields [OF assms(1,2), of e ?p] by blast
  have l: "be_bytes 1 (length hb) = [of_nat (length hb)]" "length (be_bytes 2 port) = 2"
    by (simp add: be_bytes_def) (rule length_be_bytes)
  define pt where "pt = ?pt"
  have e: "pt = take 5 pt @ of_nat (length hb) # hb @ be_bytes 2 port @ pad" "length (take 5 pt) = 5"
    using d l(1) unfolding pt_def by (metis append_take_drop_id append.assoc append_Cons append_Nil) (use d(2) pt_def in simp)
  have s: "pt ! 5 = of_nat (length hb)" "slice pt 6 (6 + length hb) = hb"
    "slice pt (6 + length hb) (8 + length hb) = be_bytes 2 port" "5 < length pt"
    using e(2) l(2) by (subst e(1), simp add: nth_append slice_def)+
  have v: "be_val (be_bytes 2 port) = port" using assms(4) by (intro be_val_be_bytes) simp
  show ?thesis
    using client_plain_fields [OF assms(1,2), of e ?p] assms(3) s l(2) v
    by (simp add: handle_client_payload_def cmd_defs Let_def py_get_def unat_of_nat_byte unpack_be_def pt_def)
qed

section \<open>Data frames from the server\<close>

definition server_plain :: "entropy \<Rightarrow> nat \<Rightarrow> nat \<Rightarrow> bytes \<Rightarrow> bytes" where
  "server_plain e sid cmd payload =
     be_bytes 4 sid @ be_bytes 1 cmd @ payload @ token_bytes e 1 (16 + randbelow e 0 33)"

lemma server_sent_cases:
  assumes "send_aegs_frame C E st sid cmd payload = (st', [SendTo pkt a], ex)"
  obtains k where "sv_send_key st = Some k" "sv_client_addr st = Some a" "sid < 2 ^ 32" "cmd < 256"
    "pkt = sent_frame C E st k (be_bytes 4 sid) (be_bytes 1 cmd) payload"
  using assms
  by (auto simp: send_aegs_frame_eq pack_be_def split: option.splits if_splits)

lemma server_plain_fields:
  assumes "sid < 2 ^ 32" "cmd < 256"
  shows "5 \<le> length (server_plain e sid cmd payload)"
    "be_val (slice (server_plain e sid cmd payload) 0 4) = sid"
    "unat (server_plain e sid cmd payload ! 4) = cmd"
    "drop 5 (server_plain e sid cmd payload) = payload @ token_bytes e 1 (16 + randbelow e 0 33)"
proof -
  have l: "length (be_bytes 4 sid) = 4" "length (be_bytes 1 cmd) = 1" by (rule length_be_bytes)+
  have v: "be_val (be_bytes 4 sid) = sid" using assms(1) by (intro be_val_be_bytes) simp
  have one: "be_bytes 1 cmd = [of_nat cmd]" by (simp add: be_bytes_def)
  show "5 \<le> length (server_plain e sid cmd payload)"
    "be_val (slice (server_plain e sid cmd payload) 0 4) = sid"
    "unat (server_plain e sid cmd payload ! 4) = cmd"
    "drop 5 (server_plain e sid cmd payload) = payload @ token_bytes e 1 (16 + randbelow e 0 33)"
    using l v assms(2) one by (simp_all add: server_plain_def slice_def nth_append unat_of_nat_byte)
qed

lemma sent_frame_sealed:
  assumes "crypto_ok C" "server_wf st"
  shows "sealed_packet C (sv_mask_key st) (sv_raw_kid st) (token_bytes (ent E) 68 12) 0 (token_bytes (ent E) 80 8)
    (le_bytes 8 (sv_tx_seq st + 1) @ token_bytes (ent E) 64 4)
    (aead_encrypt C k (le_bytes 8 (sv_tx_seq st + 1) @ token_bytes (ent E) 64 4) (server_plain (ent E) sid cmd payload)
       (Some (outer_header C (sv_mask_key st) (sv_raw_kid st) (token_bytes (ent E) 68 12) 0 (token_bytes (ent E) 80 8))))
    (sent_frame C E st k (be_bytes 4 sid) (be_bytes 1 cmd) payload)"
  using assms
  by (simp add: sealed_packet_def sent_frame_def server_plain_def Let_def server_wf_def pybytes)

lemma server_frame_length:
  assumes "crypto_ok C" "server_wf st" "send_aegs_frame C E st sid cmd payload = (st', [SendTo pkt a], ex)"
  shows "length pkt = 85 + length payload + randbelow (ent E) 0 33"
proof -
  obtain key where s: "sv_send_key st = Some key"
    "pkt = sent_frame C E st key (be_bytes 4 sid) (be_bytes 1 cmd) payload"
    using assms(3) by (rule server_sent_cases)
  have kl: "length key = 32" using s(1) assms(2) by (auto simp: server_wf_def)
  have nl: "length (le_bytes 8 (sv_tx_seq st + 1) @ token_bytes (ent E) 64 4) = 12" by (simp add: pybytes)
  show ?thesis
    using sealed_parts(4) [OF sent_frame_sealed [OF assms(1,2), of E key sid cmd payload]] s(2)
      length_aead [OF assms(1) kl nl]
    by (simp add: server_plain_def pybytes)
qed

lemma server_frame_opened:
  assumes ok: "crypto_ok C" "client_wf cl" "server_wf st" "peers cl st"
    and k: "cl_recv_key cl = sv_send_key st"
    and sent: "send_aegs_frame C E st sid cmd payload = (st', [SendTo pkt a], ex)"
  shows "udp_receive C Ec cl pkt = deliver_frame Ec cl (server_plain (ent E) sid cmd payload)"
proof -
  obtain key where s: "sv_send_key st = Some key"
    "pkt = sent_frame C E st key (be_bytes 4 sid) (be_bytes 1 cmd) payload"
    using sent by (rule server_sent_cases)
  let ?e = "ent E"
  let ?nonce = "le_bytes 8 (sv_tx_seq st + 1) @ token_bytes ?e 64 4"
  let ?outer = "outer_header C (cl_mask_key cl) (sv_raw_kid st) (token_bytes ?e 68 12) 0 (token_bytes ?e 80 8)"
  let ?ct = "aead_encrypt C key ?nonce (server_plain ?e sid cmd payload) (Some ?outer)"
  have kl: "length key = 32" using s(1) ok(3) by (auto simp: server_wf_def)
  have nl: "length ?nonce = 12" by (simp add: pybytes)
  have mk: "cl_mask_key cl = sv_mask_key st" using ok(4) by (simp add: peers_def)
  have sp: "sealed_packet C (cl_mask_key cl) (sv_raw_kid st) (token_bytes ?e 68 12) 0 (token_bytes ?e 80 8) ?nonce ?ct pkt"
    using sent_frame_sealed [OF ok(1,3), of E key sid cmd payload] s(2) mk by simp
  have "16 \<le> length ?ct" using length_aead [OF ok(1) kl nl] by simp
  from sealed_client_opens [OF sp this] k s(1) aead_roundtrip [OF ok(1) kl nl] show ?thesis by simp
qed


section \<open>A sample client\<close>

text \<open>The peer of \<open>sample_server\<close>, with the session's keys crossed.\<close>

definition sample_client :: client where
  "sample_client = \<lparr>cl_server_host = ustr ''10.0.0.1'', cl_base_port = 50001, cl_port_count = 10,
     cl_auto_system = False, cl_master_key = replicate 32 1, cl_mask_key = replicate 32 2,
     cl_raw_kid = replicate 8 5, cl_priv = replicate 32 8, cl_pub = x25519_public toy_crypto (replicate 32 8),
     cl_send_key = Some (replicate 32 4), cl_recv_key = Some (replicate 32 3), cl_resume_token = None,
     cl_running = True, cl_streams = [101 \<mapsto> 9], cl_stream_counter = 101, cl_tx_seq = 0, cl_last_real = 0\<rparr>"

lemma sample_client_wf: "client_wf sample_client"
  by (simp add: client_wf_def sample_client_def length_x25519_public [OF toy_crypto_ok])

lemma sample_peers: "peers sample_client sample_server"
  by (simp add: peers_def sample_client_def sample_server_def)

lemma sample_keys:
  "cl_send_key sample_client = sv_recv_key sample_server" "cl_recv_key sample_client = sv_send_key sample_server"
  by (simp_all add: sample_client_def sample_server_def)

definition sample_packet :: "nat \<Rightarrow> bytes \<Rightarrow> bytes" where
  "sample_packet cmd payload = raw_packet toy_crypto (ent sample_env) sample_client (replicate 32 4) 1
     (be_bytes 4 101 @ be_bytes 1 cmd @ payload) False"

lemma sample_sent:
  "cmd < 256 \<Longrightarrow> send_raw_packet toy_crypto sample_env sample_client 101 cmd payload False =
     (sample_client\<lparr>cl_tx_seq := 1\<rparr>, [UdpSend (sample_packet cmd payload) (ustr ''10.0.0.1'', 50006)], None)"
  by (simp add: send_raw_packet_def sample_packet_def sample_client_def sample_env_def pack_be_def
      get_current_port_def Let_def raw_packet_def)

lemma sample_packet_other_key:
  "opens_with toy_crypto (hs_key toy_crypto sample_server) (sample_packet cmd payload)
     (header_offset toy_crypto sample_server (sample_packet cmd payload)) = None"
proof -
  note sp = raw_packet_sealed [OF toy_crypto_ok sample_client_wf sample_peers,
      of "ent sample_env" False 1 "replicate 32 4" 101 cmd payload, folded sample_packet_def]
  have "foldl (XOR) 0 (replicate 32 4) \<noteq> foldl (XOR) 0 (hs_key toy_crypto sample_server)"
    unfolding sample_eval by code_simp
  from toy_wrong_key [OF this] show ?thesis
    by (simp only: sealed_server_header(2) [OF sp] sealed_server_opens [OF sp] if_False)
qed

lemma sample_packet_first: "sample_packet cmd payload ! 0 = 9"
  by (simp add: sample_packet_def raw_packet_def outer_header_def token_bytes_def sample_env_def Let_def
      upt_conv_Cons)

lemma sample_fresh: "check_and_update (sv_replay sample_server) (cl_tx_seq sample_client + 1) =
    (Inr False, advance (new_filter 2048) 1)"
  by (simp add: sample_server_sel check_and_update_wf new_filter_2048)
    (simp add: sample_client_def new_filter_def)

lemma sample_server_sent:
  "send_aegs_frame toy_crypto sample_env sample_server 101 CMD_DATA chunk =
     (sample_server\<lparr>sv_tx_seq := sv_tx_seq sample_server + 1, sv_packets_tx := sv_packets_tx sample_server + 1\<rparr>,
      [SendTo (sent_frame toy_crypto sample_env sample_server (replicate 32 3) (be_bytes 4 101) (be_bytes 1 2) chunk)
         (ustr ''10.0.0.2'', 4000)], None)"
proof -
  have p: "pack_be 4 (int 101) = Some (be_bytes 4 101)" "pack_be 1 (int CMD_DATA) = Some (be_bytes 1 2)"
    by (simp_all add: pack_be_def CMD_DATA_def)
  have t: "sv_tx_seq sample_server + 1 < 2 ^ 64" "send_ok sample_env"
    by (simp_all add: sample_server_sel sample_env_def)
  show ?thesis
    unfolding send_aegs_frame_eq sample_server_sel(5,9) p option.case prod.case if_P [OF t(1)] if_P [OF t(2)] ..
qed

lemmas sample_link = toy_crypto_ok sample_client_wf sample_server_wf sample_peers

section \<open>Properties\<close>

text \<open>C2: The masked handshake agrees: a client and a server with the same token end with the same
  pair of keys, crossed, the server bound to the sender's address and the client holding the
  session token, whatever the random draws of both.\<close>
theorem handshake_agreement:
  assumes "crypto_ok C" "client_wf cl" "server_wf st" "peers cl st"
    and "cl_pub cl = x25519_public C (cl_priv cl)" "send_ok Es"
    and "on_datagram C Es st a (handshake_init C Ec cl) priv (x25519_public C priv) = (st', outs)"
  shows "\<exists>reply cl'. SendTo reply a \<in> set outs \<and> handshake_reply C cl reply = Returned cl' True \<and>
    cl_send_key cl' = sv_recv_key st' \<and> cl_recv_key cl' = sv_send_key st' \<and> cl_send_key cl' \<noteq> None \<and>
    cl_resume_token cl' = Some (token_bytes (ent Es) 0 32) \<and> sv_client_addr st' = Some a \<and> peers cl' st'"
proof -
  obtain shared where sh: "x25519_exchange C priv (cl_pub cl) = Some shared"
    "x25519_exchange C (cl_priv cl) (x25519_public C priv) = Some shared"
    using x25519_defined [OF assms(1), of priv "cl_priv cl"] x25519_commute [OF assms(1), of priv "cl_priv cl"]
      assms(5) by auto
  note v = handshake_init_valid [OF assms(1,2,4) sh(1), of Ec]
  note r = on_datagram_accepts [OF v assms(6,7)]
  have "handshake_reply C cl (handshake_response C (ent Es) st (hs_key C st) (hs_salt C st) (x25519_public C priv)) =
    Returned (cl\<lparr>cl_resume_token := Some (token_bytes (ent Es) 0 32), cl_send_key := Some (c2s_key C shared),
                 cl_recv_key := Some (s2c_key C shared)\<rparr>) True"
    by (rule handshake_reply_accepts [OF assms(1-4) length_x25519_public [OF assms(1)] sh(2)])
  moreover have "peers (cl\<lparr>cl_resume_token := t, cl_send_key := k, cl_recv_key := k'\<rparr>) st'" for t k k'
    using assms(4) r by (simp add: peers_def)
  ultimately show ?thesis using r by fastforce
qed

theorem handshake_agreement_witness:
  "\<exists>reply cl'. handshake_reply toy_crypto sample_client reply = Returned cl' True"
proof -
  have pub: "cl_pub sample_client = x25519_public toy_crypto (cl_priv sample_client)" and ok: "send_ok sample_env"
    by (simp_all add: sample_client_def sample_env_def)
  obtain st' outs where "on_datagram toy_crypto sample_env sample_server sample_addr
      (handshake_init toy_crypto sample_env sample_client) [7] (x25519_public toy_crypto [7]) = (st', outs)"
    by fastforce
  from handshake_agreement [OF sample_link(1,2,3,4) pub ok this] show ?thesis by blast
qed

text \<open>An example of the replay of an initiation: the sample client's, sent again by a stranger.\<close>

theorem replayed_init_reopens_witness:
  "\<exists>(st1 :: server) (st3 :: server). sv_recv_key st3 = sv_recv_key st1 \<and> sv_client_addr st3 = Some sample_addr"
proof -
  obtain shared where sh: "x25519_exchange toy_crypto [7] (cl_pub sample_client) = Some shared"
    using x25519_defined [OF toy_crypto_ok, of "[7]" "replicate 32 8"] by (auto simp: sample_client_def)
  let ?d = "handshake_init toy_crypto sample_env sample_client"
  have v: "valid_init toy_crypto sample_server [7] ?d shared"
    by (rule handshake_init_valid [OF sample_link(1,2,4) sh])
  have ok: "send_ok sample_env" by (simp add: sample_env_def)
  obtain st1 o1 where 1: "on_datagram toy_crypto sample_env sample_server (ustr ''10.0.0.2'', 4000) ?d [7] [] = (st1, o1)"
    by fastforce
  obtain st3 o3 where 3: "on_datagram toy_crypto sample_env st1 sample_addr ?d [7] [] = (st3, o3)"
    by (rule prod.exhaust)
  from replayed_init_reopens [OF v ok ok 1 on_datagram_accepts(8-10) [OF v ok 1] 3] show ?thesis by blast
qed

text \<open>A data frame of the client that reaches the frame stage and is fresh is written to its stream,
  but the payload arrives followed by the frame's random padding: at least 16 bytes that the
  client's program never sent are forwarded to the remote host, because the frame carries no length.\<close>
theorem client_data_forwarded:
  assumes "crypto_ok C" "client_wf cl" "server_wf st" "peers cl st" "cl_send_key cl = sv_recv_key st"
    and "send_raw_packet C E cl sid CMD_DATA payload False = (cl', [UdpSend pkt dest], ex)"
    and "opens_with C (hs_key C st) pkt (header_offset C st pkt) = None" "pkt ! 0 \<noteq> 1" "pkt ! 0 \<noteq> 4"
    and "check_and_update (sv_replay st) (cl_tx_seq cl + 1) = (Inr False, f)"
    and "sv_streams st sid = Some s" "stream_ok Es s"
    and "on_datagram C Es st a pkt priv pub = (st', outs)"
  shows "\<exists>pad. outs = [StreamSend s (payload @ pad)] \<and> 16 \<le> length pad \<and>
    length pad = pad_length (5 + length payload) (randbelow (ent E) 0 33) \<and>
    sv_client_addr st' = Some a \<and> sv_replay st' = f"
proof -
  have b: "sid < 2 ^ 32" "CMD_DATA < 256" using assms(6) by (auto elim: udp_sent_cases)
  show ?thesis
    using client_frame_opened [OF assms(1-10), of Es a priv pub] assms(11-13) client_plain_fields [OF b, of "ent E" payload]
    by (simp add: handle_client_payload_def cmd_defs Let_def pad_length_ge length_token_bytes)
qed

theorem client_data_forwarded_witness:
  "\<exists>pad. snd (on_datagram toy_crypto sample_env sample_server sample_addr (sample_packet CMD_DATA [72, 105]) [] []) =
     [StreamSend 7 ([72, 105] @ pad)]"
proof -
  have "CMD_DATA < 256" by (simp add: CMD_DATA_def)
  note sent = sample_sent [OF this]
  have f: "sample_packet CMD_DATA [72, 105] ! 0 \<noteq> 1" "sample_packet CMD_DATA [72, 105] ! 0 \<noteq> 4"
    by (simp_all add: sample_packet_first)
  have s: "sv_streams sample_server 101 = Some 7" "stream_ok sample_env 7"
    by (simp_all add: sample_server_sel sample_env_def)
  obtain st' outs where r: "on_datagram toy_crypto sample_env sample_server sample_addr
      (sample_packet CMD_DATA [72, 105]) [] [] = (st', outs)" by fastforce
  from client_data_forwarded [OF sample_link sample_keys(1) sent sample_packet_other_key f sample_fresh s r] r
  show ?thesis by auto
qed

text \<open>A connect frame of the client makes the server open exactly the host and port it names,
  whatever padding follows the request.\<close>
theorem connect_roundtrip:
  assumes "crypto_ok C" "client_wf cl" "server_wf st" "peers cl st" "cl_send_key cl = sv_recv_key st"
    and "send_raw_packet C E cl sid CMD_CONNECT (be_bytes 1 (length hb) @ hb @ be_bytes 2 port) False =
           (cl', [UdpSend pkt dest], ex)"
    and "opens_with C (hs_key C st) pkt (header_offset C st pkt) = None" "pkt ! 0 \<noteq> 1" "pkt ! 0 \<noteq> 4"
    and "check_and_update (sv_replay st) (cl_tx_seq cl + 1) = (Inr False, f)"
    and "length hb < 256" "port < 65536"
    and "on_datagram C Es st a pkt priv pub = (st', outs)"
  shows "outs = [Log (LogForward sid (fst a) (utf8_decode_replace hb) port),
    StartProxy sid (utf8_decode_replace hb) port]"
proof -
  have b: "sid < 2 ^ 32" "CMD_CONNECT < 256" using assms(6) by (auto elim: udp_sent_cases)
  show ?thesis
    using client_frame_opened [OF assms(1-10), of Es a priv pub] assms(13)
    by (simp add: connect_payload_handled [OF b assms(11,12)] Let_def del: One_nat_def)
qed

theorem connect_roundtrip_witness:
  "StartProxy 101 (utf8_decode_replace [97, 46, 98]) 443 \<in>
     set (snd (on_datagram toy_crypto sample_env sample_server sample_addr
       (sample_packet CMD_CONNECT (be_bytes 1 (length [97 :: byte, 46, 98]) @ [97, 46, 98] @ be_bytes 2 443)) [] []))"
proof -
  let ?p = "be_bytes 1 (length [97 :: byte, 46, 98]) @ [97, 46, 98] @ be_bytes 2 443"
  have "CMD_CONNECT < 256" by (simp add: CMD_CONNECT_def)
  note sent = sample_sent [OF this, of ?p]
  have f: "sample_packet CMD_CONNECT ?p ! 0 \<noteq> 1" "sample_packet CMD_CONNECT ?p ! 0 \<noteq> 4"
    by (simp_all add: sample_packet_first)
  have l: "length [97 :: byte, 46, 98] < 256" "(443 :: nat) < 65536" by simp_all
  obtain st' outs where r: "on_datagram toy_crypto sample_env sample_server sample_addr
      (sample_packet CMD_CONNECT ?p) [] [] = (st', outs)" by fastforce
  from connect_roundtrip [OF sample_link sample_keys(1) sent sample_packet_other_key f sample_fresh l r] r
  show ?thesis by simp
qed

text \<open>A data frame of the server that carries at most 3900 bytes is written to the local connection
  of its stream, again with the frame's padding after the payload.\<close>
theorem server_data_forwarded:
  assumes "crypto_ok C" "client_wf cl" "server_wf st" "peers cl st" "cl_recv_key cl = sv_send_key st"
    and "send_aegs_frame C E st sid CMD_DATA chunk = (st', [SendTo pkt a], ex)"
    and "0 < sid" "cl_streams cl sid = Some conn" "stream_ok Ec conn" "cl_running cl"
    and "length chunk \<le> 3900"
  shows "\<exists>pad. udp_round C Ec cl pkt = (cl, [ConnSend conn (chunk @ pad)]) \<and>
    length pad = 16 + randbelow (ent E) 0 33"
proof -
  have "take 4096 pkt = pkt"
    using server_frame_length [OF assms(1,3,6)] randbelow_less [of 33 "ent E" 0] assms(11) by simp
  have b: "sid < 2 ^ 32" "CMD_DATA < 256" using assms(6) by (auto elim: server_sent_cases)
  show ?thesis
    using server_frame_opened [OF assms(1-6), of Ec] assms(7-10) server_plain_fields [OF b, of "ent E" chunk]
      \<open>take 4096 pkt = pkt\<close>
    by (simp add: udp_round_def deliver_frame_def cmd_defs Let_def length_token_bytes)
qed

theorem server_data_forwarded_witness:
  "\<exists>pkt pad. udp_round toy_crypto sample_env sample_client pkt = (sample_client, [ConnSend 9 ([1, 2, 3] @ pad)])"
proof -
  have s: "(0 :: nat) < 101" "cl_streams sample_client 101 = Some 9" "stream_ok sample_env 9"
    "cl_running sample_client" "length [1, 2, 3 :: byte] \<le> 3900"
    by (simp_all add: sample_client_def sample_env_def)
  from server_data_forwarded [OF sample_link sample_keys(2) sample_server_sent s] show ?thesis by blast
qed

text \<open>A chunk of 4011 bytes or more that the server reads from a remote host never reaches the local
  connection: its frame is longer than the client's 4096-byte receive buffer, so the tag is cut off
  and what is left does not open.\<close>
theorem large_chunk_lost:
  assumes "crypto_ok C" "server_wf st"
    and "send_aegs_frame C E st sid CMD_DATA chunk = (st', [SendTo pkt a], ex)" "4011 < length chunk"
    and "\<And>rk n ad. cl_recv_key cl = Some rk \<Longrightarrow> aead_decrypt C rk n (drop 48 (take 4096 pkt)) ad = None"
    and "peers cl st"
  shows "4096 < length pkt \<and> udp_round C Ec cl pkt = (cl, [])"
proof -
  obtain key where s: "sv_send_key st = Some key"
    "pkt = sent_frame C E st key (be_bytes 4 sid) (be_bytes 1 CMD_DATA) chunk"
    using assms(3) by (rule server_sent_cases)
  have l: "4096 < length pkt" using server_frame_length [OF assms(1-3)] assms(4) by simp
  note sp = sent_frame_sealed [OF assms(1,2), of E key sid CMD_DATA chunk, folded s(2)]
  have mk: "cl_mask_key cl = sv_mask_key st" using assms(6) by (simp add: peers_def)
  have "slice (take 4096 pkt) 12 28 = slice pkt 12 28" "slice (take 4096 pkt) 0 12 = slice pkt 0 12"
    by (simp_all add: slice_def take_drop min_def)
  then have "udp_receive C Ec cl (take 4096 pkt) = (cl, [])"
    using l mk sealed_unmasked [OF sp] sealed_fields [OF sp] assms(5)
    by (simp add: udp_receive_def length_token_bytes Let_def split: option.split)
  with l show ?thesis by (simp add: udp_round_def)
qed

theorem large_chunk_lost_witness:
  "\<exists>pkt. 4096 < length pkt \<and> udp_round toy_crypto sample_env sample_client pkt = (sample_client, [])"
proof -
  let ?chunk = "replicate 4027 0 @ replicate 15 0 @ [1] :: bytes"
  note sent = sample_server_sent [of ?chunk]
  define pkt where "pkt = sent_frame toy_crypto sample_env sample_server (replicate 32 3) (be_bytes 4 101) (be_bytes 1 2) ?chunk"
  note sp = sent_frame_sealed [OF toy_crypto_ok sample_server_wf, of sample_env "replicate 32 3" 101 2 ?chunk, folded pkt_def]
  have j: "length (token_bytes (ent sample_env) 80 8) = 8" by (rule length_token_bytes)
  have b: "length (be_bytes 4 101) = 4" "length (be_bytes 1 2) = 1" by (rule length_be_bytes)+
  have "drop 48 (take 4096 pkt) = take 4048 (drop 48 pkt)" by (simp add: drop_take)
  also have "\<dots> = (be_bytes 4 101 @ be_bytes 1 2 @ replicate 4027 0) @ replicate 15 0 @ [1]"
    using sealed_parts(3) [OF sp] b unfolding j by (simp add: toy_encrypt server_plain_def)
  finally have cut: "drop 48 (take 4096 pkt) = (be_bytes 4 101 @ be_bytes 1 2 @ replicate 4027 0) @ replicate 15 0 @ [1]" .
  have "aead_decrypt toy_crypto rk n (drop 48 (take 4096 pkt)) ad = None" for rk n ad
    unfolding cut by (rule toy_bad_tag)
  from large_chunk_lost [OF toy_crypto_ok sample_server_wf sent [folded pkt_def] _ this sample_peers]
  show ?thesis by (intro exI [of _ pkt]) simp
qed

text \<open>The client keeps no replay window: a datagram that was delivered to a local connection is
  delivered again, byte for byte, each time a copy of it arrives.\<close>
theorem client_accepts_replays:
  assumes "udp_round C E cl pkt = (cl', outs)" "ConnSend conn bs \<in> set outs"
  shows "udp_round C E cl' pkt = (cl', outs)"
proof -
  have "cl' = cl"
    using assms by (auto simp: udp_round_def udp_receive_def deliver_frame_def Let_def split: if_splits option.splits)
  with assms(1) show ?thesis by simp
qed

theorem client_accepts_replays_witness:
  "\<exists>pkt outs. outs \<noteq> [] \<and> udp_round toy_crypto sample_env sample_client pkt = (sample_client, outs)"
proof -
  have s: "(0 :: nat) < 101" "cl_streams sample_client 101 = Some 9"
    by (simp_all add: sample_client_def)
  let ?p = "sent_frame toy_crypto sample_env sample_server (replicate 32 3) (be_bytes 4 101) (be_bytes 1 2) [1, 2, 3]"
  have "take 4096 ?p = ?p"
    using server_frame_length [OF toy_crypto_ok sample_server_wf sample_server_sent, of "[1, 2, 3]"]
      randbelow_less [of 33 "ent sample_env" 0] by simp
  then obtain pad where r: "udp_round toy_crypto sample_env sample_client
      (sent_frame toy_crypto sample_env sample_server (replicate 32 3) (be_bytes 4 101) (be_bytes 1 2) [1, 2, 3]) =
      (sample_client, [ConnSend 9 ([1, 2, 3] @ pad)])"
    using server_frame_opened [OF sample_link sample_keys(2) sample_server_sent, of sample_env "[1, 2, 3]"] s
      server_plain_fields [of 101 2 "ent sample_env" "[1, 2, 3]"]
    by (auto simp: udp_round_def deliver_frame_def cmd_defs Let_def sample_env_def sample_client_def)
  from client_accepts_replays [OF r, of 9 "[1, 2, 3] @ pad"] show ?thesis by (intro exI conjI) simp_all
qed

text \<open>The STUN decoy that the client sends before the handshake is 28 bytes long, so the server's
  decoy answer, which wants exactly 20 bytes, is never given: the datagram has no effect.\<close>
theorem stun_decoy_unanswered:
  assumes "send_illusion_prebypass E cl = ([UdpSend pkt dest], None)"
  shows "length pkt = 28 \<and> process_packet C Es st a pkt priv pub = (st, [], None)"
proof -
  have p: "pkt = stun_binding_req (ent E)"
    using assms by (auto simp: send_illusion_prebypass_def split: sum.splits if_splits)
  have l: "length (stun_binding_req e) = 28" "stun_binding_req e ! 0 = 0" for e
    by (simp_all add: stun_binding_req_def length_token_bytes)
  show ?thesis
    using l [of "ent E"] p
    by (simp add: process_packet_def masked_handshake_def data_frame_def frame_fields_def split: option.split)
qed

theorem stun_decoy_unanswered_witness:
  "process_packet toy_crypto sample_env sample_server sample_addr (stun_binding_req (ent sample_env)) [] [] =
     (sample_server, [], None)"
proof -
  have "send_illusion_prebypass sample_env sample_client =
      ([UdpSend (stun_binding_req (ent sample_env)) (ustr ''10.0.0.1'', 50006)], None)"
    by (simp add: send_illusion_prebypass_def get_current_port_def sample_client_def sample_env_def)
  from stun_decoy_unanswered [OF this] show ?thesis by blast
qed

text \<open>The port a client hops to is at any moment one of the ports that a server with the same base
  port and at least as many ports tries to bind, and one it listens on when that port could be bound.\<close>
theorem hop_port_listened:
  assumes "get_current_port E cl = Inr p" "cl_base_port cl = sv_base_port st"
    and "cl_port_count cl \<le> sv_port_count st" "can_bind p"
  shows "\<exists>ps. bound_ports st can_bind = Some ps \<and> p \<in> set ps"
proof -
  have "p \<in> set (filter can_bind [sv_base_port st..<sv_base_port st + sv_port_count st])"
    using assms by (auto simp: get_current_port_def split: if_splits intro: less_le_trans [OF mod_less_divisor])
  moreover from this have "filter can_bind [sv_base_port st..<sv_base_port st + sv_port_count st] \<noteq> []" by force
  ultimately show ?thesis by (simp only: bound_ports_def Let_def if_False simp_thms) blast
qed

theorem hop_port_listened_witness: "\<exists>ps. bound_ports sample_server (\<lambda>p. p = 50006) = Some ps \<and> 50006 \<in> set ps"
  by (rule hop_port_listened [where E = sample_env and cl = sample_client])
    (simp_all add: get_current_port_def sample_client_def sample_server_def sample_env_def)

end
