(* ===== verification/Socks.thy ===== *)
theory Socks
  imports Tunnel
begin

text \<open>
  The local side of aegs_client.py: \<open>handle_client_conn\<close> recognises SOCKS5, HTTP CONNECT and
  plain HTTP on an accepted connection, turns the request into a connect frame and then copies
  data. The TCP connection is the list of segments that arrive on it: \<open>recv(n)\<close> returns at most
  \<open>n\<close> bytes of the first segment, and the empty byte string at the end of the stream.
\<close>

section \<open>Reading a connection\<close>

fun sock_recv :: "nat \<Rightarrow> bytes list \<Rightarrow> bytes \<times> bytes list" where
  "sock_recv n [] = ([], [])"
| "sock_recv n (s # ss) =
     (if n = 0 then ([], s # ss) else (take n s, if length s \<le> n then ss else drop n s # ss))"

lemma sock_recv_total:
  "sum_list (map length (snd (sock_recv n segs))) + length (fst (sock_recv n segs)) = sum_list (map length segs)"
  by (cases segs) auto

lemma sock_recv_decreases:
  "sock_recv n segs = (d, rest) \<Longrightarrow> d \<noteq> [] \<Longrightarrow> sum_list (map length rest) < sum_list (map length segs)"
  using sock_recv_total [of n segs] by (cases d) auto

definition crlf2 :: bytes where "crlf2 = [13, 10, 13, 10]"

text \<open>The loop \<open>while b"\r\n\r\n" not in http_req\<close>.\<close>

function read_headers :: "bytes \<Rightarrow> bytes list \<Rightarrow> bytes \<times> bytes list" where
  "read_headers buf segs =
     (if has_sub crlf2 buf then (buf, segs)
      else (case sock_recv 1024 segs of
          (chunk, rest) \<Rightarrow> if chunk = [] then (buf, rest) else read_headers (buf @ chunk) rest))"
  by pat_completeness auto
termination
  by (relation "measure (\<lambda>(buf, segs). sum_list (map length segs))")
    (auto dest: sock_recv_decreases [OF sym])

declare read_headers.simps [simp del]

section \<open>Text operations on requests\<close>

fun split_crlf :: "bytes \<Rightarrow> bytes list" where
  "split_crlf [] = [[]]"
| "split_crlf [b] = [[b]]"
| "split_crlf (a # b # bs) =
     (if a = 13 \<and> b = 10 then [] # split_crlf bs
      else (case split_crlf (b # bs) of [] \<Rightarrow> [[a]] | p # ps \<Rightarrow> (a # p) # ps))"

definition lower_bytes :: "bytes \<Rightarrow> bytes" where
  "lower_bytes bs = map (\<lambda>b. if 65 \<le> unat b \<and> unat b \<le> 90 then b + 32 else b) bs"

section \<open>SOCKS5\<close>

definition inet_ntoa :: "bytes \<Rightarrow> pyexn + ustr" where
  "inet_ntoa b =
     (if length b = 4
      then Inr (str_nat (unat (b ! 0)) @ [46] @ str_nat (unat (b ! 1)) @ [46] @
                str_nat (unat (b ! 2)) @ [46] @ str_nat (unat (b ! 3)))
      else Inl OSError)"

text \<open>The destination by address type; \<open>Inr None\<close> is the plain \<open>return\<close>.\<close>

definition socks_dest :: "byte \<Rightarrow> bytes list \<Rightarrow> (pyexn + ustr option) \<times> bytes list" where
  "socks_dest atyp segs =
     (if atyp = 1 then
        (case sock_recv 4 segs of (b, r) \<Rightarrow>
           (case inet_ntoa b of Inl e \<Rightarrow> Inl e | Inr h \<Rightarrow> Inr (Some h), r))
      else if atyp = 3 then
        (case sock_recv 1 segs of (l, r) \<Rightarrow>
           (case py_get l 0 of
              Inl e \<Rightarrow> (Inl e, r)
            | Inr n \<Rightarrow>
                (case sock_recv (unat n) r of (d, r2) \<Rightarrow>
                   (case utf8_decode d of None \<Rightarrow> Inl UnicodeError | Some h \<Rightarrow> Inr (Some h), r2))))
      else (Inr None, segs))"

text \<open>What the handler does, in order; frames are sent by \<open>send_raw_packet\<close>.\<close>

datatype conn_act =
    Frame nat bytes      \<comment> \<open>command and payload\<close>
  | Touch                \<comment> \<open>\<open>last_real_traffic = time.time()\<close>\<close>
  | Reply bytes          \<comment> \<open>\<open>conn.sendall\<close>\<close>
  | Chunk bytes          \<comment> \<open>one round of the copy loop\<close>

definition socks5_request :: "bytes list \<Rightarrow> conn_act list \<times> (pyexn + (ustr \<times> nat) option) \<times> bytes list" where
  "socks5_request segs =
     (case sock_recv 2 segs of (hello, s1) \<Rightarrow>
        if length hello \<noteq> 2 then ([], Inl StructError, s1)
        else
          (case sock_recv (unat (hello ! 1)) s1 of (methods, s2) \<Rightarrow>
           case sock_recv 4 s2 of (req, s3) \<Rightarrow>
             if req = [] then ([Reply [5, 0]], Inr None, s3)
             else
               (case py_get req 1 of
                  Inl e \<Rightarrow> ([Reply [5, 0]], Inl e, s3)
                | Inr c \<Rightarrow>
                    if c \<noteq> 1 then ([Reply [5, 0]], Inr None, s3)
                    else
                      (case py_get req 3 of
                         Inl e \<Rightarrow> ([Reply [5, 0]], Inl e, s3)
                       | Inr atyp \<Rightarrow>
                           (case socks_dest atyp s3 of
                              (Inl e, s4) \<Rightarrow> ([Reply [5, 0]], Inl e, s4)
                            | (Inr None, s4) \<Rightarrow> ([Reply [5, 0]], Inr None, s4)
                            | (Inr (Some host), s4) \<Rightarrow>
                                (case sock_recv 2 s4 of (pb, s5) \<Rightarrow>
                                   (case unpack_be 2 pb of
                                      None \<Rightarrow> ([Reply [5, 0]], Inl StructError, s5)
                                    | Some port \<Rightarrow> ([Reply [5, 0]], Inr (Some (host, port)), s5))))))))"

text \<open>
  \<open>struct.pack(">B", len(dest_addr)) + dest_addr.encode() + struct.pack(">H", dest_port)\<close>:
  the length byte counts characters, the host that follows is UTF-8.
\<close>

definition connect_payload :: "ustr \<Rightarrow> int \<Rightarrow> pyexn + bytes" where
  "connect_payload host port =
     (case pack_be 1 (int (length host)) of
        None \<Rightarrow> Inl StructError
      | Some l \<Rightarrow>
          (case utf8_encode host of
             None \<Rightarrow> Inl UnicodeError
           | Some h \<Rightarrow>
               (case pack_be 2 port of None \<Rightarrow> Inl StructError | Some p \<Rightarrow> Inr (l @ h @ p))))"

section \<open>HTTP\<close>

text \<open>\<open>host:port\<close>, or the default port; \<open>split(":")\<close> must give exactly two parts.\<close>

definition split_target :: "ustr \<Rightarrow> int \<Rightarrow> pyexn + ustr \<times> int" where
  "split_target target default_port =
     (if 58 \<in> set target then
        (case split_on 58 target of
           [h, p] \<Rightarrow> (case py_int p of None \<Rightarrow> Inl ValueError | Some n \<Rightarrow> Inr (h, n))
         | _ \<Rightarrow> Inl ValueError)
      else Inr (target, default_port))"

definition connect_target :: "bytes \<Rightarrow> pyexn + ustr \<times> int" where
  "connect_target http_req =
     (let first_line = latin1_decode (hd (split_crlf http_req)) in
      case py_get (split_ws first_line) 1 of
        Inl e \<Rightarrow> Inl e
      | Inr target \<Rightarrow> split_target target 443)"

definition host_header :: "bytes \<Rightarrow> ustr option" where
  "host_header http_req =
     (case filter (\<lambda>l. starts_with (lower_bytes l) (bstr ''host:'')) (split_crlf http_req) of
        [] \<Rightarrow> None
      | l # _ \<Rightarrow> Some (latin1_decode (strip_by is_bspace (tl (dropWhile (\<lambda>b. b \<noteq> 58) l)))))"

section \<open>The handler\<close>

text \<open>The copy loop \<open>data = conn.recv(16384)\<close> until the end of the stream.\<close>

function pump :: "bytes list \<Rightarrow> conn_act list" where
  "pump segs =
     (case sock_recv 16384 segs of (d, rest) \<Rightarrow> if d = [] then [] else Chunk d # pump rest)"
  by pat_completeness auto
termination
  by (relation "measure (\<lambda>segs. sum_list (map length segs))") (auto dest: sock_recv_decreases [OF sym])

declare pump.simps [simp del]

lemma pump_Nil [simp]: "pump [] = []"
  by (simp add: pump.simps [of "[]"])

definition established :: bytes where
  "established = bstr ''HTTP/1.1 200 Connection Established'' @ crlf2"

text \<open>Everything the \<open>try\<close> block does with the connection, an exception ending it early.\<close>

definition conn_script :: "bytes list \<Rightarrow> conn_act list" where
  "conn_script segs =
     (let peek = fst (sock_recv 1024 segs) in
      if peek = [] then []
      else if peek ! 0 = 5 then
        (case socks5_request segs of
           (acts, Inr (Some (host, port)), rest) \<Rightarrow>
             (case connect_payload host (int port) of
                Inl _ \<Rightarrow> acts
              | Inr p \<Rightarrow> acts @ [Frame CMD_CONNECT p, Touch, Reply [5, 0, 0, 1, 0, 0, 0, 0, 0, 0]] @ pump rest)
         | (acts, _, _) \<Rightarrow> acts)
      else if starts_with peek (bstr ''CONNECT '') then
        (case read_headers [] segs of (http_req, rest) \<Rightarrow>
           (case connect_target http_req of
              Inl _ \<Rightarrow> []
            | Inr (host, port) \<Rightarrow>
                (case connect_payload host port of
                   Inl _ \<Rightarrow> []
                 | Inr p \<Rightarrow> [Frame CMD_CONNECT p, Touch, Reply established] @ pump rest)))
      else
        (case read_headers [] segs of (http_req, rest) \<Rightarrow>
           (case host_header http_req of
              None \<Rightarrow> []
            | Some [] \<Rightarrow> []
            | Some h \<Rightarrow>
                (case split_target h 80 of
                   Inl _ \<Rightarrow> []
                 | Inr (host, port) \<Rightarrow>
                     (case connect_payload host port of
                        Inl _ \<Rightarrow> []
                      | Inr p \<Rightarrow> [Frame CMD_CONNECT p, Touch, Frame CMD_DATA http_req] @ pump rest)))))"

text \<open>Running the script on the client's state; step \<open>k\<close> sees the environment \<open>Es k\<close>.\<close>

fun run_script :: "crypto \<Rightarrow> (nat \<Rightarrow> env) \<Rightarrow> nat \<Rightarrow> client \<Rightarrow> nat \<Rightarrow> nat \<Rightarrow> conn_act list \<Rightarrow> client \<times> cl_out list" where
  "run_script C Es k cl sid conn [] = (cl, [])"
| "run_script C Es k cl sid conn (Frame cmd p # acts) =
     (case send_raw_packet C (Es k) cl sid cmd p False of
        (cl', outs, None) \<Rightarrow>
          (case run_script C Es (Suc k) cl' sid conn acts of (cl2, outs2) \<Rightarrow> (cl2, outs @ outs2))
      | (cl', outs, Some e) \<Rightarrow> (cl', outs))"
| "run_script C Es k cl sid conn (Touch # acts) =
     run_script C Es (Suc k) (cl\<lparr>cl_last_real := now_us (Es k)\<rparr>) sid conn acts"
| "run_script C Es k cl sid conn (Reply b # acts) =
     (if stream_ok (Es k) conn
      then (case run_script C Es (Suc k) cl sid conn acts of (cl2, outs2) \<Rightarrow> (cl2, ConnSend conn b # outs2))
      else (cl, []))"
| "run_script C Es k cl sid conn (Chunk d # acts) =
     (if cl_running cl then
        (case send_raw_packet C (Es k) cl sid CMD_DATA d False of
           (cl', outs, None) \<Rightarrow>
             (case run_script C Es (Suc k) (cl'\<lparr>cl_last_real := now_us (Es k)\<rparr>) sid conn acts of
                (cl2, outs2) \<Rightarrow> (cl2, outs @ outs2))
         | (cl', outs, Some e) \<Rightarrow> (cl', outs))
      else (cl, []))"

definition handle_client_conn :: "crypto \<Rightarrow> (nat \<Rightarrow> env) \<Rightarrow> client \<Rightarrow> nat \<Rightarrow> nat \<Rightarrow> bytes list \<Rightarrow> client \<times> cl_out list" where
  "handle_client_conn C Es cl sid conn segs =
     (case run_script C Es 1 cl sid conn (conn_script segs) of
        (cl1, outs) \<Rightarrow>
          (case conn_finally C (Es 0) cl1 sid conn of (cl2, outs2, _) \<Rightarrow> (cl2, outs @ outs2)))"

section \<open>Text lemmas\<close>

lemma split_crlf_nonempty: "split_crlf bs \<noteq> []"
  by (induction bs rule: split_crlf.induct) (auto split: list.splits)

lemma hd_split_crlf: "13 \<notin> set l \<Longrightarrow> hd (split_crlf (l @ 13 # 10 # r)) = l"
proof (induction l)
  case (Cons a l)
  then obtain p ps where "split_crlf (l @ 13 # 10 # r) = p # ps" "p = l"
    using split_crlf_nonempty by (cases "split_crlf (l @ 13 # 10 # r)") auto
  with Cons.prems show ?case by (cases l) auto
qed simp

lemma connect_payload_ascii:
  "ascii host \<Longrightarrow> length host < 256 \<Longrightarrow> port < 65536 \<Longrightarrow>
   connect_payload host (int port) = Inr (be_bytes 1 (length host) @ map of_nat host @ be_bytes 2 port)"
  by (simp add: connect_payload_def pack_be_def utf8_encode_ascii)

section \<open>Properties\<close>

text \<open>The bytes that the copy loop hands on.\<close>

definition pumped :: "conn_act list \<Rightarrow> bytes list" where
  "pumped acts = concat (map (\<lambda>a. case a of Chunk d \<Rightarrow> [d] | _ \<Rightarrow> []) acts)"

lemma sock_recv_concat: "0 < n \<Longrightarrow> concat segs = fst (sock_recv n segs) @ concat (snd (sock_recv n segs))"
  by (cases segs) auto

lemma sock_recv_no_empty:
  "[] \<notin> set segs \<Longrightarrow> 0 < n \<Longrightarrow> sock_recv n segs = (d, rest) \<Longrightarrow>
   [] \<notin> set rest \<and> (d = [] \<longrightarrow> segs = []) \<and> length d \<le> n"
  by (cases segs) (auto split: if_splits)

text \<open>The copy loop loses and invents nothing: whatever the segmentation of the stream, the chunks it
  sends are, concatenated, the bytes that arrived, and none is longer than 16384 bytes.\<close>
theorem pump_copies_stream:
  assumes "[] \<notin> set segs"
  shows "concat (pumped (pump segs)) = concat segs \<and> (\<forall>d \<in> set (pumped (pump segs)). length d \<le> 16384)"
  using assms
proof (induction segs rule: pump.induct)
  case (1 segs)
  obtain d rest where r: "sock_recv 16384 segs = (d, rest)" by fastforce
  have e: "[] \<notin> set rest" "d = [] \<longrightarrow> segs = []" "length d \<le> 16384"
    using sock_recv_no_empty [OF 1(2) _ r] by auto
  show ?case
  proof (cases "d = []")
    case True
    with e r show ?thesis by (simp add: pump.simps [of segs] pumped_def)
  next
    case False
    have "concat segs = d @ concat rest" using sock_recv_concat [of 16384 segs] r by simp
    with 1(1) [OF r [symmetric] False e(1)] False r e(3) show ?thesis
      by (simp add: pump.simps [of segs] pumped_def)
  qed
qed

theorem pump_copies_stream_witness:
  "concat (pumped (pump [[1, 2], [3]])) = [1, 2, 3]"
  using pump_copies_stream [of "[[1, 2], [3]]"] by simp






text \<open>A request line \<open>CONNECT host:port HTTP/1.1\<close> that arrives in one segment with its headers
  opens exactly that host and port and is answered with status 200.\<close>
theorem http_connect_request:
  assumes "ascii host" "\<forall>c \<in> set host. \<not> is_space c \<and> c \<noteq> 58" "length host < 256" "port < 65536"
    and "seg = bstr ''CONNECT '' @ map of_nat (host @ [58] @ str_nat port) @ bstr '' HTTP/1.1'' @ 13 # 10 # headers"
    and "has_sub crlf2 seg" "length seg \<le> 1024"
  shows "conn_script (seg # data) =
    [Frame CMD_CONNECT (be_bytes 1 (length host) @ map of_nat host @ be_bytes 2 port), Touch, Reply established] @
    pump data"
proof -
  let ?t = "host @ [58] @ str_nat port"
  let ?line = "bstr ''CONNECT '' @ map of_nat ?t @ bstr '' HTTP/1.1''"
  have dig: "\<forall>c \<in> set (str_nat port). \<not> is_space c \<and> c \<noteq> 58 \<and> c < 128"
    using set_str_nat digit_not_space by blast
  then have at: "ascii ?t" using assms(1) by (auto simp: ascii_def)
  have sp: "\<forall>c \<in> set ?t. \<not> is_space c" using assms(2) dig by (auto simp: is_space_def)
  have peek: "fst (sock_recv 1024 (seg # data)) = seg" "seg \<noteq> []" "seg ! 0 \<noteq> 5"
    "starts_with seg (bstr ''CONNECT '')"
    using assms(5,7) by (simp_all add: bstr_def starts_with_def)
  have read: "read_headers [] (seg # data) = (seg, data)"
    using peek(2) assms(6,7)
    by (subst read_headers.simps, simp add: crlf2_def) (simp add: read_headers.simps crlf2_def)
  have "13 \<notin> set ?line"
  proof -
    have "(13 :: byte) \<noteq> of_nat c" if "c \<in> set ?t" for c
    proof
      assume "13 = (of_nat c :: byte)"
      then have "unat (13 :: byte) = unat (of_nat c :: byte)" by simp
      moreover have "c < 128" using at that unfolding ascii_def by blast
      ultimately have "c = 13" by (simp add: unat_of_nat_byte)
      moreover have "is_space 13" by (simp add: is_space_def)
      ultimately show False using sp that by blast
    qed
    then show ?thesis by (auto simp: bstr_def)
  qed
  from hd_split_crlf [OF this, of headers] have hd: "hd (split_crlf seg) = ?line"
    using assms(5) by (simp only: append_assoc)
  have lat: "latin1_decode ?line = ustr ''CONNECT'' @ 32 # ?t @ 32 # ustr ''HTTP/1.1''"
  proof -
    have "latin1_decode (bstr ''CONNECT '') = ustr ''CONNECT'' @ [32]"
      "latin1_decode (bstr '' HTTP/1.1'') = 32 # ustr ''HTTP/1.1''"
      by (simp_all add: latin1_decode_def bstr_def ustr_def)
    then show ?thesis unfolding latin1_append latin1_of_ascii [OF at] by simp
  qed
  have ws: "split_ws (ustr ''CONNECT'' @ 32 # ?t @ 32 # ustr ''HTTP/1.1'') = [ustr ''CONNECT'', ?t, ustr ''HTTP/1.1'']"
  proof -
    have "split_ws_aux [] (ustr ''HTTP/1.1'') = [ustr ''HTTP/1.1'']" by (simp add: ustr_def is_space_def)
    moreover have "split_ws_aux [] (ustr ''CONNECT'' @ 32 # r) = ustr ''CONNECT'' # split_ws_aux [] r" for r
      using split_ws_word [of "ustr ''CONNECT''" "[]" r] by (simp add: ustr_def is_space_def)
    ultimately show ?thesis
      using split_ws_word [OF sp, of "[]" "ustr ''HTTP/1.1''"] by (simp add: split_ws_def)
  qed
  have "58 \<notin> set host" "58 \<notin> set (str_nat port)" using assms(2) dig by blast+
  then have so: "split_on 58 ?t = [host, str_nat port]"
    by (simp add: split_on_append split_on_absent)
  have "connect_target seg = Inr (host, int port)"
    unfolding connect_target_def Let_def hd lat ws
    using so by (simp add: py_get_def split_target_def py_int_str_nat)
  then show ?thesis
    unfolding conn_script_def Let_def
    using peek read assms(1,3,4) by (simp add: connect_payload_ascii)
qed

theorem http_connect_request_witness:
  "conn_script [bstr ''CONNECT '' @ map of_nat ([97, 46, 98] @ [58] @ str_nat 443) @ bstr '' HTTP/1.1'' @ 13 # 10 # [13, 10]] =
    [Frame CMD_CONNECT (be_bytes 1 (length [97 :: nat, 46, 98]) @ map of_nat [97, 46, 98] @ be_bytes 2 443), Touch, Reply established]"
proof -
  let ?s = "bstr ''CONNECT '' @ map of_nat ([97, 46, 98] @ [58] @ str_nat 443) @ bstr '' HTTP/1.1'' @ 13 # 10 # [13, 10]"
  have "ascii [97, 46, 98]" "\<forall>c \<in> set [97, 46, 98]. \<not> is_space c \<and> c \<noteq> 58" by (simp_all add: is_space_def)
  moreover have "has_sub crlf2 ?s" "length ?s \<le> 1024" by code_simp+
  ultimately show ?thesis using http_connect_request [of "[97, 46, 98]" 443 ?s "[13, 10]" "[]"] by simp
qed

text \<open>A connect target with more than one colon, such as a bracketed IPv6 address with a port, is
  refused: the request is dropped and no frame leaves the client.\<close>
theorem ipv6_target_refused:
  assumes "2 \<le> count_list target 58"
  shows "split_target target d = Inl ValueError"
proof -
  have l: "length (split_on c xs) = Suc (count_list xs c)" for c :: nat and xs
    by (induction xs) (auto split: list.splits)
  have "58 \<in> set target" using assms by (metis count_notin not_numeral_le_zero)
  moreover have "length (split_on 58 target) \<noteq> 2" using l [of 58 target] assms by simp
  ultimately show ?thesis by (auto simp: split_target_def split: list.splits)
qed

theorem ipv6_target_refused_witness: "split_target [91, 58, 58, 49, 93, 58, 52, 52, 51] 443 = Inl ValueError"
  by (rule ipv6_target_refused) simp

text \<open>A host name with a character outside ASCII is framed with its length in characters although its
  UTF-8 form is longer: the server connects to the name cut short and to a port read from the
  middle of the name.\<close>
theorem non_ascii_host_misread:
  assumes "connect_payload host port = Inr p" "utf8_encode host = Some hb" "length host + 2 \<le> length hb"
    and "sid < 2 ^ 32"
  shows "fst (snd (handle_client_payload E st (be_bytes 4 sid @ be_bytes 1 CMD_CONNECT @ p @ pad) a)) =
    [Log (LogForward sid (fst a) (utf8_decode_replace (take (length host) hb))
            (be_val (slice hb (length host) (length host + 2)))),
     StartProxy sid (utf8_decode_replace (take (length host) hb)) (be_val (slice hb (length host) (length host + 2)))]"
proof -
  obtain pb where p: "p = be_bytes 1 (length host) @ hb @ pb" "length host < 256"
    using assms(1,2) by (auto simp: connect_payload_def pack_be_def split: if_splits option.splits)
  have l: "length (be_bytes 4 sid) = 4" by (rule length_be_bytes)
  have v: "be_val (be_bytes 4 sid) = sid" using assms(4) by (intro be_val_be_bytes) simp
  have one: "be_bytes 1 n = [of_nat n]" for n by (simp add: be_bytes_def)
  define pt where "pt = be_bytes 4 sid @ be_bytes 1 CMD_CONNECT @ p @ pad"
  have s: "5 \<le> length pt" "slice pt 0 4 = be_bytes 4 sid" "pt ! 4 = of_nat CMD_CONNECT" "5 < length pt"
    "pt ! 5 = of_nat (length host)" "slice pt 6 (6 + length host) = take (length host) hb"
    "slice pt (6 + length host) (8 + length host) = slice hb (length host) (length host + 2)"
    using l one assms(3) by (simp_all add: pt_def p(1) slice_def nth_append)
  have "length (slice hb (length host) (length host + 2)) = 2" using assms(3) by (simp add: slice_def)
  then show ?thesis
    unfolding pt_def [symmetric]
    using s v p(2) by (simp add: handle_client_payload_def cmd_defs Let_def py_get_def unat_of_nat_byte unpack_be_def)
qed

theorem non_ascii_host_misread_witness:
  "\<exists>p port. connect_payload [252, 252] 80 = Inr p \<and>
     StartProxy 101 (utf8_decode_replace [0xC3, 0xBC]) port \<in>
       set (fst (snd (handle_client_payload sample_env sample_server
         (be_bytes 4 101 @ be_bytes 1 CMD_CONNECT @ p @ []) sample_addr)))"
proof -
  have e: "utf8_encode [252, 252] = Some [0xC3, 0xBC, 0xC3, 0xBC]" by code_simp
  obtain p where p: "connect_payload [252, 252] 80 = Inr p"
    using e by (simp add: connect_payload_def pack_be_def)
  have l: "length [252 :: nat, 252] + 2 \<le> length [0xC3 :: byte, 0xBC, 0xC3, 0xBC]" "(101 :: nat) < 2 ^ 32" by simp_all
  have t: "take (length [252 :: nat, 252]) [0xC3 :: byte, 0xBC, 0xC3, 0xBC] = [0xC3, 0xBC]" by simp
  note r = non_ascii_host_misread [OF p e l, of sample_env sample_server "[]" sample_addr, unfolded t]
  show ?thesis by (intro exI conjI, rule p) (subst r, rule list.set_intros(2) [OF list.set_intros(1)])
qed

end
