(* ===== verification/Gateway.thy ===== *)
theory Gateway
  imports Socks
begin

text \<open>
  aegs_tunnel_gateway.py: the second, self-contained pair of server and client. It derives its
  keys from another salt and other labels, puts the zero bytes of the mask nonce first, knows
  only the raw handshake, keeps the sequence numbers it has seen in a set that is never
  cleared, and pads the frames of the server only.
\<close>

section \<open>Key derivation and header\<close>

definition gw_hkdf_extract_and_expand :: "crypto \<Rightarrow> bytes \<Rightarrow> bytes \<Rightarrow> bytes \<Rightarrow> nat \<Rightarrow> bytes" where
  "gw_hkdf_extract_and_expand C secret salt info n = hkdf C (Some salt) secret info n"

definition gw_mask_unmask_header :: "crypto \<Rightarrow> bytes \<Rightarrow> bytes \<Rightarrow> bytes \<Rightarrow> bytes" where
  "gw_mask_unmask_header C data mask_key iv =
     chacha20 C mask_key (if length iv = 12 then [0, 0, 0, 0] @ iv else iv) data"

definition gw_raw_kid :: "bytes \<Rightarrow> bytes" where
  "gw_raw_kid tok = take 8 (sha256 tok)"

text \<open>The master key: the salt is the key identifier in hexadecimal text.\<close>

definition gw_master_key :: "bytes \<Rightarrow> bytes" where
  "gw_master_key tok = pbkdf2_sha256 tok (map of_nat (hex_of (gw_raw_kid tok)))"

definition gw_mask_key :: "crypto \<Rightarrow> bytes \<Rightarrow> bytes" where
  "gw_mask_key C mk = hkdf_expand C mk (bstr ''aegis-v2-header-mask'') 32"

definition gw_outer_header :: "crypto \<Rightarrow> bytes \<Rightarrow> bytes \<Rightarrow> bytes \<Rightarrow> bytes \<Rightarrow> bytes" where
  "gw_outer_header C mask_key kid iv junk =
     iv @ gw_mask_unmask_header C (plain_header kid (length junk) 0) mask_key iv @ junk"

section \<open>Server\<close>

record gw_server =
  gs_raw_kid :: bytes
  gs_master_key :: bytes
  gs_mask_key :: bytes
  gs_streams :: "nat \<rightharpoonup> nat"
  gs_client_addr :: "addr option"
  gs_recv_key :: "bytes option"
  gs_send_key :: "bytes option"
  gs_tx_seq :: nat
  gs_seen :: "nat set"

type_synonym gw_res = "gw_server \<times> srv_out list"

definition gw_server_init :: "crypto \<Rightarrow> ustr \<Rightarrow> pyexn + gw_server" where
  "gw_server_init C token =
     (case utf8_encode token of
        None \<Rightarrow> Inl UnicodeError
      | Some tok \<Rightarrow>
          Inr \<lparr>gs_raw_kid = gw_raw_kid tok, gs_master_key = gw_master_key tok,
               gs_mask_key = gw_mask_key C (gw_master_key tok), gs_streams = Map.empty,
               gs_client_addr = None, gs_recv_key = None, gs_send_key = None, gs_tx_seq = 0,
               gs_seen = {}\<rparr>)"

text \<open>The duplicate check of the data branch: the number is entered before decryption.\<close>

definition seen_check :: "nat set \<Rightarrow> nat \<Rightarrow> bool \<times> nat set" where
  "seen_check seen seq = (if seq \<in> seen then (True, seen) else (False, insert seq seen))"

definition gw_handshake ::
  "crypto \<Rightarrow> env \<Rightarrow> gw_server \<Rightarrow> addr \<Rightarrow> bytes \<Rightarrow> bytes \<Rightarrow> bytes \<Rightarrow> gw_res" where
  "gw_handshake C E st a data server_priv server_pub =
     (if slice data 8 16 \<noteq> gs_raw_kid st then (st, [])
      else if slice data 56 72 \<noteq> take 16 (hmac_sha256 (gs_master_key st) (slice data 0 56)) then (st, [])
      else (case x25519_exchange C server_priv (slice data 16 48) of
         None \<Rightarrow> (st, [])
       | Some shared \<Rightarrow>
           (let rk = gw_hkdf_extract_and_expand C shared (gs_master_key st) (bstr ''aegs-c2s'') 32;
                sk = gw_hkdf_extract_and_expand C shared (gs_master_key st) (bstr ''aegs-s2c'') 32;
                st1 = st\<lparr>gs_recv_key := Some rk, gs_send_key := Some sk, gs_client_addr := Some a\<rparr>;
                resp_hdr = [2] @ replicate 7 0 @ token_bytes (ent E) 0 8 @ server_pub;
                enc_cfg = aead_encrypt C sk (replicate 12 0) raw_config (Some resp_hdr)
            in if send_ok E then (st1, [SendTo (resp_hdr @ enc_cfg) a]) else (st1, []))))"

definition gw_handle_client_payload :: "env \<Rightarrow> gw_server \<Rightarrow> bytes \<Rightarrow> gw_res" where
  "gw_handle_client_payload E st pt =
     (if length pt < 5 then (st, [])
      else
        (let stream_id = be_val (slice pt 0 4); cmd = unat (pt ! 4) in
         if cmd = CMD_CONNECT then
           (case py_get pt 5 of
              Inl e \<Rightarrow> (st, [])
            | Inr hl \<Rightarrow>
                (let host_len = unat hl;
                     host = utf8_decode_replace (slice pt 6 (6 + host_len))
                 in case unpack_be 2 (slice pt (6 + host_len) (8 + host_len)) of
                      None \<Rightarrow> (st, [])
                    | Some port \<Rightarrow> (st, [StartProxy stream_id host port])))
         else if cmd = CMD_DATA then
           (case gs_streams st stream_id of
              None \<Rightarrow> (st, [])
            | Some s \<Rightarrow> (st, if stream_ok E s then [StreamSend s (drop 5 pt)] else []))
         else if cmd = CMD_CLOSE then
           (case gs_streams st stream_id of
              None \<Rightarrow> (st, [])
            | Some s \<Rightarrow> (st\<lparr>gs_streams := (gs_streams st)(stream_id := None)\<rparr>, [StreamShut s]))
         else (st, [])))"

definition gw_frame_offset :: "crypto \<Rightarrow> gw_server \<Rightarrow> bytes \<Rightarrow> nat option" where
  "gw_frame_offset C st data =
     (if length data < 56 then None
      else
        (let unmasked = gw_mask_unmask_header C (slice data 12 28) (gs_mask_key st) (slice data 0 12) in
         if slice unmasked 0 8 \<noteq> gs_raw_kid st \<or> slice unmasked 12 16 \<noteq> ver_magic then None
         else
           (let aead_offset = 12 + 16 + be_val (slice unmasked 8 10) in
            if length data < aead_offset + 12 + 16 then None else Some aead_offset)))"

definition gw_data_frame :: "crypto \<Rightarrow> env \<Rightarrow> gw_server \<Rightarrow> bytes \<Rightarrow> gw_res" where
  "gw_data_frame C E st data =
     (case gs_recv_key st of
        None \<Rightarrow> (st, [])
      | Some rk \<Rightarrow>
          (case gw_frame_offset C st data of
             None \<Rightarrow> (st, [])
           | Some off \<Rightarrow>
               (case seen_check (gs_seen st) (frame_seq data off) of
                  (True, seen) \<Rightarrow> (st\<lparr>gs_seen := seen\<rparr>, [])
                | (False, seen) \<Rightarrow>
                    (case aead_decrypt C rk (frame_nonce data off) (drop (off + 12) data) (Some (slice data 0 off)) of
                       None \<Rightarrow> (st\<lparr>gs_seen := seen\<rparr>, [])
                     | Some pt \<Rightarrow> gw_handle_client_payload E (st\<lparr>gs_seen := seen\<rparr>) pt))))"

text \<open>One round of the receive loop; every exception is swallowed there.\<close>

definition gw_on_datagram :: "crypto \<Rightarrow> env \<Rightarrow> gw_server \<Rightarrow> addr \<Rightarrow> bytes \<Rightarrow> bytes \<Rightarrow> bytes \<Rightarrow> gw_res" where
  "gw_on_datagram C E st a data server_priv server_pub =
     (if length data < 20 then (st, [])
      else if data ! 0 = 1 \<and> length data \<ge> 72 then gw_handshake C E st a data server_priv server_pub
      else gw_data_frame C E st data)"

definition gw_frame_packet :: "crypto \<Rightarrow> entropy \<Rightarrow> bytes \<Rightarrow> bytes \<Rightarrow> bytes \<Rightarrow> nat \<Rightarrow> bytes \<Rightarrow> bytes" where
  "gw_frame_packet C e mask_key kid key seq frame =
     (let aead_nonce = le_bytes 8 seq @ token_bytes e 64 4;
          outer = gw_outer_header C mask_key kid (token_bytes e 68 12) (token_bytes e 80 8)
      in outer @ aead_nonce @ aead_encrypt C key aead_nonce frame (Some outer))"

definition gw_send_aegs_frame :: "crypto \<Rightarrow> env \<Rightarrow> gw_server \<Rightarrow> nat \<Rightarrow> nat \<Rightarrow> bytes \<Rightarrow> gw_server \<times> srv_out list \<times> pyexn option" where
  "gw_send_aegs_frame C E st stream_id cmd payload =
     (case (gs_client_addr st, gs_send_key st) of
        (Some a, Some sk) \<Rightarrow>
          (case (pack_be 4 (int stream_id), pack_be 1 (int cmd)) of
             (Some sid, Some c) \<Rightarrow>
               (let e = ent E;
                    frame_with_pad = sid @ c @ payload @ token_bytes e 1 (16 + randbelow e 0 33);
                    st1 = st\<lparr>gs_tx_seq := gs_tx_seq st + 1\<rparr>;
                    pkt = gw_frame_packet C e (gs_mask_key st) (gs_raw_kid st) sk (gs_tx_seq st1) frame_with_pad
                in if gs_tx_seq st1 < 2 ^ 64
                   then (st1, if send_ok E then [SendTo pkt a] else [], None)
                   else (st1, [], Some StructError))
           | _ \<Rightarrow> (st, [], Some StructError))
      | _ \<Rightarrow> (st, [], None))"

definition gw_proxy_finally :: "crypto \<Rightarrow> env \<Rightarrow> gw_server \<Rightarrow> nat \<Rightarrow> nat option \<Rightarrow> gw_server \<times> srv_out list \<times> pyexn option" where
  "gw_proxy_finally C E st stream_id sock =
     (case gw_send_aegs_frame C E (st\<lparr>gs_streams := (gs_streams st)(stream_id := None)\<rparr>) stream_id CMD_CLOSE [] of
        (st', outs, None) \<Rightarrow> (st', outs @ (case sock of None \<Rightarrow> [] | Some s \<Rightarrow> [StreamShut s]), None)
      | (st', outs, Some e) \<Rightarrow> (st', outs, Some e))"

text \<open>The chunks of one proxy thread, until the remote closes or a send raises.\<close>

fun gw_proxy_pump :: "crypto \<Rightarrow> gw_server \<Rightarrow> nat \<Rightarrow> (env \<times> bytes) list \<Rightarrow> gw_server \<times> srv_out list" where
  "gw_proxy_pump C st sid [] = (st, [])"
| "gw_proxy_pump C st sid ((E, d) # cs) =
     (if d = [] then (st, [])
      else (case gw_send_aegs_frame C E st sid CMD_DATA d of
          (st', outs, None) \<Rightarrow> (case gw_proxy_pump C st' sid cs of (st2, outs2) \<Rightarrow> (st2, outs @ outs2))
        | (st', outs, Some e) \<Rightarrow> (st', outs)))"

definition gw_proxy_worker ::
  "crypto \<Rightarrow> env \<Rightarrow> gw_server \<Rightarrow> nat \<Rightarrow> nat option \<Rightarrow> (env \<times> bytes) list \<Rightarrow> gw_server \<times> srv_out list \<times> pyexn option" where
  "gw_proxy_worker C E st sid conn chunks =
     (case conn of
        None \<Rightarrow> gw_proxy_finally C E st sid None
      | Some sock \<Rightarrow>
          (case gw_proxy_pump C (st\<lparr>gs_streams := (gs_streams st)(sid \<mapsto> sock)\<rparr>) sid chunks of
             (st', outs) \<Rightarrow>
               (case gw_proxy_finally C E st' sid (Some sock) of
                  (st2, outs2, ex) \<Rightarrow> (st2, outs @ outs2, ex))))"

section \<open>Client\<close>

record gw_client =
  gc_server :: addr
  gc_raw_kid :: bytes
  gc_master_key :: bytes
  gc_mask_key :: bytes
  gc_send_key :: "bytes option"
  gc_recv_key :: "bytes option"
  gc_tx_seq :: nat
  gc_streams :: "nat \<rightharpoonup> nat"
  gc_stream_counter :: nat

definition gw_client_init :: "crypto \<Rightarrow> addr \<Rightarrow> ustr \<Rightarrow> pyexn + gw_client" where
  "gw_client_init C server token =
     (case utf8_encode token of
        None \<Rightarrow> Inl UnicodeError
      | Some tok \<Rightarrow>
          Inr \<lparr>gc_server = server, gc_raw_kid = gw_raw_kid tok, gc_master_key = gw_master_key tok,
               gc_mask_key = gw_mask_key C (gw_master_key tok), gc_send_key = None, gc_recv_key = None,
               gc_tx_seq = 0, gc_streams = Map.empty, gc_stream_counter = 0\<rparr>)"

definition gw_init_packet :: "gw_client \<Rightarrow> bytes \<Rightarrow> nat \<Rightarrow> bytes" where
  "gw_init_packet cl client_pub now_ms =
     (let body = [1] @ replicate 7 0 @ gc_raw_kid cl @ client_pub @ be_bytes 8 now_ms
      in body @ take 16 (hmac_sha256 (gc_master_key cl) body))"

text \<open>The answer: the keys are stored before the server's seal is checked.\<close>

definition gw_handshake_reply :: "crypto \<Rightarrow> gw_client \<Rightarrow> bytes \<Rightarrow> bytes \<Rightarrow> gw_client \<times> bool" where
  "gw_handshake_reply C cl client_priv resp =
     (if length resp < 80 \<or> resp ! 0 \<noteq> 2 then (cl, False)
      else (case x25519_exchange C client_priv (slice resp 16 48) of
         None \<Rightarrow> (cl, False)
       | Some shared \<Rightarrow>
           (let sk = gw_hkdf_extract_and_expand C shared (gc_master_key cl) (bstr ''aegs-c2s'') 32;
                rk = gw_hkdf_extract_and_expand C shared (gc_master_key cl) (bstr ''aegs-s2c'') 32;
                cl1 = cl\<lparr>gc_send_key := Some sk, gc_recv_key := Some rk\<rparr>
            in case aead_decrypt C rk (replicate 12 0) (drop 48 resp) (Some (take 48 resp)) of
                 None \<Rightarrow> (cl1, False)
               | Some _ \<Rightarrow> (cl1, True))))"

text \<open>\<open>perform_handshake\<close>: one datagram out, one in; \<open>None\<close> is the four-second timeout.\<close>

definition gw_perform_handshake ::
  "crypto \<Rightarrow> env \<Rightarrow> gw_client \<Rightarrow> bytes \<Rightarrow> bytes option \<Rightarrow> gw_client \<times> cl_out list \<times> bool" where
  "gw_perform_handshake C E cl client_priv arrival =
     (if send_ok E then
        (let pkt = gw_init_packet cl (x25519_public C client_priv) (now_us E div 1000) in
         case arrival of
           None \<Rightarrow> (cl, [UdpSend pkt (gc_server cl)], False)
         | Some d \<Rightarrow>
             (case gw_handshake_reply C cl client_priv (take 4096 d) of
                (cl', ok) \<Rightarrow> (cl', [UdpSend pkt (gc_server cl)], ok)))
      else (cl, [], False))"

definition gw_udp_receive :: "crypto \<Rightarrow> env \<Rightarrow> gw_client \<Rightarrow> bytes \<Rightarrow> gw_client \<times> cl_out list" where
  "gw_udp_receive C E cl data =
     (if length data < 56 then (cl, [])
      else
        (let unmasked = gw_mask_unmask_header C (slice data 12 28) (gc_mask_key cl) (slice data 0 12) in
         if slice unmasked 0 8 \<noteq> gc_raw_kid cl \<or> slice unmasked 12 16 \<noteq> ver_magic then (cl, [])
         else
           (let off = 12 + 16 + be_val (slice unmasked 8 10) in
            case gc_recv_key cl of
              None \<Rightarrow> (cl, [])
            | Some rk \<Rightarrow>
                (case aead_decrypt C rk (slice data off (off + 12)) (drop (off + 12) data) (Some (slice data 0 off)) of
                   None \<Rightarrow> (cl, [])
                 | Some pt \<Rightarrow>
                     if length pt < 5 then (cl, [])
                     else
                       (let stream_id = be_val (slice pt 0 4); cmd = unat (pt ! 4) in
                        case gc_streams cl stream_id of
                          None \<Rightarrow> (cl, [])
                        | Some s \<Rightarrow>
                            if cmd = CMD_DATA then (cl, if stream_ok E s then [ConnSend s (drop 5 pt)] else [])
                            else if cmd = CMD_CLOSE then
                              (cl\<lparr>gc_streams := (gc_streams cl)(stream_id := None)\<rparr>, [ConnShut s])
                            else (cl, []))))))"

text \<open>Without a key the cipher's constructor raises, after the counter has moved.\<close>

definition gw_send_aegs_packet ::
  "crypto \<Rightarrow> env \<Rightarrow> gw_client \<Rightarrow> nat \<Rightarrow> nat \<Rightarrow> bytes \<Rightarrow> gw_client \<times> cl_out list \<times> pyexn option" where
  "gw_send_aegs_packet C E cl stream_id cmd payload =
     (case (pack_be 4 (int stream_id), pack_be 1 (int cmd)) of
        (Some sid, Some c) \<Rightarrow>
          (let cl1 = cl\<lparr>gc_tx_seq := gc_tx_seq cl + 1\<rparr> in
           if gc_tx_seq cl1 < 2 ^ 64 then
             (case gc_send_key cl of
                None \<Rightarrow> (cl1, [], Some TypeError)
              | Some k \<Rightarrow>
                  (let pkt = gw_frame_packet C (ent E) (gc_mask_key cl) (gc_raw_kid cl) k (gc_tx_seq cl1)
                               (sid @ c @ payload)
                   in (cl1, if send_ok E then [UdpSend pkt (gc_server cl)] else [], None)))
           else (cl1, [], Some StructError))
      | _ \<Rightarrow> (cl, [], Some StructError))"

definition gw_register :: "gw_client \<Rightarrow> nat \<Rightarrow> gw_client \<times> nat" where
  "gw_register cl conn =
     (let sid = gc_stream_counter cl + 1
      in (cl\<lparr>gc_stream_counter := sid, gc_streams := (gc_streams cl)(sid \<mapsto> conn)\<rparr>, sid))"

text \<open>\<open>handle_socks_client\<close>: the same SOCKS5 dialogue as in aegs_client.py, then the copy loop.\<close>

definition gw_socks_script :: "bytes list \<Rightarrow> conn_act list" where
  "gw_socks_script segs =
     (case socks5_request segs of
        (acts, Inr (Some (host, port)), rest) \<Rightarrow>
          (case connect_payload host (int port) of
             Inl _ \<Rightarrow> acts
           | Inr p \<Rightarrow> acts @ [Frame CMD_CONNECT p, Reply [5, 0, 0, 1, 0, 0, 0, 0, 0, 0]] @ pump rest)
      | (acts, _, _) \<Rightarrow> acts)"

fun gw_run_script :: "crypto \<Rightarrow> (nat \<Rightarrow> env) \<Rightarrow> nat \<Rightarrow> gw_client \<Rightarrow> nat \<Rightarrow> nat \<Rightarrow> conn_act list \<Rightarrow> gw_client \<times> cl_out list" where
  "gw_run_script C Es k cl sid conn [] = (cl, [])"
| "gw_run_script C Es k cl sid conn (a # acts) =
     (case a of
        Reply b \<Rightarrow>
          if stream_ok (Es k) conn
          then (case gw_run_script C Es (Suc k) cl sid conn acts of (cl2, outs2) \<Rightarrow> (cl2, ConnSend conn b # outs2))
          else (cl, [])
      | Touch \<Rightarrow> gw_run_script C Es (Suc k) cl sid conn acts
      | Frame cmd p \<Rightarrow>
          (case gw_send_aegs_packet C (Es k) cl sid cmd p of
             (cl', outs, None) \<Rightarrow>
               (case gw_run_script C Es (Suc k) cl' sid conn acts of (cl2, outs2) \<Rightarrow> (cl2, outs @ outs2))
           | (cl', outs, Some e) \<Rightarrow> (cl', outs))
      | Chunk d \<Rightarrow>
          (case gw_send_aegs_packet C (Es k) cl sid CMD_DATA d of
             (cl', outs, None) \<Rightarrow>
               (case gw_run_script C Es (Suc k) cl' sid conn acts of (cl2, outs2) \<Rightarrow> (cl2, outs @ outs2))
           | (cl', outs, Some e) \<Rightarrow> (cl', outs)))"

definition gw_handle_socks_client ::
  "crypto \<Rightarrow> (nat \<Rightarrow> env) \<Rightarrow> gw_client \<Rightarrow> nat \<Rightarrow> nat \<Rightarrow> bytes list \<Rightarrow> gw_client \<times> cl_out list" where
  "gw_handle_socks_client C Es cl sid conn segs =
     (case gw_run_script C Es 1 cl sid conn (gw_socks_script segs) of
        (cl1, outs) \<Rightarrow>
          (case gw_send_aegs_packet C (Es 0) (cl1\<lparr>gc_streams := (gc_streams cl1)(sid := None)\<rparr>) sid CMD_CLOSE [] of
             (cl2, outs2, None) \<Rightarrow> (cl2, outs @ outs2 @ [ConnShut conn])
           | (cl2, outs2, Some e) \<Rightarrow> (cl2, outs @ outs2)))"

section \<open>Packets of the gateway pair\<close>

definition gw_peers :: "crypto \<Rightarrow> gw_client \<Rightarrow> gw_server \<Rightarrow> bool" where
  "gw_peers C cl st \<longleftrightarrow> crypto_ok C \<and>
     gc_master_key cl = gs_master_key st \<and> gc_mask_key cl = gs_mask_key st \<and> gc_raw_kid cl = gs_raw_kid st \<and>
     length (gs_mask_key st) = 32 \<and> length (gs_raw_kid st) = 8"

lemma gw_same_token_peers:
  "crypto_ok C \<Longrightarrow> gw_client_init C server token = Inr cl \<Longrightarrow> gw_server_init C token = Inr st \<Longrightarrow> gw_peers C cl st"
  by (auto simp: gw_client_init_def gw_server_init_def gw_peers_def gw_mask_key_def gw_raw_kid_def hkdf_expand_def
      length_hkdf length_sha256 split: option.splits)

lemma gw_packet_parts:
  assumes "crypto_ok C" "length mk = 32" "length kid = 8"
    and "pkt = gw_frame_packet C e mk kid key seq frame"
  defines "nonce \<equiv> le_bytes 8 seq @ token_bytes e 64 4"
    and "outer \<equiv> gw_outer_header C mk kid (token_bytes e 68 12) (token_bytes e 80 8)"
  shows "gw_mask_unmask_header C (slice pkt 12 28) mk (slice pkt 0 12) = plain_header kid 8 0"
    and "slice pkt 0 36 = outer" "slice pkt 36 48 = nonce" "drop 48 pkt = aead_encrypt C key nonce frame (Some outer)"
    and "length nonce = 12" "seq < 2 ^ 64 \<Longrightarrow> frame_seq pkt 36 = seq"
proof -
  let ?iv = "token_bytes e 68 12" and ?junk = "token_bytes e 80 8"
  let ?m = "gw_mask_unmask_header C (plain_header kid 8 0) mk ?iv"
  have liv: "length ?iv = 12" and lj: "length ?junk = 8" by (simp_all add: length_token_bytes)
  have lm: "length ?m = 16"
    by (simp add: gw_mask_unmask_header_def length_chacha20 [OF assms(1)] length_plain_header [OF assms(3)])
  have o: "outer = ?iv @ ?m @ ?junk" by (simp add: outer_def gw_outer_header_def lj)
  have pkt: "pkt = (?iv @ ?m @ ?junk) @ nonce @ aead_encrypt C key nonce frame (Some outer)"
    using assms(4) by (simp only: gw_frame_packet_def Let_def nonce_def [symmetric] outer_def [symmetric] o [symmetric])
  show ln: "length nonce = 12" by (simp add: nonce_def pybytes)
  show "slice pkt 0 36 = outer" "slice pkt 36 48 = nonce" "drop 48 pkt = aead_encrypt C key nonce frame (Some outer)"
    using liv lj lm ln by (simp_all add: pkt o slice_def)
  have "slice pkt 12 28 = ?m" "slice pkt 0 12 = ?iv" using liv lm by (simp_all add: pkt slice_def)
  then show "gw_mask_unmask_header C (slice pkt 12 28) mk (slice pkt 0 12) = plain_header kid 8 0"
    using liv by (simp add: gw_mask_unmask_header_def chacha20_involution [OF assms(1,2)])
  show "frame_seq pkt 36 = seq" if "seq < 2 ^ 64"
  proof -
    have "length (le_bytes 8 seq) = 8" "le_val (le_bytes 8 seq) = seq"
      using that le_val_le_bytes [of seq 8] by (simp_all add: length_le_bytes)
    with \<open>slice pkt 36 48 = nonce\<close> show ?thesis
      by (simp add: frame_seq_def frame_nonce_def) (simp add: nonce_def slice_def)
  qed
qed

lemma gw_packet_length:
  assumes "crypto_ok C" "length mk = 32" "length kid = 8" "length key = 32"
  shows "length (gw_frame_packet C e mk kid key seq frame) = 64 + length frame"
proof -
  have "length (le_bytes 8 seq @ token_bytes e 64 4) = 12" by (simp add: pybytes)
  from length_aead [OF assms(1,4) this] show ?thesis
    by (simp add: gw_frame_packet_def gw_outer_header_def Let_def gw_mask_unmask_header_def
        length_chacha20 [OF assms(1)] length_plain_header [OF assms(3)] pybytes)
qed

lemma gw_frame_packet_offset:
  assumes "crypto_ok C" "length (gs_mask_key st) = 32" "length (gs_raw_kid st) = 8" "length key = 32"
    and "pkt = gw_frame_packet C e (gs_mask_key st) (gs_raw_kid st) key seq frame"
  shows "gw_frame_offset C st pkt = Some 36"
  using gw_packet_parts(1) [OF assms(1-3,5)] plain_header_fields [OF assms(3), of 8 0]
    gw_packet_length [OF assms(1-4), of e seq frame] assms(5)
  by (simp add: gw_frame_offset_def Let_def)

lemma gw_sent_cases:
  assumes "gw_peers C cl st" "gw_send_aegs_packet C E cl sid cmd payload = (cl', [UdpSend pkt dest], ex)"
  obtains k where "gc_send_key cl = Some k" "gc_tx_seq cl + 1 < 2 ^ 64" "sid < 2 ^ 32" "cmd < 256"
    "pkt = gw_frame_packet C (ent E) (gs_mask_key st) (gs_raw_kid st) k (gc_tx_seq cl + 1)
       (be_bytes 4 sid @ be_bytes 1 cmd @ payload)"
  using assms
  by (auto simp: gw_send_aegs_packet_def Let_def pack_be_def gw_peers_def split: if_splits option.splits)

section \<open>The set of seen numbers\<close>

text \<open>The set meets the contract of \<open>replay_guard\<close>: nothing is ever let through twice.\<close>

interpretation seen: replay_guard seen_check "\<lambda>s q. q \<in> s" "\<lambda>_. True"
  by unfold_locales (auto simp: seen_check_def)

lemma gw_payload_seen: "gw_handle_client_payload E st pt = (st', outs) \<Longrightarrow> gs_seen st' = gs_seen st"
  by (auto simp: gw_handle_client_payload_def Let_def split: if_splits option.splits sum.splits)

lemma gw_handshake_seen: "gw_handshake C E st a d priv pub = (st', outs) \<Longrightarrow> gs_seen st' = gs_seen st"
  by (auto simp: gw_handshake_def Let_def split: if_splits option.splits)

lemma gw_data_frame_seen:
  "gw_data_frame C E st d = (st', outs) \<Longrightarrow>
   gs_seen st' = (if gs_recv_key st = None then gs_seen st
     else case gw_frame_offset C st d of None \<Rightarrow> gs_seen st | Some off \<Rightarrow> insert (frame_seq d off) (gs_seen st))"
  by (auto simp: gw_data_frame_def seen_check_def gw_payload_seen split: option.splits if_splits)

lemma gw_on_datagram_seen:
  "gw_on_datagram C E st a d priv pub = (st', outs) \<Longrightarrow> gs_seen st \<subseteq> gs_seen st'"
  by (auto simp: gw_on_datagram_def dest: gw_handshake_seen gw_data_frame_seen split: if_splits option.splits)

text \<open>The long-term keys never change, so the header of a datagram reads the same forever.\<close>

lemma gw_on_datagram_keys:
  "gw_on_datagram C E st a d priv pub = (st', outs) \<Longrightarrow>
   gs_mask_key st' = gs_mask_key st \<and> gs_raw_kid st' = gs_raw_kid st \<and> gs_master_key st' = gs_master_key st"
  by (auto simp: gw_on_datagram_def gw_handshake_def gw_data_frame_def gw_handle_client_payload_def Let_def
      split: if_splits option.splits prod.splits bool.splits sum.splits)

text \<open>Any number of datagrams, from anybody.\<close>

fun gw_datagrams :: "crypto \<Rightarrow> bytes \<Rightarrow> bytes \<Rightarrow> gw_server \<Rightarrow> (env \<times> addr \<times> bytes) list \<Rightarrow> gw_server" where
  "gw_datagrams C priv pub st [] = st"
| "gw_datagrams C priv pub st ((E, a, d) # ds) =
     gw_datagrams C priv pub (fst (gw_on_datagram C E st a d priv pub)) ds"

lemma gw_datagrams_seen: "gs_seen st \<subseteq> gs_seen (gw_datagrams C priv pub st ds)"
proof (induction C priv pub st ds rule: gw_datagrams.induct)
  case (2 C priv pub st E a d ds)
  obtain s' outs where r: "gw_on_datagram C E st a d priv pub = (s', outs)" by fastforce
  from 2 gw_on_datagram_seen [OF r] r show ?case by auto
qed simp

lemma gw_datagrams_keys:
  "gs_mask_key (gw_datagrams C priv pub st ds) = gs_mask_key st \<and>
   gs_raw_kid (gw_datagrams C priv pub st ds) = gs_raw_kid st"
proof (induction C priv pub st ds rule: gw_datagrams.induct)
  case (2 C priv pub st E a d ds)
  obtain s' outs where r: "gw_on_datagram C E st a d priv pub = (s', outs)" by fastforce
  from 2 gw_on_datagram_keys [OF r] r show ?case by simp
qed simp

lemma gw_frame_offset_cong:
  "gs_mask_key st' = gs_mask_key st \<Longrightarrow> gs_raw_kid st' = gs_raw_kid st \<Longrightarrow>
   gw_frame_offset C st' d = gw_frame_offset C st d"
  by (simp only: gw_frame_offset_def)

lemma gw_seen_inert:
  assumes "gw_frame_offset C st d = Some off" "frame_seq d off \<in> gs_seen st" "d ! 0 \<noteq> 1"
  shows "gw_on_datagram C E st a d priv pub = (st, [])"
proof -
  have "\<not> length d < 20" using assms(1) by (auto simp: gw_frame_offset_def split: if_splits)
  then show ?thesis
    using assms by (simp add: gw_on_datagram_def gw_data_frame_def seen_check_def split: option.split)
qed

section \<open>Sample states\<close>

definition sample_gw :: "nat set \<Rightarrow> gw_server" where
  "sample_gw seen = \<lparr>gs_raw_kid = replicate 8 5, gs_master_key = replicate 32 1, gs_mask_key = replicate 32 2,
     gs_streams = [1 \<mapsto> 7], gs_client_addr = None, gs_recv_key = Some (replicate 32 4),
     gs_send_key = Some (replicate 32 3), gs_tx_seq = 0, gs_seen = seen\<rparr>"

definition sample_gw_client :: gw_client where
  "sample_gw_client = \<lparr>gc_server = (ustr ''10.0.0.1'', 50001), gc_raw_kid = replicate 8 5,
     gc_master_key = replicate 32 1, gc_mask_key = replicate 32 2, gc_send_key = Some (replicate 32 4),
     gc_recv_key = Some (replicate 32 3), gc_tx_seq = 0, gc_streams = Map.empty, gc_stream_counter = 0\<rparr>"

definition sample_gw_packet :: bytes where
  "sample_gw_packet = gw_frame_packet toy_crypto (ent sample_env) (replicate 32 2) (replicate 8 5) (replicate 32 4) 1
     (be_bytes 4 1 @ be_bytes 1 2 @ [72, 105])"

lemma sample_gw_peers: "gw_peers toy_crypto sample_gw_client (sample_gw seen)"
  by (simp add: gw_peers_def toy_crypto_ok sample_gw_def sample_gw_client_def)

lemma sample_gw_keys:
  "gc_send_key sample_gw_client = Some (replicate 32 4)" "gs_recv_key (sample_gw seen) = Some (replicate 32 4)"
  "gc_send_key sample_gw_client = gs_recv_key (sample_gw seen)"
  by (simp_all add: sample_gw_def sample_gw_client_def)

lemma sample_gw_first: "sample_gw_packet ! 0 \<noteq> 1"
  by (simp add: sample_gw_packet_def gw_frame_packet_def gw_outer_header_def token_bytes_def sample_env_def Let_def
      upt_conv_Cons)

lemma sample_gw_offset: "gw_frame_offset toy_crypto (sample_gw seen) sample_gw_packet = Some 36"
  by (rule gw_frame_packet_offset [OF toy_crypto_ok]) (simp_all add: sample_gw_def sample_gw_packet_def)

lemma sample_gw_sent:
  "gw_send_aegs_packet toy_crypto sample_env sample_gw_client 1 CMD_DATA [72, 105] =
     (sample_gw_client\<lparr>gc_tx_seq := 1\<rparr>, [UdpSend sample_gw_packet (ustr ''10.0.0.1'', 50001)], None)"
  by (simp add: gw_send_aegs_packet_def pack_be_def CMD_DATA_def sample_gw_client_def sample_gw_packet_def
      sample_env_def Let_def)

section \<open>Properties\<close>

text \<open>C22: The gateway server never acts twice on one data frame: after a frame has been processed, a copy
  of it is without any effect, whatever datagrams and handshakes came between.\<close>
theorem gw_frame_once:
  assumes "gs_recv_key st \<noteq> None" "gw_frame_offset C st d = Some off" "d ! 0 \<noteq> 1"
    and "gw_on_datagram C E st a d priv pub = (st1, outs)"
    and "st2 = gw_datagrams C priv pub st1 ds"
  shows "gw_on_datagram C E2 st2 a2 d priv pub = (st2, [])"
proof -
  have "\<not> length d < 20" using assms(2) by (auto simp: gw_frame_offset_def split: if_splits)
  then have "gw_data_frame C E st d = (st1, outs)"
    using assms(3,4) by (simp add: gw_on_datagram_def)
  from gw_data_frame_seen [OF this] assms(1,2) have "frame_seq d off \<in> gs_seen st1" by auto
  then have s: "frame_seq d off \<in> gs_seen st2" using assms(5) gw_datagrams_seen by blast
  have "gw_frame_offset C st2 d = Some off"
    using assms(2,5) gw_on_datagram_keys [OF assms(4)] gw_datagrams_keys [of C priv pub st1 ds]
      gw_frame_offset_cong [of st2 st C d] by simp
  from gw_seen_inert [OF this s assms(3)] show ?thesis .
qed

theorem gw_frame_once_witness:
  "\<exists>st2 :: gw_server. gw_on_datagram toy_crypto sample_env st2 sample_addr sample_gw_packet [] [] = (st2, [])"
proof -
  obtain st1 outs where r: "gw_on_datagram toy_crypto sample_env (sample_gw {}) sample_addr sample_gw_packet [] [] = (st1, outs)"
    by fastforce
  have "gs_recv_key (sample_gw {}) \<noteq> None" by (simp add: sample_gw_keys)
  from gw_frame_once [OF this sample_gw_offset sample_gw_first r refl [of "gw_datagrams toy_crypto [] [] st1 []"],
      of sample_env sample_addr]
  show ?thesis by blast
qed

text \<open>The set of seen numbers outlives the session: the data frames of a client that was restarted
  count from one again, and every one whose number the old client had already used is dropped
  without a trace, although the handshake has just succeeded.\<close>
theorem gw_restarted_client_dropped:
  assumes "gw_peers C cl st" "gc_send_key cl = Some k" "length k = 32" "gc_tx_seq cl + 1 \<in> gs_seen st"
    and "gw_on_datagram C Eh st a init priv pub = (st1, SendTo resp a # outs)"
    and "gw_send_aegs_packet C E cl sid cmd payload = (cl', [UdpSend pkt dest], ex)" "pkt ! 0 \<noteq> 1"
  shows "gs_client_addr st1 = Some a \<and> gw_on_datagram C Es st1 a2 pkt priv2 pub2 = (st1, [])"
proof -
  have hs: "gw_handshake C Eh st a init priv pub = (st1, SendTo resp a # outs)"
    using assms(5) by (auto simp: gw_on_datagram_def gw_data_frame_def gw_handle_client_payload_def Let_def
        split: if_splits option.splits prod.splits bool.splits sum.splits)
  then have a: "gs_client_addr st1 = Some a"
    by (auto simp: gw_handshake_def Let_def split: if_splits option.splits)
  have p: "gw_peers C cl st1"
    using assms(1) gw_on_datagram_keys [OF assms(5)] by (simp add: gw_peers_def)
  let ?n = "gc_tx_seq cl + 1" and ?f = "be_bytes 4 sid @ be_bytes 1 cmd @ payload"
  obtain k' where q: "gc_send_key cl = Some k'" "?n < 2 ^ 64"
    "pkt = gw_frame_packet C (ent E) (gs_mask_key st1) (gs_raw_kid st1) k' ?n ?f"
    using gw_sent_cases [OF p assms(6)] by blast
  have ok: "crypto_ok C" "length (gs_mask_key st1) = 32" "length (gs_raw_kid st1) = 8" "length k' = 32"
    using p q(1) assms(2,3) by (simp_all add: gw_peers_def)
  note parts = gw_packet_parts [OF ok(1-3) q(3)]
  have "gw_frame_offset C st1 pkt = Some 36" by (rule gw_frame_packet_offset [OF ok q(3)])
  moreover have "frame_seq pkt 36 \<in> gs_seen st1"
    using parts(6) [OF q(2)] assms(4) gw_handshake_seen [OF hs] by simp
  ultimately show ?thesis using a gw_seen_inert assms(7) by blast
qed


lemma sample_gw_handshake:
  assumes "st' = fst (gw_on_datagram toy_crypto sample_env st sample_addr
      (gw_init_packet sample_gw_client (x25519_public toy_crypto [8]) 0) [7] (x25519_public toy_crypto [7]))"
    and "gw_peers toy_crypto sample_gw_client st"
  shows "\<exists>reply. gw_on_datagram toy_crypto sample_env st sample_addr
      (gw_init_packet sample_gw_client (x25519_public toy_crypto [8]) 0) [7] (x25519_public toy_crypto [7]) =
      (st', [SendTo reply sample_addr])"
proof -
  let ?pkt = "gw_init_packet sample_gw_client (x25519_public toy_crypto [8]) 0"
  have k: "length (gc_raw_kid sample_gw_client) = 8" "gc_raw_kid sample_gw_client = gs_raw_kid st"
    "gc_master_key sample_gw_client = gs_master_key st" "send_ok sample_env"
    using assms(2) by (simp_all add: gw_peers_def sample_env_def)
  have l: "length (x25519_public toy_crypto [8]) = 32" by (rule length_x25519_public [OF toy_crypto_ok])
  have "?pkt ! 0 = 1" "length ?pkt = 72" "slice ?pkt 8 16 = gs_raw_kid st"
    "slice ?pkt 56 72 = take 16 (hmac_sha256 (gs_master_key st) (slice ?pkt 0 56))"
    "slice ?pkt 16 48 = x25519_public toy_crypto [8]"
    using k l by (simp_all add: gw_init_packet_def slice_def Let_def length_be_bytes length_hmac_sha256)
  moreover obtain sh where "x25519_exchange toy_crypto [7] (x25519_public toy_crypto [8]) = Some sh"
    using x25519_defined [OF toy_crypto_ok, of "[7]" "[8]"] by blast
  ultimately show ?thesis
    using k(4) assms(1) by (simp add: gw_on_datagram_def gw_handshake_def Let_def)
qed

theorem gw_restarted_client_dropped_witness:
  "\<exists>st1. gs_client_addr st1 = Some sample_addr \<and>
     gw_on_datagram toy_crypto sample_env st1 sample_addr sample_gw_packet [] [] = (st1, [])"
proof -
  have s: "length (replicate 32 (4 :: byte)) = 32" "gc_tx_seq sample_gw_client + 1 \<in> gs_seen (sample_gw {1})"
    by (simp_all add: sample_gw_def sample_gw_client_def)
  obtain st1 reply where h: "gw_on_datagram toy_crypto sample_env (sample_gw {1}) sample_addr
      (gw_init_packet sample_gw_client (x25519_public toy_crypto [8]) 0) [7] (x25519_public toy_crypto [7]) =
      (st1, [SendTo reply sample_addr])"
    using sample_gw_handshake [OF refl sample_gw_peers] by blast
  from gw_restarted_client_dropped [OF sample_gw_peers sample_gw_keys(1) s h sample_gw_sent sample_gw_first]
  show ?thesis by blast
qed

text \<open>The packets of the raw handshake, taken apart.\<close>

lemma raw_init_parts:
  fixes kid pub mk :: bytes and now :: nat
  assumes "length kid = 8" "length pub = 32"
  defines "body \<equiv> [1] @ replicate 7 0 @ kid @ pub @ be_bytes 8 now"
  defines "pkt \<equiv> body @ take 16 (hmac_sha256 mk body)"
  shows "length pkt = 72" "pkt ! 0 = 1" "slice pkt 8 16 = kid" "slice pkt 16 48 = pub" "slice pkt 0 56 = body"
    "take 56 pkt = body" "slice pkt 56 72 = take 16 (hmac_sha256 mk body)"
proof -
  have lb: "length body = 56" using assms(1,2) by (simp add: body_def length_be_bytes)
  show "length pkt = 72" "slice pkt 0 56 = body" "take 56 pkt = body" "slice pkt 56 72 = take 16 (hmac_sha256 mk body)"
    using lb by (simp_all add: pkt_def slice_def length_hmac_sha256)
  show "pkt ! 0 = 1" "slice pkt 8 16 = kid" "slice pkt 16 48 = pub"
    using assms(1,2) by (simp_all add: pkt_def body_def slice_def)
qed

lemma raw_reply_parts:
  fixes sk sid pub :: bytes and C :: crypto
  assumes "crypto_ok C" "length sk = 32" "length sid = 8" "length pub = 32"
  defines "hdr \<equiv> [2] @ replicate 7 0 @ sid @ pub"
  defines "reply \<equiv> hdr @ aead_encrypt C sk (replicate 12 0) raw_config (Some hdr)"
  shows "length reply = 80" "reply ! 0 = 2" "slice reply 8 16 = sid" "slice reply 16 48 = pub"
    "aead_decrypt C sk (replicate 12 0) (drop 48 reply) (Some (take 48 reply)) = Some raw_config"
    "take 48 reply = hdr" "drop 48 reply = aead_encrypt C sk (replicate 12 0) raw_config (Some hdr)"
proof -
  have lh: "length hdr = 48" using assms(3,4) by (simp add: hdr_def)
  have ln: "length (replicate 12 (0 :: byte)) = 12" by simp
  show "length reply = 80"
    using length_aead [OF assms(1,2) ln] lh by (simp add: reply_def raw_config_def length_le_bytes)
  show "take 48 reply = hdr" "drop 48 reply = aead_encrypt C sk (replicate 12 0) raw_config (Some hdr)"
    using lh by (simp_all add: reply_def)
  then show "aead_decrypt C sk (replicate 12 0) (drop 48 reply) (Some (take 48 reply)) = Some raw_config"
    using aead_roundtrip [OF assms(1,2) ln] by simp
  show "reply ! 0 = 2" "slice reply 8 16 = sid" "slice reply 16 48 = pub"
    using assms(3,4) by (simp_all add: reply_def hdr_def slice_def)
qed

text \<open>C21: The raw handshake of the gateway pair agrees: with the same token both sides end with the same
  pair of keys, crossed, and the client verifies the server's sealed configuration.\<close>
theorem gw_handshake_agreement:
  assumes "gw_peers C cl st" "length server_pub = 32" "server_pub = x25519_public C priv" "send_ok E"
    and "now < 2 ^ 64"
    and "gw_on_datagram C E st a (gw_init_packet cl (x25519_public C cpriv) now) priv server_pub = (st', outs)"
  shows "\<exists>reply cl'. outs = [SendTo reply a] \<and> gw_handshake_reply C cl cpriv reply = (cl', True) \<and>
    gc_send_key cl' = gs_recv_key st' \<and> gc_recv_key cl' = gs_send_key st' \<and> gc_send_key cl' \<noteq> None"
proof -
  have ok: "crypto_ok C" using assms(1) by (simp add: gw_peers_def)
  let ?cpub = "x25519_public C cpriv"
  obtain sh where sh: "x25519_exchange C priv ?cpub = Some sh" "x25519_exchange C cpriv server_pub = Some sh"
    using x25519_defined [OF ok, of priv cpriv] x25519_commute [OF ok, of priv cpriv] assms(3) by auto
  have kid: "length (gc_raw_kid cl) = 8" "gc_raw_kid cl = gs_raw_kid st" "gc_master_key cl = gs_master_key st"
    using assms(1) by (simp_all add: gw_peers_def)
  note I = raw_init_parts [OF kid(1) length_x25519_public [OF ok], of cpriv now "gs_master_key st"]
  define sk where "sk = gw_hkdf_extract_and_expand C sh (gs_master_key st) (bstr ''aegs-s2c'') 32"
  define rk where "rk = gw_hkdf_extract_and_expand C sh (gs_master_key st) (bstr ''aegs-c2s'') 32"
  have lsk: "length sk = 32" by (simp add: sk_def gw_hkdf_extract_and_expand_def length_hkdf [OF ok])
  note R = raw_reply_parts [OF ok lsk length_token_bytes assms(2), of "ent E" 0]
  let ?hdr = "[2] @ replicate 7 0 @ token_bytes (ent E) 0 8 @ server_pub"
  let ?reply = "?hdr @ aead_encrypt C sk (replicate 12 0) raw_config (Some ?hdr)"
  have pkt: "gw_init_packet cl ?cpub now =
      ([1] @ replicate 7 0 @ gc_raw_kid cl @ ?cpub @ be_bytes 8 now) @
      take 16 (hmac_sha256 (gs_master_key st) ([1] @ replicate 7 0 @ gc_raw_kid cl @ ?cpub @ be_bytes 8 now))"
    using kid(3) by (simp add: gw_init_packet_def Let_def)
  have srv: "gw_on_datagram C E st a (gw_init_packet cl ?cpub now) priv server_pub =
      (st\<lparr>gs_recv_key := Some rk, gs_send_key := Some sk, gs_client_addr := Some a\<rparr>, [SendTo ?reply a])"
    unfolding pkt gw_on_datagram_def gw_handshake_def Let_def I sh(1) option.case
    using assms(4) kid(2) by (simp add: sk_def rk_def)
  have "gw_handshake_reply C cl cpriv ?reply = (cl\<lparr>gc_send_key := Some rk, gc_recv_key := Some sk\<rparr>, True)"
    unfolding gw_handshake_reply_def Let_def R kid(3) sh(2) option.case sk_def [symmetric] rk_def [symmetric]
    using aead_roundtrip [OF ok lsk] by simp
  then show ?thesis using srv assms(6) by simp
qed

theorem gw_handshake_agreement_witness:
  "\<exists>reply cl'. gw_handshake_reply toy_crypto sample_gw_client [8] reply = (cl', True)"
proof -
  have l: "length (x25519_public toy_crypto [7]) = 32" "send_ok sample_env" "(0 :: nat) < 2 ^ 64"
    by (simp_all add: length_x25519_public [OF toy_crypto_ok] sample_env_def)
  obtain st' outs where r: "gw_on_datagram toy_crypto sample_env (sample_gw {}) sample_addr
      (gw_init_packet sample_gw_client (x25519_public toy_crypto [8]) 0) [7] (x25519_public toy_crypto [7]) = (st', outs)"
    by fastforce
  from gw_handshake_agreement [OF sample_gw_peers l(1) refl l(2,3) r] show ?thesis by blast
qed

text \<open>A data frame of the gateway client is written to its stream byte for byte: this client does not
  pad, so the server forwards exactly the payload.\<close>
theorem gw_client_data_exact:
  assumes "gw_peers C cl st" "gc_send_key cl = gs_recv_key st" "gs_recv_key st = Some k" "length k = 32"
    and "gw_send_aegs_packet C E cl sid CMD_DATA payload = (cl', [UdpSend pkt dest], ex)" "pkt ! 0 \<noteq> 1"
    and "gc_tx_seq cl + 1 \<notin> gs_seen st" "gs_streams st sid = Some s" "stream_ok Es s"
  shows "\<exists>st'. gw_on_datagram C Es st a pkt priv pub = (st', [StreamSend s payload]) \<and>
    gs_seen st' = insert (gc_tx_seq cl + 1) (gs_seen st)"
proof -
  let ?f = "be_bytes 4 sid @ be_bytes 1 CMD_DATA @ payload"
  obtain k' where q: "gc_send_key cl = Some k'" "gc_tx_seq cl + 1 < 2 ^ 64" "sid < 2 ^ 32" "CMD_DATA < 256"
    "pkt = gw_frame_packet C (ent E) (gs_mask_key st) (gs_raw_kid st) k' (gc_tx_seq cl + 1) ?f"
    using gw_sent_cases [OF assms(1,5)] by blast
  have k': "k' = k" using q(1) assms(2,3) by simp
  have ok: "crypto_ok C" "length (gs_mask_key st) = 32" "length (gs_raw_kid st) = 8" "length k' = 32"
    using assms(1,4) k' by (simp_all add: gw_peers_def)
  note parts = gw_packet_parts [OF ok(1-3) q(5)]
  have off: "gw_frame_offset C st pkt = Some 36" by (rule gw_frame_packet_offset [OF ok q(5)])
  have len: "69 \<le> length pkt" using gw_packet_length [OF ok] q(5) by (simp add: length_be_bytes)
  have dec: "aead_decrypt C k (frame_nonce pkt 36) (drop 48 pkt) (Some (slice pkt 0 36)) = Some ?f"
    using parts(2-5) aead_roundtrip [OF ok(1) ok(4) parts(5)] k' by (simp add: frame_nonce_def)
  have l: "length (be_bytes 4 sid) = 4" by (rule length_be_bytes)
  have v: "be_val (be_bytes 4 sid) = sid" using q(3) by (intro be_val_be_bytes) simp
  have one: "be_bytes 1 CMD_DATA = [2]" by (simp add: be_bytes_def CMD_DATA_def)
  have f: "5 \<le> length ?f" "slice ?f 0 4 = be_bytes 4 sid" "?f ! 4 = 2" "drop 5 ?f = payload"
    using l one by (simp_all add: slice_def nth_append)
  let ?st = "st\<lparr>gs_seen := insert (gc_tx_seq cl + 1) (gs_seen st)\<rparr>"
  have h: "gw_handle_client_payload Es ?st ?f = (?st, [StreamSend s payload])"
    unfolding gw_handle_client_payload_def Let_def f v using f(1) assms(8,9) by (simp add: cmd_defs)
  have "gw_on_datagram C Es st a pkt priv pub = gw_handle_client_payload Es ?st ?f"
    using len assms(3,6,7) off dec parts(6) [OF q(2)]
    by (simp add: gw_on_datagram_def gw_data_frame_def seen_check_def)
  with h show ?thesis by simp
qed

theorem gw_client_data_exact_witness:
  "\<exists>st'. gw_on_datagram toy_crypto sample_env (sample_gw {}) sample_addr sample_gw_packet [] [] =
     (st', [StreamSend 7 [72, 105]])"
proof -
  have s: "length (replicate 32 (4 :: byte)) = 32" "gc_tx_seq sample_gw_client + 1 \<notin> gs_seen (sample_gw {})"
    "gs_streams (sample_gw {}) 1 = Some 7" "stream_ok sample_env 7"
    by (simp_all add: sample_gw_def sample_env_def)
  from gw_client_data_exact [OF sample_gw_peers sample_gw_keys(3,2) s(1) sample_gw_sent sample_gw_first s(2-4)]
  show ?thesis by blast
qed

end
