(* ===== verification/WinProxy.thy ===== *)
theory WinProxy
  imports PyText
begin

text \<open>
  \<open>WindowsSystemProxy\<close> of aegs_client.py: the manager saves the user's proxy settings, leaves a
  RunOnce command behind, points Windows at the local gateway and, on \<open>disable\<close>, puts back
  what it saved. The registry is the four values the class touches; every call into
  \<open>winreg\<close> or WinINET may raise, which ends the \<open>try\<close> block where it stands.
\<close>

record registry =
  proxy_enable :: "nat option"
  proxy_server :: "ustr option"
  proxy_override :: "ustr option"
  run_once :: "ustr option"

record proxy_mgr =
  proxy_addr :: ustr
  orig_enabled :: nat
  orig_server :: ustr
  orig_override :: ustr
  is_active :: bool

definition proxy_mgr_init :: "ustr \<Rightarrow> proxy_mgr" where
  "proxy_mgr_init a =
     \<lparr>proxy_addr = a, orig_enabled = 0, orig_server = [], orig_override = [], is_active = False\<rparr>"

type_synonym win_state = "proxy_mgr \<times> registry"

text \<open>A block of calls: call number \<open>k\<close> raises when \<open>fails k\<close>, and the rest is skipped.\<close>

fun run_calls :: "(nat \<Rightarrow> bool) \<Rightarrow> nat \<Rightarrow> ('s \<Rightarrow> 's) list \<Rightarrow> 's \<Rightarrow> 's \<times> bool" where
  "run_calls fails k [] s = (s, True)"
| "run_calls fails k (f # fs) s = (if fails k then (s, False) else run_calls fails (Suc k) fs (f s))"

definition restore_cmd :: "nat \<Rightarrow> ustr" where
  "restore_cmd enabled =
     ustr ''cmd.exe /c reg add '' @ [34] @ ustr ''HKCU'' @ [92] @ ustr ''Software'' @ [92] @ ustr ''Microsoft'' @ [92] @
     ustr ''Windows'' @ [92] @ ustr ''CurrentVersion'' @ [92] @ ustr ''Internet Settings'' @ [34] @
     ustr '' /v ProxyEnable /t REG_DWORD /d '' @ str_nat enabled @ ustr '' /f''"

definition proxy_str :: "ustr \<Rightarrow> ustr" where
  "proxy_str a = ustr ''http='' @ a @ ustr '';https='' @ a @ ustr '';socks='' @ a"

definition bypass_list :: ustr where
  "bypass_list = ustr ''<local>;127.*;192.168.*;10.*''"

text \<open>The calls of \<open>enable\<close>; \<open>QueryValueEx\<close> of a missing value gives the default.\<close>

definition enable_calls :: "(win_state \<Rightarrow> win_state) list" where
  "enable_calls =
     [\<lambda>(m, r). (m\<lparr>orig_enabled := (case proxy_enable r of None \<Rightarrow> 0 | Some v \<Rightarrow> v)\<rparr>, r),
      \<lambda>(m, r). (m\<lparr>orig_server := (case proxy_server r of None \<Rightarrow> [] | Some v \<Rightarrow> v)\<rparr>, r),
      \<lambda>(m, r). (m\<lparr>orig_override := (case proxy_override r of None \<Rightarrow> [] | Some v \<Rightarrow> v)\<rparr>, r),
      \<lambda>(m, r). (m, r\<lparr>run_once := Some (restore_cmd (orig_enabled m))\<rparr>),
      \<lambda>(m, r). (m, r\<lparr>proxy_enable := Some 1\<rparr>),
      \<lambda>(m, r). (m, r\<lparr>proxy_server := Some (proxy_str (proxy_addr m))\<rparr>),
      \<lambda>(m, r). (m, r\<lparr>proxy_override := Some bypass_list\<rparr>),
      \<lambda>(m, r). (m\<lparr>is_active := True\<rparr>, r)]"

definition proxy_enable_op :: "bool \<Rightarrow> (nat \<Rightarrow> bool) \<Rightarrow> win_state \<Rightarrow> win_state" where
  "proxy_enable_op win32 fails s = (if win32 then fst (run_calls fails 0 enable_calls s) else s)"

text \<open>\<open>disable\<close>: the RunOnce entry is removed in a block of its own (call 3), whose failure is ignored.\<close>

definition disable_calls :: "bool \<Rightarrow> (win_state \<Rightarrow> win_state) list" where
  "disable_calls no_delete =
     [\<lambda>(m, r). (m, r\<lparr>proxy_enable := Some (orig_enabled m)\<rparr>),
      \<lambda>(m, r). (m, if orig_server m \<noteq> [] then r\<lparr>proxy_server := Some (orig_server m)\<rparr> else r),
      \<lambda>(m, r). (m, if orig_override m \<noteq> [] then r\<lparr>proxy_override := Some (orig_override m)\<rparr> else r),
      \<lambda>(m, r). (m, if no_delete then r else r\<lparr>run_once := None\<rparr>),
      \<lambda>(m, r). (m\<lparr>is_active := False\<rparr>, r)]"

definition proxy_disable_op :: "bool \<Rightarrow> (nat \<Rightarrow> bool) \<Rightarrow> bool \<Rightarrow> win_state \<Rightarrow> win_state" where
  "proxy_disable_op win32 fails no_delete s =
     (if win32 \<and> is_active (fst s) then fst (run_calls fails 0 (disable_calls no_delete) s) else s)"

section \<open>Properties\<close>

lemma enable_all: "run_calls (\<lambda>_. False) 0 enable_calls (m, r) =
  ((m\<lparr>orig_enabled := (case proxy_enable r of None \<Rightarrow> 0 | Some v \<Rightarrow> v),
      orig_server := (case proxy_server r of None \<Rightarrow> [] | Some v \<Rightarrow> v),
      orig_override := (case proxy_override r of None \<Rightarrow> [] | Some v \<Rightarrow> v), is_active := True\<rparr>,
    r\<lparr>proxy_enable := Some 1, proxy_server := Some (proxy_str (proxy_addr m)),
      proxy_override := Some bypass_list,
      run_once := Some (restore_cmd (case proxy_enable r of None \<Rightarrow> 0 | Some v \<Rightarrow> v))\<rparr>), True)"
  by (simp add: enable_calls_def)

text \<open>Enabling and then disabling the system proxy gives back the user's settings exactly when all three
  values were present and not empty: a user without a proxy server keeps the tunnel's address and
  bypass list in the registry, only switched off.\<close>
theorem proxy_restore:
  assumes "s1 = proxy_enable_op True (\<lambda>_. False) (m, r)" "s2 = proxy_disable_op True (\<lambda>_. False) nd s1"
  shows "proxy_enable (snd s2) = Some (case proxy_enable r of None \<Rightarrow> 0 | Some v \<Rightarrow> v) \<and>
    proxy_server (snd s2) =
      (case proxy_server r of Some (c # cs) \<Rightarrow> Some (c # cs) | _ \<Rightarrow> Some (proxy_str (proxy_addr m))) \<and>
    proxy_override (snd s2) = (case proxy_override r of Some (c # cs) \<Rightarrow> Some (c # cs) | _ \<Rightarrow> Some bypass_list) \<and>
    \<not> is_active (fst s2)"
  using assms
  by (simp add: proxy_enable_op_def proxy_disable_op_def enable_all disable_calls_def
      split: option.split list.split)

theorem proxy_restore_witness:
  "proxy_server (snd (proxy_disable_op True (\<lambda>_. False) False
     (proxy_enable_op True (\<lambda>_. False) (proxy_mgr_init (ustr ''127.0.0.1:1080''),
        \<lparr>proxy_enable = None, proxy_server = None, proxy_override = None, run_once = None\<rparr>)))) =
   Some (proxy_str (ustr ''127.0.0.1:1080''))"
  by (subst proxy_restore [OF refl refl, THEN conjunct2, THEN conjunct1]) (simp add: proxy_mgr_init_def)

text \<open>After a crash, the RunOnce command that \<open>enable\<close> left in the registry, run by Windows as
  \<open>reg add\<close> of \<open>ProxyEnable\<close>, restores the switch but neither the proxy server nor the bypass
  list of the user.\<close>
theorem crash_restore_partial:
  assumes "\<And>n reg. boot (restore_cmd n) reg = reg\<lparr>proxy_enable := Some n, run_once := None\<rparr>"
    and "(m', r1) = proxy_enable_op True (\<lambda>_. False) (m, r)" "run_once r1 = Some cmd"
  shows "proxy_enable (boot cmd r1) = Some (case proxy_enable r of None \<Rightarrow> 0 | Some v \<Rightarrow> v) \<and>
    proxy_server (boot cmd r1) = Some (proxy_str (proxy_addr m)) \<and>
    proxy_override (boot cmd r1) = Some bypass_list"
  using assms by (auto simp: proxy_enable_op_def enable_all)

theorem crash_restore_partial_witness:
  "\<exists>boot :: ustr \<Rightarrow> registry \<Rightarrow> registry. proxy_server (boot (restore_cmd 0) (snd (proxy_enable_op True (\<lambda>_. False) (proxy_mgr_init (ustr ''a:1''),
        \<lparr>proxy_enable = Some 0, proxy_server = Some (ustr ''p:8''), proxy_override = None, run_once = None\<rparr>)))) =
     Some (proxy_str (ustr ''a:1''))"
proof -
  let ?r = "\<lparr>proxy_enable = Some 0, proxy_server = Some (ustr ''p:8''), proxy_override = None, run_once = None\<rparr> :: registry"
  define boot where "boot c r = r\<lparr>proxy_enable := Some (THE n. c = restore_cmd n), run_once := None\<rparr>"
    for c and r :: registry
  have "str_nat m = str_nat n \<Longrightarrow> m = n" for m n
    by (metis digits_val_dec_digits str_nat_def)
  then have inj: "restore_cmd m = restore_cmd n \<longleftrightarrow> m = n" for m n
    by (auto simp: restore_cmd_def)
  then have b: "\<And>n reg. boot (restore_cmd n) reg = reg\<lparr>proxy_enable := Some n, run_once := None\<rparr>"
    by (simp add: boot_def)
  obtain m' r1 where e: "(m', r1) = proxy_enable_op True (\<lambda>_. False) (proxy_mgr_init (ustr ''a:1''), ?r)"
    by (metis surj_pair)
  have o: "run_once r1 = Some (restore_cmd 0)"
    using e by (simp add: proxy_enable_op_def enable_all)
  from crash_restore_partial [OF b e o] have "proxy_server (boot (restore_cmd 0) r1) = Some (proxy_str (ustr ''a:1''))"
    by (simp add: proxy_mgr_init_def)
  then show ?thesis unfolding e [symmetric] by auto
qed

text \<open>Enabling twice without a restart between forgets the user's settings: the second call saves the
  tunnel's own values, and disabling then leaves the proxy switched on.\<close>
theorem double_enable_forgets:
  assumes "s2 = proxy_enable_op True (\<lambda>_. False) (proxy_enable_op True (\<lambda>_. False) (m, r))"
    and "s3 = proxy_disable_op True (\<lambda>_. False) nd s2"
  shows "proxy_enable (snd s3) = Some 1 \<and> proxy_server (snd s3) = Some (proxy_str (proxy_addr m))"
  using assms
  by (simp add: proxy_enable_op_def proxy_disable_op_def enable_all disable_calls_def proxy_str_def ustr_def)

theorem double_enable_forgets_witness:
  "proxy_enable (snd (proxy_disable_op True (\<lambda>_. False) False
     (proxy_enable_op True (\<lambda>_. False) (proxy_enable_op True (\<lambda>_. False) (proxy_mgr_init [],
        \<lparr>proxy_enable = None, proxy_server = None, proxy_override = None, run_once = None\<rparr>))))) = Some 1"
  by (rule double_enable_forgets [OF refl refl, THEN conjunct1])

text \<open>A failure anywhere inside \<open>enable\<close> before its last call leaves the manager inactive, so the
  settings already changed are never put back by \<open>disable\<close>.\<close>
theorem failed_enable_not_undone:
  assumes "\<not> is_active m" "k < 8" "fails k"
  shows "proxy_disable_op w f nd (proxy_enable_op True fails (m, r)) = proxy_enable_op True fails (m, r)"
proof -
  have "\<not> is_active (fst (proxy_enable_op True fails (m, r)))"
    using assms by (auto simp: proxy_enable_op_def enable_calls_def numeral_eq_Suc less_Suc_eq)
  then show ?thesis by (simp add: proxy_disable_op_def)
qed

theorem failed_enable_not_undone_witness:
  "proxy_disable_op True (\<lambda>_. False) False (proxy_enable_op True (\<lambda>k. k = 6) (proxy_mgr_init [],
     \<lparr>proxy_enable = None, proxy_server = None, proxy_override = None, run_once = None\<rparr>)) =
   proxy_enable_op True (\<lambda>k. k = 6) (proxy_mgr_init [],
     \<lparr>proxy_enable = None, proxy_server = None, proxy_override = None, run_once = None\<rparr>)"
  by (rule failed_enable_not_undone [of _ 6]) (simp_all add: proxy_mgr_init_def)

end
