(* ===== verification/Billing.thy ===== *)
theory Billing
  imports Config PyHash
begin

text \<open>
  tools/telegram_bot: aegs_sync.py, database.py and the plans of config.py. The two SQLite files
  are one record: each table is the list of its rows in the order of insertion, columns that only
  the schema fills in (\<open>created_at\<close>, \<open>referrer_id\<close>, \<open>referral_count\<close>, \<open>trial_used\<close>) are left
  out. A time stamp \<open>%Y-%m-%d %H:%M:%S\<close> is the number of its second: the format has a fixed
  width, so that the text comparisons of the queries are comparisons of times. Queries succeed;
  every transaction (\<open>with conn\<close>) takes effect as a whole or raises. The texts for the user are
  constructors that carry the values filled in. Amounts are whole roubles, as every price of the plans.
\<close>

section \<open>Rows and state\<close>

type_synonym stamp = int

record user_row =
  ur_id :: int
  ur_username :: "ustr option"
  ur_first :: ustr
  ur_token :: ustr
  ur_key_id :: ustr
  ur_expires :: "stamp option"
  ur_active :: bool
  ur_warned_24h :: bool
  ur_warned_72h :: bool
  ur_waiting :: bool

record payment_row =
  pay_user :: int
  pay_plan :: ustr
  pay_days :: int
  pay_amount :: int
  pay_currency :: ustr
  pay_provider :: ustr
  pay_id :: ustr

record promo_row =
  pc_code :: ustr
  pc_days :: int
  pc_max :: int
  pc_used :: int

datatype ticket_status = TicketOpen | TicketClosed

record ticket_row =
  tk_id :: nat
  tk_user :: int
  tk_username :: "ustr option"
  tk_question :: ustr
  tk_reply :: "ustr option"
  tk_admin :: "int option"
  tk_status :: ticket_status
  tk_answered :: "stamp option"

record manual_key_row =
  mk_key_id :: ustr
  mk_token :: ustr
  mk_days :: int
  mk_speed :: int
  mk_note :: ustr
  mk_created :: stamp
  mk_expires :: stamp
  mk_by :: int

datatype order_status = OrderPending | OrderApproved | OrderRejected

record order_row =
  od_id :: ustr
  od_user :: int
  od_username :: "ustr option"
  od_first :: ustr
  od_plan :: ustr
  od_amount :: int
  od_currency :: ustr
  od_status :: order_status
  od_at :: "stamp option"
  od_by :: "int option"

text \<open>A row of the VPN server's own user table.\<close>

record server_row =
  sr_username :: ustr
  sr_key_id :: ustr
  sr_token :: ustr

record billing =
  b_users :: "user_row list"
  b_payments :: "payment_row list"
  b_promos :: "promo_row list"
  b_promo_uses :: "(ustr \<times> int) list"
  b_tickets :: "ticket_row list"
  b_manual :: "manual_key_row list"
  b_orders :: "order_row list"
  b_server :: "server_row list"

text \<open>\<open>init_db\<close> and \<open>init_aegis_server_db\<close> on empty files.\<close>

definition init_db :: billing where
  "init_db = \<lparr>b_users = [], b_payments = [], b_promos = [], b_promo_uses = [], b_tickets = [],
              b_manual = [], b_orders = [], b_server = []\<rparr>"

text \<open>
  What one operation meets: the clock in microseconds, whether its \<open>k\<close>th transaction commits,
  whether the server's file can be written, the 32 bytes of \<open>token_hex\<close>, the draw of \<open>randint\<close>.
\<close>

record benv =
  e_now :: int
  e_commit :: "nat \<Rightarrow> bool"
  e_sync :: bool
  e_token :: bytes
  e_rand :: nat

text \<open>The letters beyond ASCII, as far as the sources ask for them.\<close>

record unicode =
  uc_upper :: "nat \<Rightarrow> ustr"
  uc_lower :: "nat \<Rightarrow> ustr"
  uc_alnum :: "nat \<Rightarrow> bool"

definition py_upper :: "unicode \<Rightarrow> ustr \<Rightarrow> ustr" where
  "py_upper U s =
     concat (map (\<lambda>c. if c < 128 then [if 97 \<le> c \<and> c \<le> 122 then c - 32 else c] else uc_upper U c) s)"

definition py_isalnum :: "unicode \<Rightarrow> nat \<Rightarrow> bool" where
  "py_isalnum U c =
     (if c < 128 then 48 \<le> c \<and> c \<le> 57 \<or> 65 \<le> c \<and> c \<le> 90 \<or> 97 \<le> c \<and> c \<le> 122 else uc_alnum U c)"

text \<open>Texts for the user.\<close>

datatype bot_note =
    UserNotFound
  | TrialDisabled
  | Extended int stamp            \<comment> \<open>days, until\<close>
  | ExtendFailed
  | PromoUnknown
  | PromoExhausted
  | PromoUsedBefore
  | PromoActivated int stamp
  | PromoFailed
  | PromoCreated ustr int int
  | CreateFailed
  | OrderUnknown
  | OrderProcessed order_status
  | ApproveFailed bot_note
  | OrderRejectedNote

section \<open>Time\<close>

definition us_per_s :: int where "us_per_s = 1000000"
definition us_per_hour :: int where "us_per_hour = 3600 * us_per_s"
definition us_per_day :: int where "us_per_day = 86400 * us_per_s"

text \<open>\<open>strftime\<close> drops the microseconds.\<close>

definition stamp_of :: "int \<Rightarrow> stamp" where
  "stamp_of t = t div us_per_s"

text \<open>\<open>t + timedelta(days=d)\<close>, which raises outside the years 1 to 9999.\<close>

definition add_days :: "int \<Rightarrow> int \<Rightarrow> pyexn + int" where
  "add_days t d =
     (let r = t + d * us_per_day
      in if - 62135596800 * us_per_s \<le> r \<and> r < 253402300800 * us_per_s then Inr r else Inl OverflowError)"

section \<open>aegs_sync.py\<close>

definition generate_token :: "benv \<Rightarrow> ustr" where
  "generate_token E = hex_of (e_token E)"

text \<open>Tokens are ASCII, so that \<open>encode\<close> maps each character to its byte.\<close>

definition compute_key_id :: "ustr \<Rightarrow> ustr" where
  "compute_key_id token = take 16 (hex_of (sha256 (map of_nat token)))"

definition sync_add_user_to_server :: "benv \<Rightarrow> ustr \<Rightarrow> ustr \<Rightarrow> ustr \<Rightarrow> billing \<Rightarrow> billing \<times> bool" where
  "sync_add_user_to_server E name key_id token st =
     (if e_sync E then
        (st\<lparr>b_server :=
           (if name \<in> set (map sr_username (b_server st))
            then map (\<lambda>r. if sr_username r = name then r\<lparr>sr_key_id := key_id, sr_token := token\<rparr> else r) (b_server st)
            else b_server st @ [\<lparr>sr_username = name, sr_key_id = key_id, sr_token = token\<rparr>])\<rparr>, True)
      else (st, False))"

definition sync_remove_user_from_server :: "benv \<Rightarrow> ustr \<Rightarrow> billing \<Rightarrow> billing \<times> bool" where
  "sync_remove_user_from_server E key_id st =
     (if e_sync E then (st\<lparr>b_server := filter (\<lambda>r. sr_key_id r \<noteq> key_id) (b_server st)\<rparr>, True)
      else (st, False))"

text \<open>The links, for the default address of the configuration.\<close>

definition server_ip :: ustr where "server_ip = ustr ''31.76.9.86''"
definition server_port :: int where "server_port = 50001"

definition make_subscription_uri :: "ustr \<Rightarrow> ustr \<Rightarrow> ustr" where
  "make_subscription_uri token name =
     ustr ''aegs://'' @ server_ip @ [58] @ str_int server_port @ [47] @ token @ ustr ''?name='' @ name"

definition make_quick_command :: "ustr \<Rightarrow> ustr" where
  "make_quick_command token =
     ustr ''./aegis_client '' @ server_ip @ [32] @ str_int server_port @ [32] @ token"

section \<open>Users and subscriptions\<close>

definition get_user :: "billing \<Rightarrow> int \<Rightarrow> user_row option" where
  "get_user st uid = find (\<lambda>u. ur_id u = uid) (b_users st)"

text \<open>\<open>UPDATE users SET ... WHERE user_id = ?\<close>\<close>

definition update_user :: "int \<Rightarrow> (user_row \<Rightarrow> user_row) \<Rightarrow> billing \<Rightarrow> billing" where
  "update_user uid f st = st\<lparr>b_users := map (\<lambda>u. if ur_id u = uid then f u else u) (b_users st)\<rparr>"

text \<open>The row that is returned is the one read before a change of the name is written.\<close>

definition get_or_create_user ::
  "benv \<Rightarrow> int \<Rightarrow> ustr option \<Rightarrow> ustr \<Rightarrow> billing \<Rightarrow> (pyexn + user_row) \<times> billing" where
  "get_or_create_user E uid username first st =
     (case get_user st uid of
        Some u \<Rightarrow>
          if ur_username u \<noteq> username \<or> ur_first u \<noteq> first then
            (if e_commit E 0
             then (Inr u, update_user uid (\<lambda>u. u\<lparr>ur_username := username, ur_first := first\<rparr>) st)
             else (Inl DatabaseError, st))
          else (Inr u, st)
      | None \<Rightarrow>
          (let token = generate_token E;
               u = \<lparr>ur_id = uid, ur_username = username, ur_first = first, ur_token = token,
                    ur_key_id = compute_key_id token, ur_expires = None, ur_active = False,
                    ur_warned_24h = False, ur_warned_72h = False, ur_waiting = False\<rparr>
           in if e_commit E 0 then (Inr u, st\<lparr>b_users := b_users st @ [u]\<rparr>) else (Inl DatabaseError, st)))"

definition set_user_support_state :: "benv \<Rightarrow> int \<Rightarrow> bool \<Rightarrow> billing \<Rightarrow> (pyexn + unit) \<times> billing" where
  "set_user_support_state E uid waiting st =
     (if e_commit E 0 then (Inr (), update_user uid (\<lambda>u. u\<lparr>ur_waiting := waiting\<rparr>) st) else (Inl DatabaseError, st))"

text \<open>The statements after the first \<open>return\<close> are never reached.\<close>

definition activate_trial :: "int \<Rightarrow> billing \<Rightarrow> (bool \<times> bot_note) \<times> billing" where
  "activate_trial uid st = ((False, TrialDisabled), st)"

text \<open>The instant that an extension starts from.\<close>

definition renew_base :: "int \<Rightarrow> user_row \<Rightarrow> int" where
  "renew_base now u =
     (case ur_expires u of None \<Rightarrow> now | Some e \<Rightarrow> if e * us_per_s > now then e * us_per_s else now)"

text \<open>\<open>tg_<id>_<username>\<close>, the name of the account on the server.\<close>

definition srv_username :: "int \<Rightarrow> user_row \<Rightarrow> ustr" where
  "srv_username uid u =
     ustr ''tg_'' @ str_int uid @ [95] @
       (case ur_username u of None \<Rightarrow> ustr ''user'' | Some n \<Rightarrow> if n = [] then ustr ''user'' else n)"

definition extend_subscription ::
  "benv \<Rightarrow> int \<Rightarrow> int \<Rightarrow> ustr \<Rightarrow> ustr \<Rightarrow> int \<Rightarrow> ustr \<Rightarrow> ustr \<Rightarrow> billing \<Rightarrow> (pyexn + bool \<times> bot_note) \<times> billing" where
  "extend_subscription E uid days plan payment amount currency provider st =
     (case get_user st uid of
        None \<Rightarrow> (Inr (False, UserNotFound), st)
      | Some u \<Rightarrow>
          (case add_days (renew_base (e_now E) u) days of
             Inl e \<Rightarrow> (Inl e, st)
           | Inr t \<Rightarrow>
               if e_commit E 0 \<and> payment \<notin> set (map pay_id (b_payments st)) then
                 (let p = \<lparr>pay_user = uid, pay_plan = plan, pay_days = days, pay_amount = amount,
                           pay_currency = currency, pay_provider = provider, pay_id = payment\<rparr>;
                      st1 = update_user uid (\<lambda>u. u\<lparr>ur_expires := Some (stamp_of t), ur_active := True,
                              ur_warned_24h := False, ur_warned_72h := False\<rparr>) (st\<lparr>b_payments := b_payments st @ [p]\<rparr>);
                      (st2, synced) = sync_add_user_to_server E (srv_username uid u) (ur_key_id u) (ur_token u) st1
                  in (Inr (True, Extended days (stamp_of t)), st2))
               else (Inr (False, ExtendFailed), st)))"

text \<open>The dictionary of \<open>check_subscription_status\<close>, by its four shapes.\<close>

datatype sub_status =
    SubNoUser
  | SubNever user_row
  | SubActive user_row stamp int int int   \<comment> \<open>until, days, hours and seconds left\<close>
  | SubExpired user_row stamp

definition check_subscription_status :: "int \<Rightarrow> billing \<Rightarrow> int \<Rightarrow> sub_status" where
  "check_subscription_status now st uid =
     (case get_user st uid of
        None \<Rightarrow> SubNoUser
      | Some u \<Rightarrow>
          (case ur_expires u of
             None \<Rightarrow> SubNever u
           | Some e \<Rightarrow>
               (let diff = e * us_per_s - now in
                if diff > 0 then SubActive u e (diff div us_per_day) (diff div us_per_hour) (diff div us_per_s)
                else SubExpired u e)))"

fun sub_active :: "sub_status \<Rightarrow> bool" where
  "sub_active (SubActive _ _ _ _ _) = True"
| "sub_active _ = False"

fun sub_user :: "sub_status \<Rightarrow> user_row option" where
  "sub_user SubNoUser = None"
| "sub_user (SubNever u) = Some u"
| "sub_user (SubActive u _ _ _ _) = Some u"
| "sub_user (SubExpired u _) = Some u"

datatype reminder = Warned24h | Warned72h

fun warned :: "reminder \<Rightarrow> user_row \<Rightarrow> bool" where
  "warned Warned24h u = ur_warned_24h u"
| "warned Warned72h u = ur_warned_72h u"

fun set_warned :: "reminder \<Rightarrow> user_row \<Rightarrow> user_row" where
  "set_warned Warned24h u = u\<lparr>ur_warned_24h := True\<rparr>"
| "set_warned Warned72h u = u\<lparr>ur_warned_72h := True\<rparr>"

definition get_expiring_users :: "int \<Rightarrow> int \<Rightarrow> int \<Rightarrow> reminder \<Rightarrow> billing \<Rightarrow> user_row list" where
  "get_expiring_users now hmin hmax flag st =
     filter (\<lambda>u. ur_active u \<and> \<not> warned flag u \<and>
        (case ur_expires u of
           None \<Rightarrow> False
         | Some e \<Rightarrow> stamp_of (now + hmin * us_per_hour) \<le> e \<and> e \<le> stamp_of (now + hmax * us_per_hour)))
       (b_users st)"

definition mark_reminder_sent :: "benv \<Rightarrow> int \<Rightarrow> reminder \<Rightarrow> billing \<Rightarrow> (pyexn + unit) \<times> billing" where
  "mark_reminder_sent E uid flag st =
     (if e_commit E 0 then (Inr (), update_user uid (set_warned flag) st) else (Inl DatabaseError, st))"

definition get_expired_active_users :: "int \<Rightarrow> billing \<Rightarrow> user_row list" where
  "get_expired_active_users now st =
     filter (\<lambda>u. ur_active u \<and> (case ur_expires u of None \<Rightarrow> False | Some e \<Rightarrow> e < stamp_of now)) (b_users st)"

definition deactivate_user :: "benv \<Rightarrow> int \<Rightarrow> billing \<Rightarrow> (pyexn + unit) \<times> billing" where
  "deactivate_user E uid st =
     (case get_user st uid of
        None \<Rightarrow> (Inr (), st)
      | Some u \<Rightarrow>
          if e_commit E 0
          then (Inr (), fst (sync_remove_user_from_server E (ur_key_id u)
                  (update_user uid (\<lambda>u. u\<lparr>ur_active := False\<rparr>) st)))
          else (Inl DatabaseError, st))"

section \<open>Promo codes\<close>

definition norm_code :: "unicode \<Rightarrow> ustr \<Rightarrow> ustr" where
  "norm_code U code = py_upper U (strip_by is_space code)"

text \<open>An unknown user makes \<open>user['sub_expires_at']\<close> raise, inside the \<open>try\<close>.\<close>

definition apply_promocode :: "benv \<Rightarrow> unicode \<Rightarrow> int \<Rightarrow> ustr \<Rightarrow> billing \<Rightarrow> (bool \<times> bot_note) \<times> billing" where
  "apply_promocode E U uid code0 st =
     (let code = norm_code U code0 in
      case find (\<lambda>p. pc_code p = code) (b_promos st) of
        None \<Rightarrow> ((False, PromoUnknown), st)
      | Some promo \<Rightarrow>
          if pc_used promo \<ge> pc_max promo then ((False, PromoExhausted), st)
          else if (code, uid) \<in> set (b_promo_uses st) then ((False, PromoUsedBefore), st)
          else
            (case get_user st uid of
               None \<Rightarrow> ((False, PromoFailed), st)
             | Some u \<Rightarrow>
                 (case add_days (renew_base (e_now E) u) (pc_days promo) of
                    Inl _ \<Rightarrow> ((False, PromoFailed), st)
                  | Inr t \<Rightarrow>
                      if e_commit E 0 then
                        (let st1 = update_user uid (\<lambda>u. u\<lparr>ur_expires := Some (stamp_of t), ur_active := True\<rparr>)
                               (st\<lparr>b_promo_uses := b_promo_uses st @ [(code, uid)],
                                   b_promos := map (\<lambda>p. if pc_code p = code then p\<lparr>pc_used := pc_used p + 1\<rparr> else p)
                                     (b_promos st)\<rparr>);
                             (st2, synced) = sync_add_user_to_server E (ustr ''tg_'' @ str_int uid) (ur_key_id u) (ur_token u) st1
                         in ((True, PromoActivated (pc_days promo) (stamp_of t)), st2))
                      else ((False, PromoFailed), st))))"

definition create_promocode :: "benv \<Rightarrow> unicode \<Rightarrow> ustr \<Rightarrow> int \<Rightarrow> int \<Rightarrow> billing \<Rightarrow> (bool \<times> bot_note) \<times> billing" where
  "create_promocode E U code0 days max_uses st =
     (let code = norm_code U code0 in
      if e_commit E 0 then
        ((True, PromoCreated code days max_uses),
         st\<lparr>b_promos :=
           (if code \<in> set (map pc_code (b_promos st))
            then map (\<lambda>p. if pc_code p = code then p\<lparr>pc_days := days, pc_max := max_uses\<rparr> else p) (b_promos st)
            else b_promos st @ [\<lparr>pc_code = code, pc_days = days, pc_max = max_uses, pc_used = 0\<rparr>])\<rparr>)
      else ((False, CreateFailed), st))"

section \<open>Support tickets\<close>

text \<open>Rows are never deleted, so that \<open>AUTOINCREMENT\<close> counts them.\<close>

definition create_support_ticket ::
  "benv \<Rightarrow> int \<Rightarrow> ustr option \<Rightarrow> ustr \<Rightarrow> billing \<Rightarrow> (pyexn + nat) \<times> billing" where
  "create_support_ticket E uid username question st =
     (let n = length (b_tickets st) + 1 in
      if e_commit E 0
      then (Inr n, st\<lparr>b_tickets := b_tickets st @ [\<lparr>tk_id = n, tk_user = uid, tk_username = username,
              tk_question = question, tk_reply = None, tk_admin = None, tk_status = TicketOpen, tk_answered = None\<rparr>]\<rparr>)
      else (Inl DatabaseError, st))"

definition get_open_tickets :: "billing \<Rightarrow> ticket_row list" where
  "get_open_tickets st = rev (sort_key tk_id (filter (\<lambda>t. tk_status t = TicketOpen) (b_tickets st)))"

definition get_ticket :: "billing \<Rightarrow> nat \<Rightarrow> ticket_row option" where
  "get_ticket st n = find (\<lambda>t. tk_id t = n) (b_tickets st)"

definition reply_support_ticket ::
  "benv \<Rightarrow> nat \<Rightarrow> int \<Rightarrow> ustr \<Rightarrow> billing \<Rightarrow> (pyexn + ticket_row option) \<times> billing" where
  "reply_support_ticket E n admin reply st =
     (if e_commit E 0 then
        (let st' = st\<lparr>b_tickets := map (\<lambda>t. if tk_id t = n
               then t\<lparr>tk_reply := Some reply, tk_admin := Some admin, tk_status := TicketClosed,
                      tk_answered := Some (stamp_of (e_now E))\<rparr> else t) (b_tickets st)\<rparr>
         in (Inr (get_ticket st' n), st'))
      else (Inl DatabaseError, st))"

section \<open>Statistics\<close>

record admin_stats =
  as_total_users :: nat
  as_active_subs :: nat
  as_paid_cnt :: nat
  as_total_revenue :: int
  as_open_tickets :: nat

definition get_admin_stats :: "int \<Rightarrow> billing \<Rightarrow> admin_stats" where
  "get_admin_stats now st =
     \<lparr>as_total_users = length (b_users st),
      as_active_subs = length (filter (\<lambda>u. ur_active u \<and>
         (case ur_expires u of None \<Rightarrow> False | Some e \<Rightarrow> e > stamp_of now)) (b_users st)),
      as_paid_cnt = length (b_payments st),
      as_total_revenue = sum_list (map pay_amount (b_payments st)),
      as_open_tickets = length (filter (\<lambda>t. tk_status t = TicketOpen) (b_tickets st))\<rparr>"

definition get_all_user_chat_ids :: "billing \<Rightarrow> int list" where
  "get_all_user_chat_ids st = remdups (filter (\<lambda>i. i > 0) (map ur_id (b_users st)))"

section \<open>Orders\<close>

record plan =
  pl_id :: ustr
  pl_days :: int
  pl_price :: int

definition month_plan :: plan where
  "month_plan = \<lparr>pl_id = ustr ''1_month'', pl_days = 30, pl_price = 100\<rparr>"

definition plans :: "(ustr \<times> plan) list" where
  "plans = [(ustr ''1_month'', month_plan)]"

text \<open>\<open>PLANS.get(plan_id, PLANS.get('1_month'))\<close>\<close>

definition plan_or_month :: "ustr \<Rightarrow> plan" where
  "plan_or_month pid = (case map_of plans pid of None \<Rightarrow> month_plan | Some p \<Rightarrow> p)"

definition order_number :: "benv \<Rightarrow> ustr" where
  "order_number E = ustr ''ORD-'' @ str_nat (10000 + e_rand E mod 90000)"

definition create_order ::
  "benv \<Rightarrow> int \<Rightarrow> ustr option \<Rightarrow> ustr \<Rightarrow> ustr \<Rightarrow> int \<Rightarrow> ustr \<Rightarrow> billing \<Rightarrow> (pyexn + ustr) \<times> billing" where
  "create_order E uid username first plan amount currency st =
     (let oid = order_number E in
      if \<not> e_commit E 0 then (Inl DatabaseError, st)
      else if oid \<in> set (map od_id (b_orders st)) then (Inl IntegrityError, st)
      else (Inr oid, st\<lparr>b_orders := b_orders st @ [\<lparr>od_id = oid, od_user = uid, od_username = username,
              od_first = first, od_plan = plan, od_amount = amount, od_currency = currency,
              od_status = OrderPending, od_at = None, od_by = None\<rparr>]\<rparr>))"

definition get_order :: "billing \<Rightarrow> ustr \<Rightarrow> order_row option" where
  "get_order st oid = find (\<lambda>o'. od_id o' = oid) (b_orders st)"

definition set_order_status :: "order_status \<Rightarrow> benv \<Rightarrow> int \<Rightarrow> ustr \<Rightarrow> billing \<Rightarrow> billing" where
  "set_order_status s E admin oid st =
     st\<lparr>b_orders := map (\<lambda>o'. if od_id o' = oid
          then o'\<lparr>od_status := s, od_at := Some (stamp_of (e_now E)), od_by := Some admin\<rparr> else o') (b_orders st)\<rparr>"

definition approval_payment :: "ustr \<Rightarrow> ustr" where
  "approval_payment oid = ustr ''approved_'' @ oid"

text \<open>Two transactions: the extension, then the status of the order, which runs in \<open>E2\<close>.\<close>

definition approve_order ::
  "benv \<Rightarrow> benv \<Rightarrow> ustr \<Rightarrow> int \<Rightarrow> billing \<Rightarrow> (pyexn + bool \<times> bot_note \<times> order_row option) \<times> billing" where
  "approve_order E E2 oid admin st =
     (case get_order st oid of
        None \<Rightarrow> (Inr (False, OrderUnknown, None), st)
      | Some ord \<Rightarrow>
          if od_status ord \<noteq> OrderPending then (Inr (False, OrderProcessed (od_status ord), Some ord), st)
          else
            (case extend_subscription E (od_user ord) (pl_days (plan_or_month (od_plan ord))) (od_plan ord)
                    (approval_payment oid) (od_amount ord) (od_currency ord) (ustr ''admin_manual'') st of
               (Inl e, st1) \<Rightarrow> (Inl e, st1)
             | (Inr (False, n), st1) \<Rightarrow> (Inr (False, ApproveFailed n, Some ord), st1)
             | (Inr (True, n), st1) \<Rightarrow>
                 if e_commit E2 0
                 then (Inr (True, n, Some (ord\<lparr>od_status := OrderApproved\<rparr>)), set_order_status OrderApproved E2 admin oid st1)
                 else (Inl DatabaseError, st1)))"

definition reject_order ::
  "benv \<Rightarrow> ustr \<Rightarrow> int \<Rightarrow> billing \<Rightarrow> (pyexn + bool \<times> bot_note \<times> order_row option) \<times> billing" where
  "reject_order E oid admin st =
     (case get_order st oid of
        None \<Rightarrow> (Inr (False, OrderUnknown, None), st)
      | Some ord \<Rightarrow>
          if od_status ord \<noteq> OrderPending then (Inr (False, OrderProcessed (od_status ord), Some ord), st)
          else if e_commit E 0
          then (Inr (True, OrderRejectedNote, Some (ord\<lparr>od_status := OrderRejected\<rparr>)), set_order_status OrderRejected E admin oid st)
          else (Inl DatabaseError, st))"

section \<open>Manual keys\<close>

definition manual_srv_name :: "unicode \<Rightarrow> ustr \<Rightarrow> ustr \<Rightarrow> ustr" where
  "manual_srv_name U note key_id =
     (let safe = take 16 (filter (\<lambda>c. py_isalnum U c \<or> c = 95 \<or> c = 45) note)
      in if note \<noteq> [] \<and> safe \<noteq> [] then ustr ''manual_'' @ safe @ [95] @ take 6 key_id
         else ustr ''manual_'' @ take 8 key_id)"

definition create_manual_key ::
  "benv \<Rightarrow> unicode \<Rightarrow> int \<Rightarrow> int \<Rightarrow> ustr \<Rightarrow> int \<Rightarrow> billing \<Rightarrow> (pyexn + manual_key_row) \<times> billing" where
  "create_manual_key E U days speed note admin st =
     (let token = generate_token E; key_id = compute_key_id token in
      case add_days (e_now E) days of
        Inl e \<Rightarrow> (Inl e, st)
      | Inr t \<Rightarrow>
          (let k = \<lparr>mk_key_id = key_id, mk_token = token, mk_days = days, mk_speed = speed, mk_note = note,
                    mk_created = stamp_of (e_now E), mk_expires = stamp_of t, mk_by = admin\<rparr>
           in if \<not> e_commit E 0 then (Inl DatabaseError, st)
              else if key_id \<in> set (map mk_key_id (b_manual st)) then (Inl IntegrityError, st)
              else (Inr k, fst (sync_add_user_to_server E (manual_srv_name U note key_id) key_id token
                      (st\<lparr>b_manual := b_manual st @ [k]\<rparr>)))))"

end
