(* ===== verification/BillingSpec.thy ===== *)
theory BillingSpec
  imports Billing
begin

text \<open>
  What the tables of the bot stand for. The ledger is the abstract state: until when each known
  user is paid, who is active, which payments, promo codes and orders exist. Every operation on
  the tables is a step on the ledger, and the well-formedness of the tables (keys are unique,
  counters count) is kept by every operation, whatever transactions fail.
\<close>

section \<open>Keyed tables\<close>

named_theorems tables "lookup and update of keyed rows"

lemma find_map_key [tables]:
  assumes "\<And>x. k (f x) = k x"
  shows "find (\<lambda>x. k x = i) (map (\<lambda>x. if k x = j then f x else x) xs) =
    (if i = j then map_option f (find (\<lambda>x. k x = i) xs) else find (\<lambda>x. k x = i) xs)"
  by (induction xs) (auto simp: assms)

lemma find_append [tables]:
  "find P (xs @ ys) = (case find P xs of None \<Rightarrow> find P ys | Some x \<Rightarrow> Some x)"
  by (induction xs) auto

lemma map_key_update [tables]:
  "(\<And>x. k (f x) = k x) \<Longrightarrow> map k (map (\<lambda>x. if k x = j then f x else x) xs) = map k xs"
  by (induction xs) auto

lemma find_key_None: "find (\<lambda>x. k x = i) xs = None \<longleftrightarrow> i \<notin> set (map k xs)"
  by (auto simp: find_None_iff)

lemma find_key_Some: "find (\<lambda>x. k x = i) xs = Some x \<Longrightarrow> x \<in> set xs \<and> k x = i"
  by (auto simp: find_Some_iff)

lemma find_key_unique:
  "distinct (map k xs) \<Longrightarrow> x \<in> set xs \<Longrightarrow> k x = i \<Longrightarrow> find (\<lambda>x. k x = i) xs = Some x"
  by (induction xs) (auto simp: image_iff)

section \<open>Commands\<close>

datatype bill_cmd =
    Register int "ustr option" ustr
  | SetWaiting int bool
  | Order int "ustr option" ustr ustr int ustr
  | Approve ustr int
  | Reject ustr int
  | Promo int ustr
  | NewPromo ustr int int
  | NewKey int int ustr int
  | Remind int reminder
  | Cut int
  | Ticket int "ustr option" ustr
  | Reply nat int ustr

fun bill_step :: "unicode \<Rightarrow> bill_cmd \<Rightarrow> benv \<Rightarrow> benv \<Rightarrow> billing \<Rightarrow> billing" where
  "bill_step U (Register i n f) E E2 st = snd (get_or_create_user E i n f st)"
| "bill_step U (SetWaiting i w) E E2 st = snd (set_user_support_state E i w st)"
| "bill_step U (Order i n f p a c) E E2 st = snd (create_order E i n f p a c st)"
| "bill_step U (Approve oid adm) E E2 st = snd (approve_order E E2 oid adm st)"
| "bill_step U (Reject oid adm) E E2 st = snd (reject_order E oid adm st)"
| "bill_step U (Promo i code) E E2 st = snd (apply_promocode E U i code st)"
| "bill_step U (NewPromo code d m) E E2 st = snd (create_promocode E U code d m st)"
| "bill_step U (NewKey d s n adm) E E2 st = snd (create_manual_key E U d s n adm st)"
| "bill_step U (Remind i r) E E2 st = snd (mark_reminder_sent E i r st)"
| "bill_step U (Cut i) E E2 st = snd (deactivate_user E i st)"
| "bill_step U (Ticket i n q) E E2 st = snd (create_support_ticket E i n q st)"
| "bill_step U (Reply n adm r) E E2 st = snd (reply_support_ticket E n adm r st)"

fun bill_run :: "unicode \<Rightarrow> (bill_cmd \<times> benv \<times> benv) list \<Rightarrow> billing \<Rightarrow> billing" where
  "bill_run U [] st = st"
| "bill_run U ((c, E, E2) # cs) st = bill_run U cs (bill_step U c E E2 st)"

section \<open>The ledger\<close>

record ledger =
  lg_until :: "int \<rightharpoonup> stamp option"
  lg_active :: "int set"
  lg_paid :: "ustr set"
  lg_promos :: "ustr \<rightharpoonup> int \<times> int \<times> int"   \<comment> \<open>days, limit, used\<close>
  lg_used :: "(ustr \<times> int) set"
  lg_orders :: "ustr \<rightharpoonup> int \<times> ustr \<times> order_status"

definition ledger_of :: "billing \<Rightarrow> ledger" where
  "ledger_of st =
     \<lparr>lg_until = (\<lambda>i. map_option ur_expires (get_user st i)),
      lg_active = {i. \<exists>u. get_user st i = Some u \<and> ur_active u},
      lg_paid = set (map pay_id (b_payments st)),
      lg_promos = (\<lambda>c. map_option (\<lambda>p. (pc_days p, pc_max p, pc_used p)) (find (\<lambda>p. pc_code p = c) (b_promos st))),
      lg_used = set (b_promo_uses st),
      lg_orders = (\<lambda>c. map_option (\<lambda>o'. (od_user o', od_plan o', od_status o')) (get_order st c))\<rparr>"

text \<open>A paid period is appended to what is left of the running one.\<close>

definition prolong :: "int \<Rightarrow> stamp option \<Rightarrow> int \<Rightarrow> stamp option" where
  "prolong now e days =
     (case add_days (case e of None \<Rightarrow> now | Some s \<Rightarrow> max now (s * us_per_s)) days of
        Inl _ \<Rightarrow> None | Inr t \<Rightarrow> Some (stamp_of t))"

definition credit :: "int \<Rightarrow> stamp \<Rightarrow> ledger \<Rightarrow> ledger" where
  "credit i s lg = lg\<lparr>lg_until := (lg_until lg)(i \<mapsto> Some s), lg_active := insert i (lg_active lg)\<rparr>"

definition pay :: "benv \<Rightarrow> int \<Rightarrow> int \<Rightarrow> ustr \<Rightarrow> ledger \<Rightarrow> ledger" where
  "pay E i days pid lg =
     (case lg_until lg i of
        None \<Rightarrow> lg
      | Some e \<Rightarrow>
          (case prolong (e_now E) e days of
             None \<Rightarrow> lg
           | Some s \<Rightarrow>
               if e_commit E 0 \<and> pid \<notin> lg_paid lg
               then credit i s (lg\<lparr>lg_paid := insert pid (lg_paid lg)\<rparr>) else lg))"

text \<open>Whether \<open>pay\<close> goes through.\<close>

definition pays :: "benv \<Rightarrow> int \<Rightarrow> int \<Rightarrow> ustr \<Rightarrow> ledger \<Rightarrow> bool" where
  "pays E i days pid lg \<longleftrightarrow>
     (case lg_until lg i of None \<Rightarrow> False | Some e \<Rightarrow> prolong (e_now E) e days \<noteq> None) \<and>
     e_commit E 0 \<and> pid \<notin> lg_paid lg"

definition set_status :: "ustr \<Rightarrow> order_status \<Rightarrow> ledger \<Rightarrow> ledger" where
  "set_status oid s lg =
     lg\<lparr>lg_orders := (\<lambda>c. if c = oid then map_option (\<lambda>(i, p, _). (i, p, s)) (lg_orders lg c) else lg_orders lg c)\<rparr>"

definition redeem :: "benv \<Rightarrow> int \<Rightarrow> ustr \<Rightarrow> ledger \<Rightarrow> ledger" where
  "redeem E i code lg =
     (case (lg_promos lg code, lg_until lg i) of
        (Some (days, limit, used), Some e) \<Rightarrow>
          (case prolong (e_now E) e days of
             None \<Rightarrow> lg
           | Some s \<Rightarrow>
               if used < limit \<and> (code, i) \<notin> lg_used lg \<and> e_commit E 0
               then credit i s (lg\<lparr>lg_used := insert (code, i) (lg_used lg),
                                   lg_promos := (lg_promos lg)(code \<mapsto> (days, limit, used + 1))\<rparr>)
               else lg)
      | _ \<Rightarrow> lg)"

fun ledger_step :: "unicode \<Rightarrow> bill_cmd \<Rightarrow> benv \<Rightarrow> benv \<Rightarrow> ledger \<Rightarrow> ledger" where
  "ledger_step U (Register i n f) E E2 lg =
     (if lg_until lg i = None \<and> e_commit E 0 then lg\<lparr>lg_until := (lg_until lg)(i \<mapsto> None)\<rparr> else lg)"
| "ledger_step U (Order i n f p a c) E E2 lg =
     (if e_commit E 0 \<and> lg_orders lg (order_number E) = None
      then lg\<lparr>lg_orders := (lg_orders lg)(order_number E \<mapsto> (i, p, OrderPending))\<rparr> else lg)"
| "ledger_step U (Approve oid adm) E E2 lg =
     (case lg_orders lg oid of
        Some (i, p, OrderPending) \<Rightarrow>
          (let d = pl_days (plan_or_month p); lg' = pay E i d (approval_payment oid) lg
           in if pays E i d (approval_payment oid) lg \<and> e_commit E2 0 then set_status oid OrderApproved lg' else lg')
      | _ \<Rightarrow> lg)"
| "ledger_step U (Reject oid adm) E E2 lg =
     (case lg_orders lg oid of
        Some (i, p, OrderPending) \<Rightarrow> if e_commit E 0 then set_status oid OrderRejected lg else lg
      | _ \<Rightarrow> lg)"
| "ledger_step U (Promo i code) E E2 lg = redeem E i (norm_code U code) lg"
| "ledger_step U (NewPromo code d m) E E2 lg =
     (if e_commit E 0
      then lg\<lparr>lg_promos := (lg_promos lg)(norm_code U code \<mapsto>
             (d, m, case lg_promos lg (norm_code U code) of None \<Rightarrow> 0 | Some (_, _, n) \<Rightarrow> n))\<rparr>
      else lg)"
| "ledger_step U (Cut i) E E2 lg = (if e_commit E 0 then lg\<lparr>lg_active := lg_active lg - {i}\<rparr> else lg)"
| "ledger_step U c E E2 lg = lg"

section \<open>Simulation\<close>

lemma get_user_update [tables]:
  assumes "\<And>u. ur_id (f u) = ur_id u"
  shows "get_user (update_user i f st) j = (if j = i then map_option f (get_user st j) else get_user st j)"
  using assms by (simp add: get_user_def update_user_def tables)

lemma update_user_frame [simp]:
  "b_payments (update_user i f st) = b_payments st" "b_promos (update_user i f st) = b_promos st"
  "b_promo_uses (update_user i f st) = b_promo_uses st" "b_orders (update_user i f st) = b_orders st"
  "b_tickets (update_user i f st) = b_tickets st" "b_manual (update_user i f st) = b_manual st"
  "b_server (update_user i f st) = b_server st"
  by (simp_all add: update_user_def)

lemma get_order_update_user [simp]: "get_order (update_user i f st) c = get_order st c"
  by (simp add: get_order_def)

lemma get_user_frame [simp]:
  "get_user (st\<lparr>b_payments := x1\<rparr>) i = get_user st i" "get_user (st\<lparr>b_promos := x2\<rparr>) i = get_user st i"
  "get_user (st\<lparr>b_promo_uses := x3\<rparr>) i = get_user st i" "get_user (st\<lparr>b_orders := x4\<rparr>) i = get_user st i"
  "get_user (st\<lparr>b_tickets := x5\<rparr>) i = get_user st i" "get_user (st\<lparr>b_manual := x6\<rparr>) i = get_user st i"
  "get_user (st\<lparr>b_server := x7\<rparr>) i = get_user st i"
  by (simp_all add: get_user_def)

lemma get_order_frame [simp]:
  "get_order (st\<lparr>b_payments := x1\<rparr>) i = get_order st i" "get_order (st\<lparr>b_promos := x2\<rparr>) i = get_order st i"
  "get_order (st\<lparr>b_promo_uses := x3\<rparr>) i = get_order st i" "get_order (st\<lparr>b_server := x4\<rparr>) i = get_order st i"
  by (simp_all add: get_order_def)

lemma ledger_of_other [simp]:
  "ledger_of (st\<lparr>b_server := x\<rparr>) = ledger_of st" "ledger_of (st\<lparr>b_tickets := y\<rparr>) = ledger_of st"
  "ledger_of (st\<lparr>b_manual := z\<rparr>) = ledger_of st"
  by (simp_all add: ledger_of_def get_order_def)

lemma ledger_of_sync [simp]:
  "ledger_of (fst (sync_add_user_to_server E n k t st)) = ledger_of st"
  "ledger_of (fst (sync_remove_user_from_server E k st)) = ledger_of st"
  by (simp_all add: sync_add_user_to_server_def sync_remove_user_from_server_def)

text \<open>An update that leaves expiry and activity alone is invisible; the two that do not are \<open>credit\<close> and the cut.\<close>

lemma ledger_quiet_update:
  assumes "\<And>u. ur_id (f u) = ur_id u" "\<And>u. ur_expires (f u) = ur_expires u" "\<And>u. ur_active (f u) = ur_active u"
  shows "ledger_of (update_user i f st) = ledger_of st"
proof -
  have "map_option ur_expires (get_user (update_user i f st) j) = map_option ur_expires (get_user st j)" for j
    using assms by (cases "get_user st j") (auto simp: tables)
  moreover have "(\<exists>u. get_user (update_user i f st) j = Some u \<and> ur_active u) \<longleftrightarrow>
    (\<exists>u. get_user st j = Some u \<and> ur_active u)" for j
    using assms by (cases "get_user st j") (auto simp: tables)
  ultimately show ?thesis by (simp add: ledger_of_def)
qed

lemma ledger_credit:
  assumes "get_user st i = Some u" "\<And>u. ur_id (f u) = ur_id u" "\<And>u. ur_expires (f u) = Some s" "\<And>u. ur_active (f u)"
  shows "ledger_of (update_user i f st) = credit i s (ledger_of st)"
  using assms by (auto simp: ledger_of_def credit_def tables fun_eq_iff)

lemma lg_until_ledger: "lg_until (ledger_of st) i = map_option ur_expires (get_user st i)"
  by (simp add: ledger_of_def)

lemma lg_orders_ledger:
  "lg_orders (ledger_of st) c = map_option (\<lambda>o'. (od_user o', od_plan o', od_status o')) (get_order st c)"
  by (simp add: ledger_of_def)

lemma renew_base_prolong:
  "prolong now (ur_expires u) d = (case add_days (renew_base now u) d of Inl _ \<Rightarrow> None | Inr t \<Rightarrow> Some (stamp_of t))"
  by (auto simp: prolong_def renew_base_def max_def split: option.split)

lemma ledger_paid: "ledger_of (st\<lparr>b_payments := b_payments st @ [p]\<rparr>) =
  (ledger_of st)\<lparr>lg_paid := insert (pay_id p) (lg_paid (ledger_of st))\<rparr>"
  by (simp add: ledger_of_def)

lemma extend_ledger:
  "ledger_of (snd (extend_subscription E i d pl pid a c pr st)) = pay E i d pid (ledger_of st)"
proof (cases "get_user st i")
  case None
  then show ?thesis by (simp add: extend_subscription_def pay_def lg_until_ledger)
next
  case (Some u)
  show ?thesis
  proof (cases "add_days (renew_base (e_now E) u) d")
    case (Inl e)
    with Some show ?thesis by (simp add: extend_subscription_def pay_def lg_until_ledger renew_base_prolong)
  next
    case (Inr t)
    have p: "lg_paid (ledger_of st) = set (map pay_id (b_payments st))" by (simp add: ledger_of_def)
    show ?thesis
    proof (cases "e_commit E 0 \<and> pid \<notin> set (map pay_id (b_payments st))")
      case True
      then show ?thesis using Some Inr
        by (simp add: extend_subscription_def pay_def lg_until_ledger renew_base_prolong p Let_def case_prod_beta
            ledger_credit ledger_paid)
    next
      case False
      then show ?thesis using Some Inr
        by (auto simp: extend_subscription_def pay_def lg_until_ledger renew_base_prolong p)
    qed
  qed
qed

text \<open>The result of the extension, by what it says.\<close>

lemma extend_result:
  "(\<exists>n. fst (extend_subscription E i d pl pid a c pr st) = Inr (True, n)) \<longleftrightarrow> pays E i d pid (ledger_of st)"
proof -
  have p: "lg_paid (ledger_of st) = set (map pay_id (b_payments st))" by (simp add: ledger_of_def)
  show ?thesis
    by (auto simp: extend_subscription_def pays_def lg_until_ledger renew_base_prolong p Let_def case_prod_beta
        split: option.splits sum.splits)
qed

lemma extend_orders: "b_orders (snd (extend_subscription E i d pl pid a c pr st)) = b_orders st"
  by (simp add: extend_subscription_def sync_add_user_to_server_def Let_def split: option.split sum.split)

lemma ledger_set_order_status:
  "ledger_of (set_order_status s E adm oid st) = set_status oid s (ledger_of st)"
proof -
  have "get_order (set_order_status s E adm oid st) c =
      (if c = oid then map_option (\<lambda>o'. o'\<lparr>od_status := s, od_at := Some (stamp_of (e_now E)), od_by := Some adm\<rparr>)
        (get_order st c) else get_order st c)" for c
    unfolding get_order_def set_order_status_def by (simp add: tables)
  moreover have "get_user (set_order_status s E adm oid st) = get_user st" by (simp add: set_order_status_def get_user_def fun_eq_iff)
  ultimately show ?thesis
    by (simp add: ledger_of_def set_status_def fun_eq_iff option.map_comp comp_def) (simp add: set_order_status_def)
qed

lemma register_ledger: "ledger_of (bill_step U (Register i n f) E E2 st) = ledger_step U (Register i n f) E E2 (ledger_of st)"
proof (cases "get_user st i")
  case None
  define u where "u = \<lparr>ur_id = i, ur_username = n, ur_first = f, ur_token = generate_token E,
    ur_key_id = compute_key_id (generate_token E), ur_expires = None, ur_active = False,
    ur_warned_24h = False, ur_warned_72h = False, ur_waiting = False\<rparr>"
  have uf: "ur_expires u = None" "\<not> ur_active u" by (simp_all add: u_def)
  have g: "get_user (st\<lparr>b_users := b_users st @ [u]\<rparr>) j = (if j = i then Some u else get_user st j)" for j
    using None by (auto simp: get_user_def tables u_def split: option.split)
  have "ledger_of (st\<lparr>b_users := b_users st @ [u]\<rparr>) = (ledger_of st)\<lparr>lg_until := (lg_until (ledger_of st))(i \<mapsto> None)\<rparr>"
    using None by (auto simp: ledger_of_def g fun_eq_iff get_order_def uf)
  with None show ?thesis
    by (simp add: get_or_create_user_def Let_def lg_until_ledger u_def)
next
  case (Some u)
  then show ?thesis by (simp add: get_or_create_user_def lg_until_ledger ledger_quiet_update)
qed

lemma order_ledger: "ledger_of (bill_step U (Order i n f p a c) E E2 st) = ledger_step U (Order i n f p a c) E E2 (ledger_of st)"
proof (cases "get_order st (order_number E)")
  case None
  define d where "d = \<lparr>od_id = order_number E, od_user = i, od_username = n, od_first = f, od_plan = p, od_amount = a,
    od_currency = c, od_status = OrderPending, od_at = None, od_by = None\<rparr>"
  have fresh: "order_number E \<notin> set (map od_id (b_orders st))"
    using None unfolding get_order_def find_key_None .
  have "get_order (st\<lparr>b_orders := b_orders st @ [d]\<rparr>) j = (if j = order_number E then Some d else get_order st j)" for j
    using None by (auto simp: get_order_def tables d_def split: option.split)
  then have "ledger_of (st\<lparr>b_orders := b_orders st @ [d]\<rparr>) =
      (ledger_of st)\<lparr>lg_orders := (lg_orders (ledger_of st))(order_number E \<mapsto> (i, p, OrderPending))\<rparr>"
    by (auto simp: ledger_of_def fun_eq_iff d_def)
  with None fresh show ?thesis by (simp add: create_order_def Let_def lg_orders_ledger d_def)
next
  case (Some d)
  then have "d \<in> set (b_orders st) \<and> od_id d = order_number E"
    unfolding get_order_def by (rule find_key_Some)
  then have "order_number E \<in> set (map od_id (b_orders st))" by force
  with Some show ?thesis by (simp add: create_order_def Let_def lg_orders_ledger)
qed

lemma approve_ledger: "ledger_of (bill_step U (Approve oid adm) E E2 st) = ledger_step U (Approve oid adm) E E2 (ledger_of st)"
proof (cases "get_order st oid")
  case (Some d)
  let ?x = "extend_subscription E (od_user d) (pl_days (plan_or_month (od_plan d))) (od_plan d)
    (approval_payment oid) (od_amount d) (od_currency d) (ustr ''admin_manual'') st"
  note L = extend_ledger [of E "od_user d" "pl_days (plan_or_month (od_plan d))" "od_plan d" "approval_payment oid"
      "od_amount d" "od_currency d" "ustr ''admin_manual''" st]
  note R = extend_result [of E "od_user d" "pl_days (plan_or_month (od_plan d))" "od_plan d" "approval_payment oid"
      "od_amount d" "od_currency d" "ustr ''admin_manual''" st]
  show ?thesis
  proof (cases "od_status d")
    case OrderPending
    obtain r st1 where x: "?x = (r, st1)" by (rule prod.exhaust)
    with L R Some OrderPending show ?thesis
      by (auto simp: approve_order_def lg_orders_ledger Let_def ledger_set_order_status split: sum.split bool.split)
  qed (use Some in \<open>simp_all add: approve_order_def lg_orders_ledger\<close>)
qed (simp add: approve_order_def lg_orders_ledger)

lemma reject_ledger: "ledger_of (bill_step U (Reject oid adm) E E2 st) = ledger_step U (Reject oid adm) E E2 (ledger_of st)"
proof (cases "get_order st oid")
  case (Some d)
  then show ?thesis
    by (cases "od_status d") (simp_all add: reject_order_def lg_orders_ledger ledger_set_order_status)
qed (simp add: reject_order_def lg_orders_ledger)

lemma lg_promos_ledger: "lg_promos (ledger_of st) c =
  map_option (\<lambda>p. (pc_days p, pc_max p, pc_used p)) (find (\<lambda>p. pc_code p = c) (b_promos st))"
  by (simp add: ledger_of_def)

lemma promo_ledger: "ledger_of (bill_step U (Promo i code) E E2 st) = ledger_step U (Promo i code) E E2 (ledger_of st)"
proof (cases "find (\<lambda>p. pc_code p = norm_code U code) (b_promos st)")
  case (Some p)
  let ?c = "norm_code U code"
  have used: "lg_used (ledger_of st) = set (b_promo_uses st)" by (simp add: ledger_of_def)
  let ?st = "st\<lparr>b_promo_uses := b_promo_uses st @ [(?c, i)],
    b_promos := map (\<lambda>p. if pc_code p = ?c then p\<lparr>pc_used := pc_used p + 1\<rparr> else p) (b_promos st)\<rparr>"
  have "find (\<lambda>p. pc_code p = c) (b_promos ?st) =
      (if c = ?c then Some (p\<lparr>pc_used := pc_used p + 1\<rparr>) else find (\<lambda>p. pc_code p = c) (b_promos st))" for c
    using Some by (simp add: find_map_key)
  then have l: "ledger_of ?st = (ledger_of st)\<lparr>lg_used := insert (?c, i) (lg_used (ledger_of st)),
      lg_promos := (lg_promos (ledger_of st))(?c \<mapsto> (pc_days p, pc_max p, pc_used p + 1))\<rparr>"
    by (auto simp: ledger_of_def fun_eq_iff)
  show ?thesis
  proof (cases "get_user st i")
    case None
    with Some show ?thesis by (simp add: apply_promocode_def redeem_def lg_until_ledger lg_promos_ledger Let_def)
  next
    case u: (Some u)
    have g: "get_user ?st i = Some u" using u by simp
    show ?thesis
    proof (cases "add_days (renew_base (e_now E) u) (pc_days p)")
      case (Inl e)
      with Some u show ?thesis
        by (simp add: apply_promocode_def redeem_def lg_until_ledger lg_promos_ledger renew_base_prolong Let_def)
    next
      case (Inr t)
      with Some u ledger_credit [OF g] l show ?thesis
        by (auto simp: apply_promocode_def redeem_def lg_until_ledger lg_promos_ledger renew_base_prolong used
            Let_def case_prod_beta)
    qed
  qed
qed (simp add: apply_promocode_def redeem_def lg_promos_ledger)

lemma new_promo_ledger: "ledger_of (bill_step U (NewPromo code d m) E E2 st) = ledger_step U (NewPromo code d m) E E2 (ledger_of st)"
proof -
  let ?c = "norm_code U code"
  have k: "pc_code (p\<lparr>pc_days := d, pc_max := m\<rparr>) = pc_code p" for p by simp
  have "?c \<in> set (map pc_code (b_promos st)) \<longleftrightarrow> find (\<lambda>p. pc_code p = ?c) (b_promos st) \<noteq> None"
    by (simp only: find_key_None) simp
  then show ?thesis
    by (cases "find (\<lambda>p. pc_code p = ?c) (b_promos st)")
      (auto simp: create_promocode_def Let_def ledger_of_def tables find_map_key [where k = pc_code and f = "\<lambda>p. p\<lparr>pc_days := d, pc_max := m\<rparr>", OF k]
        fun_eq_iff get_order_def split: option.split)
qed

lemma cut_ledger: "ledger_of (bill_step U (Cut i) E E2 st) = ledger_step U (Cut i) E E2 (ledger_of st)"
proof (cases "get_user st i")
  case None
  then have "i \<notin> lg_active (ledger_of st)" by (simp add: ledger_of_def)
  with None show ?thesis by (simp add: deactivate_user_def)
next
  case (Some u)
  have "ledger_of (update_user i (\<lambda>u. u\<lparr>ur_active := False\<rparr>) st) =
      (ledger_of st)\<lparr>lg_active := lg_active (ledger_of st) - {i}\<rparr>"
    using Some by (auto simp: ledger_of_def tables fun_eq_iff)
  with Some show ?thesis by (simp add: deactivate_user_def)
qed

lemma manual_ledger: "ledger_of (snd (create_manual_key E U d s n adm st)) = ledger_of st"
  by (simp add: create_manual_key_def Let_def split: sum.split)

lemma remind_ledger: "ledger_of (snd (mark_reminder_sent E i r st)) = ledger_of st"
  by (cases r) (simp_all add: mark_reminder_sent_def ledger_quiet_update)

text \<open>C6: Refinement of the bot's tables: whatever sequence of operations runs, and whichever of their
  transactions fail, the ledger that the tables stand for is the one obtained by the same steps on
  the abstract ledger. An approval there credits a known user once per order, a promo code credits
  once per user below its limit, a cut only clears the activity.\<close>
theorem ledger_refines:
  "ledger_of (bill_run U cs st) = fold (\<lambda>(c, E, E2). ledger_step U c E E2) cs (ledger_of st)"
proof (induction cs arbitrary: st)
  case (Cons x cs)
  obtain c E E2 where x: "x = (c, E, E2)" by (rule prod_cases3)
  have "ledger_of (bill_step U c E E2 st) = ledger_step U c E E2 (ledger_of st)"
  proof (cases c)
    case (SetWaiting i w)
    then show ?thesis by (simp add: set_user_support_state_def ledger_quiet_update)
  next
    case (Ticket i n q)
    then show ?thesis by (simp add: create_support_ticket_def Let_def)
  next
    case (Reply n adm r)
    then show ?thesis by (simp add: reply_support_ticket_def Let_def)
  qed (simp_all only: register_ledger order_ledger approve_ledger reject_ledger promo_ledger new_promo_ledger
      cut_ledger, simp_all add: manual_ledger remind_ledger)
  with Cons.IH show ?case by (simp add: x)
qed simp

end
