(* ===== verification/BillingInv.thy ===== *)
theory BillingInv
  imports BillingSpec
begin

text \<open>
  The invariant of the bot's tables and what follows from it for payments and promo codes.
\<close>

section \<open>Well-formed tables\<close>

text \<open>Every payment belongs to an order, every approved order has its payment.\<close>

definition orders_paid :: "billing \<Rightarrow> bool" where
  "orders_paid st \<longleftrightarrow>
     (\<forall>p \<in> set (b_payments st). \<exists>d \<in> set (b_orders st). pay_id p = approval_payment (od_id d) \<and>
        pay_user p = od_user d \<and> pay_plan p = od_plan d \<and> pay_amount p = od_amount d) \<and>
     (\<forall>d \<in> set (b_orders st). od_status d = OrderApproved \<longrightarrow>
        approval_payment (od_id d) \<in> set (map pay_id (b_payments st)))"

definition promos_counted :: "billing \<Rightarrow> bool" where
  "promos_counted st \<longleftrightarrow>
     distinct (b_promo_uses st) \<and> fst ` set (b_promo_uses st) \<subseteq> set (map pc_code (b_promos st)) \<and>
     (\<forall>p \<in> set (b_promos st). pc_used p = int (length (filter (\<lambda>x. fst x = pc_code p) (b_promo_uses st))))"

definition keys_unique :: "billing \<Rightarrow> bool" where
  "keys_unique st \<longleftrightarrow>
     distinct (map ur_id (b_users st)) \<and> distinct (map pay_id (b_payments st)) \<and>
     distinct (map pc_code (b_promos st)) \<and> distinct (map od_id (b_orders st)) \<and>
     distinct (map mk_key_id (b_manual st)) \<and> distinct (map sr_username (b_server st)) \<and>
     map tk_id (b_tickets st) = [1..<Suc (length (b_tickets st))]"

definition billing_wf :: "billing \<Rightarrow> bool" where
  "billing_wf st \<longleftrightarrow> keys_unique st \<and> promos_counted st \<and> orders_paid st"

lemma init_wf: "billing_wf init_db"
  by (simp add: billing_wf_def keys_unique_def promos_counted_def orders_paid_def init_db_def)

lemma wf_update_user:
  assumes "\<And>u. ur_id (f u) = ur_id u"
  shows "keys_unique (update_user i f st) = keys_unique st" "promos_counted (update_user i f st) = promos_counted st"
    "orders_paid (update_user i f st) = orders_paid st"
proof -
  have "map ur_id (b_users (update_user i f st)) = map ur_id (b_users st)"
    using assms by (simp add: update_user_def map_key_update del: map_map)
  then show "keys_unique (update_user i f st) = keys_unique st" by (simp add: keys_unique_def)
qed (simp_all add: promos_counted_def orders_paid_def)

lemma wf_sync_add:
  assumes "billing_wf st"
  shows "billing_wf (fst (sync_add_user_to_server E n k t st))"
proof -
  have ids: "map sr_username (map (\<lambda>r. if sr_username r = n then r\<lparr>sr_key_id := k, sr_token := t\<rparr> else r) rs) = map sr_username rs" for rs
    by (rule map_key_update) simp
  show ?thesis using assms
    by (auto simp: billing_wf_def keys_unique_def promos_counted_def orders_paid_def sync_add_user_to_server_def ids
        simp del: map_map upt_Suc)
qed

lemma wf_sync_remove: "billing_wf st \<Longrightarrow> billing_wf (fst (sync_remove_user_from_server E k st))"
  by (auto simp: billing_wf_def keys_unique_def promos_counted_def orders_paid_def sync_remove_user_from_server_def
      distinct_map_filter)

lemma wf_extend:
  assumes "billing_wf st" "d \<in> set (b_orders st)"
  shows "billing_wf (snd (extend_subscription E (od_user d) n (od_plan d) (approval_payment (od_id d)) (od_amount d) c pr st))"
proof -
  let ?pid = "approval_payment (od_id d)"
  have "billing_wf (fst (sync_add_user_to_server E nm k t (update_user i f (st\<lparr>b_payments := b_payments st @ [p]\<rparr>))))"
    if "?pid \<notin> set (map pay_id (b_payments st))" "\<And>u. ur_id (f u) = ur_id u"
      "p = \<lparr>pay_user = od_user d, pay_plan = od_plan d, pay_days = n, pay_amount = od_amount d, pay_currency = c,
            pay_provider = pr, pay_id = ?pid\<rparr>" for nm k t i f p
  proof (rule wf_sync_add)
    have "billing_wf (st\<lparr>b_payments := b_payments st @ [p]\<rparr>)"
      using assms that(1,3) by (auto simp: billing_wf_def keys_unique_def promos_counted_def orders_paid_def)
    then show "billing_wf (update_user i f (st\<lparr>b_payments := b_payments st @ [p]\<rparr>))"
      using that(2) by (simp add: billing_wf_def wf_update_user)
  qed
  then show ?thesis using assms(1)
    by (auto simp: extend_subscription_def Let_def case_prod_beta split: option.split sum.split)
qed

lemma wf_set_order_status:
  assumes "billing_wf st" "s = OrderApproved \<Longrightarrow> approval_payment oid \<in> set (map pay_id (b_payments st))"
  shows "billing_wf (set_order_status s E adm oid st)"
proof -
  let ?f = "\<lambda>d. d\<lparr>od_status := s, od_at := Some (stamp_of (e_now E)), od_by := Some adm\<rparr>"
  let ?os = "map (\<lambda>d. if od_id d = oid then ?f d else d) (b_orders st)"
  have ids: "map od_id ?os = map od_id (b_orders st)" by (rule map_key_update) simp
  have pay: "\<exists>d \<in> set ?os. pay_id p = approval_payment (od_id d) \<and>
        pay_user p = od_user d \<and> pay_plan p = od_plan d \<and> pay_amount p = od_amount d" if "p \<in> set (b_payments st)" for p
  proof -
    have "\<exists>d \<in> set (b_orders st). pay_id p = approval_payment (od_id d) \<and>
        pay_user p = od_user d \<and> pay_plan p = od_plan d \<and> pay_amount p = od_amount d"
      using assms(1) that by (auto simp: billing_wf_def orders_paid_def)
    then obtain d where "d \<in> set (b_orders st)" "pay_id p = approval_payment (od_id d) \<and>
        pay_user p = od_user d \<and> pay_plan p = od_plan d \<and> pay_amount p = od_amount d" by blast
    then show ?thesis by (intro bexI [of _ "if od_id d = oid then ?f d else d"]) auto
  qed
  have "orders_paid (set_order_status s E adm oid st)"
    using assms pay by (auto simp: orders_paid_def set_order_status_def billing_wf_def)
  with assms(1) show ?thesis unfolding billing_wf_def
    by (auto simp: keys_unique_def promos_counted_def set_order_status_def ids simp del: map_map)
qed

lemma extend_paid:
  "fst (extend_subscription E i n pl pid a c pr st) = Inr (True, x) \<Longrightarrow>
   pid \<in> set (map pay_id (b_payments (snd (extend_subscription E i n pl pid a c pr st))))"
  by (auto simp: extend_subscription_def Let_def case_prod_beta sync_add_user_to_server_def update_user_def
      split: option.splits sum.splits if_splits)

lemma wf_approve:
  assumes "billing_wf st"
  shows "billing_wf (snd (approve_order E E2 oid adm st))"
proof (cases "get_order st oid")
  case (Some d)
  then have d: "d \<in> set (b_orders st)" "od_id d = oid" unfolding get_order_def by (auto dest: find_key_Some)
  obtain r st1 where x: "extend_subscription E (od_user d) (pl_days (plan_or_month (od_plan d))) (od_plan d)
    (approval_payment oid) (od_amount d) (od_currency d) (ustr ''admin_manual'') st = (r, st1)" by (rule prod.exhaust)
  have wf: "billing_wf st1"
    using wf_extend [OF assms d(1), of E "pl_days (plan_or_month (od_plan d))" "od_currency d" "ustr ''admin_manual''"]
    by (simp add: d x)
  have "approval_payment oid \<in> set (map pay_id (b_payments st1))" if "r = Inr (True, n)" for n
    using extend_paid [of E "od_user d" "pl_days (plan_or_month (od_plan d))" "od_plan d" "approval_payment oid"
        "od_amount d" "od_currency d" "ustr ''admin_manual''" st n] by (simp add: x that del: set_map)
  then show ?thesis using assms wf Some x
    by (auto simp: approve_order_def wf_set_order_status simp del: set_map split: sum.split prod.split bool.split)
qed (use assms in \<open>simp add: approve_order_def\<close>)

lemma wf_promo:
  assumes "billing_wf st"
  shows "billing_wf (snd (apply_promocode E U i code st))"
proof -
  let ?c = "norm_code U code"
  let ?ps = "map (\<lambda>p. if pc_code p = ?c then p\<lparr>pc_used := pc_used p + 1\<rparr> else p) (b_promos st)"
  have ids: "map pc_code ?ps = map pc_code (b_promos st)" by (rule map_key_update) simp
  have "billing_wf (fst (sync_add_user_to_server E nm k t (update_user j f
      (st\<lparr>b_promo_uses := b_promo_uses st @ [(?c, i)], b_promos := ?ps\<rparr>))))"
    if "?c \<in> set (map pc_code (b_promos st))" "(?c, i) \<notin> set (b_promo_uses st)" "\<And>u. ur_id (f u) = ur_id u" for nm k t j f
  proof (rule wf_sync_add)
    let ?st = "st\<lparr>b_promo_uses := b_promo_uses st @ [(?c, i)], b_promos := ?ps\<rparr>"
    have "fst ` set (b_promo_uses st) \<subseteq> set (map pc_code (b_promos st))"
      using assms by (simp add: billing_wf_def promos_counted_def)
    then have "promos_counted ?st"
      using assms that(1,2) unfolding promos_counted_def billing_wf_def by (auto simp: ids simp del: map_map)
    then have "billing_wf ?st"
      using assms by (simp add: billing_wf_def keys_unique_def orders_paid_def ids del: map_map)
    then show "billing_wf (update_user j f ?st)" using that(3) by (simp add: billing_wf_def wf_update_user)
  qed
  moreover have "?c \<in> set (map pc_code (b_promos st))" if "find (\<lambda>p. pc_code p = ?c) (b_promos st) = Some p" for p
    using find_key_Some [OF that] by force
  ultimately show ?thesis using assms
    by (auto simp: apply_promocode_def Let_def case_prod_beta simp del: set_map split: option.split sum.split)
qed

lemma wf_new_promo:
  assumes "billing_wf st"
  shows "billing_wf (snd (create_promocode E U code d m st))"
proof -
  let ?c = "norm_code U code"
  have ids: "map pc_code (map (\<lambda>p. if pc_code p = ?c then p\<lparr>pc_days := d, pc_max := m\<rparr> else p) (b_promos st)) = map pc_code (b_promos st)"
    by (rule map_key_update) simp
  have "length (filter (\<lambda>x. fst x = ?c) (b_promo_uses st)) = 0" if "?c \<notin> set (map pc_code (b_promos st))"
  proof -
    have "\<forall>x \<in> set (b_promo_uses st). fst x \<noteq> ?c" using assms that by (auto simp: billing_wf_def promos_counted_def)
    then show ?thesis by simp
  qed
  then have "billing_wf (st\<lparr>b_promos := b_promos st @ [\<lparr>pc_code = ?c, pc_days = d, pc_max = m, pc_used = 0\<rparr>]\<rparr>)"
    if "?c \<notin> set (map pc_code (b_promos st))"
    using assms that by (auto simp: billing_wf_def keys_unique_def promos_counted_def orders_paid_def)
  moreover have "promos_counted (st\<lparr>b_promos := map (\<lambda>p. if pc_code p = ?c then p\<lparr>pc_days := d, pc_max := m\<rparr> else p) (b_promos st)\<rparr>)"
    using assms unfolding promos_counted_def billing_wf_def
    by (simp add: ids del: map_map set_map) (auto simp: ball_Un)
  then have "billing_wf (st\<lparr>b_promos := map (\<lambda>p. if pc_code p = ?c then p\<lparr>pc_days := d, pc_max := m\<rparr> else p) (b_promos st)\<rparr>)"
    using assms by (simp add: billing_wf_def keys_unique_def orders_paid_def ids del: map_map)
  ultimately show ?thesis using assms
    by (simp add: create_promocode_def Let_def)
qed

lemma wf_register: "billing_wf st \<Longrightarrow> billing_wf (snd (get_or_create_user E i n f st))"
proof (cases "get_user st i")
  case None
  moreover assume "billing_wf st"
  moreover have "i \<notin> set (map ur_id (b_users st))" using None unfolding get_user_def find_key_None .
  ultimately show ?thesis
    by (auto simp: get_or_create_user_def Let_def billing_wf_def keys_unique_def promos_counted_def orders_paid_def)
qed (simp add: get_or_create_user_def billing_wf_def wf_update_user)

lemma wf_order: "billing_wf st \<Longrightarrow> billing_wf (snd (create_order E i n f p a c st))"
  by (fastforce simp: create_order_def Let_def billing_wf_def keys_unique_def promos_counted_def orders_paid_def)

lemma wf_manual: "billing_wf st \<Longrightarrow> billing_wf (snd (create_manual_key E U d s n adm st))"
proof -
  assume w: "billing_wf st"
  have "billing_wf (st\<lparr>b_manual := b_manual st @ [k]\<rparr>)" if "mk_key_id k \<notin> set (map mk_key_id (b_manual st))" for k
    using w that by (auto simp: billing_wf_def keys_unique_def promos_counted_def orders_paid_def)
  with w show ?thesis
    by (auto simp: create_manual_key_def Let_def intro!: wf_sync_add simp del: set_map split: sum.split)
qed

lemma wf_ticket: "billing_wf st \<Longrightarrow> billing_wf (snd (create_support_ticket E i n q st))"
  by (simp add: create_support_ticket_def Let_def billing_wf_def keys_unique_def promos_counted_def orders_paid_def)

lemma wf_reply: "billing_wf st \<Longrightarrow> billing_wf (snd (reply_support_ticket E n adm r st))"
proof -
  have "map tk_id (map (\<lambda>t. if tk_id t = n then t\<lparr>tk_reply := Some r, tk_admin := Some adm, tk_status := TicketClosed,
                      tk_answered := Some (stamp_of (e_now E))\<rparr> else t) (b_tickets st)) = map tk_id (b_tickets st)"
    by (rule map_key_update) simp
  then show "billing_wf st \<Longrightarrow> ?thesis"
    by (simp add: reply_support_ticket_def Let_def billing_wf_def keys_unique_def promos_counted_def orders_paid_def del: map_map)
qed

lemma set_warned_id [simp]: "ur_id (set_warned r u) = ur_id u"
  by (cases r) auto

lemma bill_step_wf:
  assumes "billing_wf st"
  shows "billing_wf (bill_step U c E E2 st)"
proof (cases c)
  case (Reject oid adm)
  then show ?thesis using assms by (auto simp: reject_order_def intro!: wf_set_order_status split: option.split)
next
  case (Cut i)
  then show ?thesis using assms
    by (auto simp: deactivate_user_def billing_wf_def [of "update_user _ _ _"] wf_update_user intro!: wf_sync_remove
        split: option.split) (simp_all add: billing_wf_def)
qed (use assms in \<open>simp_all add: wf_register wf_order wf_approve wf_promo wf_new_promo wf_manual wf_ticket wf_reply\<close>,
    use assms in \<open>simp_all add: billing_wf_def wf_update_user set_user_support_state_def mark_reminder_sent_def\<close>)

lemma bill_run_wf: "billing_wf st \<Longrightarrow> billing_wf (bill_run U cs st)"
  by (induction U cs st rule: bill_run.induct) (simp_all add: bill_step_wf)

section \<open>Properties\<close>

text \<open>C18: Whatever operations run on fresh tables and whatever transactions fail, the primary and unique
  keys stay unique, ticket numbers count up from 1, a promo code's counter is the number of its
  distinct users, every payment belongs to an order, with its buyer, plan and amount, and every
  approved order has been paid.\<close>
theorem bill_reachable_wf: "billing_wf (bill_run U cs init_db)"
  by (rule bill_run_wf [OF init_wf])

text \<open>C7: No order is ever paid out twice, however often it is approved and whichever of the two
  transactions of an approval fail in between: in every reachable state at most one payment stems
  from an order, and the revenue shown to the admin is the sum over the orders paid.\<close>
theorem order_paid_once:
  "let st = bill_run U cs init_db in
    length (filter (\<lambda>p. pay_id p = approval_payment oid) (b_payments st)) \<le> 1 \<and>
    as_total_revenue (get_admin_stats now st) =
      sum_list (map od_amount (filter (\<lambda>d. approval_payment (od_id d) \<in> set (map pay_id (b_payments st))) (b_orders st)))"
  unfolding Let_def
proof
  let ?st = "bill_run U cs init_db"
  have wf: "billing_wf ?st" using bill_run_wf [OF init_wf] by simp
  then have dp: "distinct (map pay_id (b_payments ?st))" and dd: "distinct (map od_id (b_orders ?st))"
    by (simp_all add: billing_wf_def keys_unique_def)
  have "length (filter (\<lambda>p. pay_id p = x) ps) \<le> 1" if "distinct (map pay_id ps)" for ps x
    using that by (induction ps) (auto simp: filter_empty_conv image_iff)
  then show "length (filter (\<lambda>p. pay_id p = approval_payment oid) (b_payments ?st)) \<le> 1" using dp by blast
  let ?os = "filter (\<lambda>d. approval_payment (od_id d) \<in> set (map pay_id (b_payments ?st))) (b_orders ?st)"
  have inj: "approval_payment x = approval_payment y \<Longrightarrow> x = y" for x y by (simp add: approval_payment_def)
  have own: "\<exists>d \<in> set (b_orders ?st). pay_id p = approval_payment (od_id d) \<and> pay_amount p = od_amount d"
    if "p \<in> set (b_payments ?st)" for p
    using wf that by (fastforce simp: billing_wf_def orders_paid_def)
  have "(\<lambda>p. (pay_id p, pay_amount p)) ` set (b_payments ?st) = (\<lambda>d. (approval_payment (od_id d), od_amount d)) ` set ?os"
  proof (intro equalityI subsetI)
    fix x assume "x \<in> (\<lambda>p. (pay_id p, pay_amount p)) ` set (b_payments ?st)"
    then obtain p where p: "p \<in> set (b_payments ?st)" "x = (pay_id p, pay_amount p)" by blast
    from own [OF p(1)] obtain d where "d \<in> set (b_orders ?st)" "pay_id p = approval_payment (od_id d)"
      "pay_amount p = od_amount d" by blast
    with p show "x \<in> (\<lambda>d. (approval_payment (od_id d), od_amount d)) ` set ?os" by force
  next
    fix x assume "x \<in> (\<lambda>d. (approval_payment (od_id d), od_amount d)) ` set ?os"
    then obtain d p where d: "d \<in> set (b_orders ?st)" "p \<in> set (b_payments ?st)" "pay_id p = approval_payment (od_id d)"
      "x = (approval_payment (od_id d), od_amount d)" by auto
    from own [OF d(2)] obtain d' where d': "d' \<in> set (b_orders ?st)" "pay_id p = approval_payment (od_id d')"
      "pay_amount p = od_amount d'" by blast
    then have "od_id d = od_id d'" using inj d(3) by metis
    then have "d = d'" using dd d(1) d'(1) by (metis find_key_unique option.inject)
    with d d' show "x \<in> (\<lambda>p. (pay_id p, pay_amount p)) ` set (b_payments ?st)" by force
  qed
  then have eq: "set (map (\<lambda>p. (pay_id p, pay_amount p)) (b_payments ?st)) =
    set (map (\<lambda>d. (approval_payment (od_id d), od_amount d)) ?os)" by (simp only: set_map)
  have d1: "distinct (map (\<lambda>p. (pay_id p, pay_amount p)) (b_payments ?st))"
    using dp by (auto simp: distinct_map intro: inj_onI dest: inj_onD)
  have "distinct (map od_id ?os)" using dd by (rule distinct_map_filter)
  then have d2: "distinct (map (\<lambda>d. (approval_payment (od_id d), od_amount d)) ?os)"
    unfolding distinct_map by (auto intro!: inj_onI dest: inj inj_onD)
  have "sum snd (set (map (\<lambda>p. (pay_id p, pay_amount p)) (b_payments ?st))) = sum_list (map pay_amount (b_payments ?st))"
    using d1 by (simp add: sum_list_distinct_conv_sum_set [symmetric] comp_def del: set_map)
  moreover have "sum snd (set (map (\<lambda>d. (approval_payment (od_id d), od_amount d)) ?os)) = sum_list (map od_amount ?os)"
    using d2 by (simp add: sum_list_distinct_conv_sum_set [symmetric] comp_def del: set_map)
  ultimately show "as_total_revenue (get_admin_stats now ?st) = sum_list (map od_amount ?os)"
    by (simp add: get_admin_stats_def eq del: set_map)
qed

end
