(* ===== verification/Worker.thy ===== *)
theory Worker
  imports BillingInv
begin

text \<open>
  tools/telegram_bot/subscription_worker.py: the thread that reminds and cuts off. One round takes
  three snapshots of the user table and works through each with its own transactions; the \<open>k\<close>th
  of them runs in \<open>w_env k\<close>. The callback that delivers messages may raise; without one, the
  thread uses a callback that does nothing.
\<close>

section \<open>One round\<close>

record worker_env =
  w_now72 :: int
  w_now24 :: int
  w_now :: int
  w_send :: "nat \<Rightarrow> bool"
  w_env :: "nat \<Rightarrow> benv"

datatype worker_msg =
    Reminder reminder int "stamp option"
  | SubscriptionEnded int

text \<open>\<open>send_message\<close>, then \<open>mark_reminder_sent\<close>; an exception of either is logged.\<close>

fun remind_loop :: "reminder \<Rightarrow> worker_env \<Rightarrow> nat \<Rightarrow> user_row list \<Rightarrow> billing \<Rightarrow> billing \<times> worker_msg list" where
  "remind_loop r W k [] st = (st, [])"
| "remind_loop r W k (u # us) st =
     (if w_send W k then
        (case remind_loop r W (Suc k) us (snd (mark_reminder_sent (w_env W k) (ur_id u) r st)) of
           (st', msgs) \<Rightarrow> (st', Reminder r (ur_id u) (ur_expires u) # msgs))
      else remind_loop r W (Suc k) us st)"

text \<open>An exception of \<open>deactivate_user\<close> ends the round.\<close>

fun expire_loop :: "worker_env \<Rightarrow> nat \<Rightarrow> user_row list \<Rightarrow> billing \<Rightarrow> billing \<times> worker_msg list" where
  "expire_loop W k [] st = (st, [])"
| "expire_loop W k (u # us) st =
     (case deactivate_user (w_env W k) (ur_id u) st of
        (Inl e, st') \<Rightarrow> (st', [])
      | (Inr _, st') \<Rightarrow>
          (case expire_loop W (Suc k) us st' of
             (st2, msgs) \<Rightarrow> (st2, if w_send W k then SubscriptionEnded (ur_id u) # msgs else msgs)))"

definition check_expirations :: "worker_env \<Rightarrow> billing \<Rightarrow> billing \<times> worker_msg list" where
  "check_expirations W st =
     (let us72 = get_expiring_users (w_now72 W) 48 72 Warned72h st;
          (st1, m1) = remind_loop Warned72h W 0 us72 st;
          us24 = get_expiring_users (w_now24 W) 0 24 Warned24h st1;
          (st2, m2) = remind_loop Warned24h W (length us72) us24 st1;
          expired = get_expired_active_users (w_now W) st2;
          (st3, m3) = expire_loop W (length us72 + length us24) expired st2
      in (st3, m1 @ m2 @ m3))"

text \<open>What reaches the users: nothing with the default callback of \<open>start_worker\<close>.\<close>

definition delivered :: "bool \<Rightarrow> worker_msg list \<Rightarrow> worker_msg list" where
  "delivered has_callback msgs = (if has_callback then msgs else [])"

text \<open>The loop, a round a minute.\<close>

fun run_loop :: "worker_env list \<Rightarrow> billing \<Rightarrow> billing" where
  "run_loop [] st = st"
| "run_loop (W # Ws) st = run_loop Ws (fst (check_expirations W st))"

section \<open>What a round keeps\<close>

text \<open>A round only sets warning flags, clears activity and removes rows of the server.\<close>

definition round_of :: "billing \<Rightarrow> billing \<Rightarrow> bool" where
  "round_of st st' \<longleftrightarrow>
     map (\<lambda>u. (ur_id u, ur_key_id u, ur_expires u)) (b_users st') = map (\<lambda>u. (ur_id u, ur_key_id u, ur_expires u)) (b_users st) \<and>
     set (b_server st') \<subseteq> set (b_server st) \<and>
     (\<forall>r \<in> set (b_server st). sr_key_id r \<notin> ur_key_id ` set (b_users st) \<longrightarrow> r \<in> set (b_server st')) \<and>
     (\<forall>i u. get_user st' i = Some u \<and> ur_active u \<longrightarrow> (\<exists>v. get_user st i = Some v \<and> ur_active v))"

lemma round_refl: "round_of st st"
  by (simp add: round_of_def)

lemma round_keys: "round_of st st' \<Longrightarrow> ur_key_id ` set (b_users st') = ur_key_id ` set (b_users st)"
proof -
  assume "round_of st st'"
  then have "map (\<lambda>u. (ur_id u, ur_key_id u, ur_expires u)) (b_users st') = map (\<lambda>u. (ur_id u, ur_key_id u, ur_expires u)) (b_users st)"
    by (simp add: round_of_def)
  then have "(fst \<circ> snd) ` set (map (\<lambda>u. (ur_id u, ur_key_id u, ur_expires u)) (b_users st')) =
    (fst \<circ> snd) ` set (map (\<lambda>u. (ur_id u, ur_key_id u, ur_expires u)) (b_users st))" by simp
  then show ?thesis by (simp add: image_image)
qed

lemma round_trans:
  assumes "round_of a b" "round_of b c"
  shows "round_of a c"
proof -
  have "r \<in> set (b_server c)" if "r \<in> set (b_server a)" "sr_key_id r \<notin> ur_key_id ` set (b_users a)" for r
    using that assms round_keys [OF assms(1)] by (auto simp: round_of_def)
  moreover have "\<exists>v. get_user a i = Some v \<and> ur_active v" if "get_user c i = Some u" "ur_active u" for i u
    using that assms unfolding round_of_def by blast
  moreover have "set (b_server c) \<subseteq> set (b_server a)" using assms unfolding round_of_def by blast
  ultimately show ?thesis using assms by (simp add: round_of_def)
qed

lemma map_snd_update:
  "(\<And>u. g (f u) = g u) \<Longrightarrow> map g (map (\<lambda>u. if ur_id u = i then f u else u) us) = map g us"
  by (induction us) auto

lemma round_update:
  assumes "\<And>u. ur_id (f u) = ur_id u" "\<And>u. ur_key_id (f u) = ur_key_id u" "\<And>u. ur_expires (f u) = ur_expires u"
    and "\<And>u. ur_active (f u) \<Longrightarrow> ur_active u"
  shows "round_of st (update_user i f st)"
proof -
  have "map (\<lambda>u. (ur_id u, ur_key_id u, ur_expires u)) (b_users (update_user i f st)) =
      map (\<lambda>u. (ur_id u, ur_key_id u, ur_expires u)) (b_users st)"
    unfolding update_user_def using assms(1-3) by (simp add: map_snd_update del: map_map)
  moreover have "\<exists>v. get_user st j = Some v \<and> ur_active v" if "get_user (update_user i f st) j = Some u" "ur_active u" for j u
    using that assms by (cases "get_user st j") (auto simp: tables split: if_splits)
  ultimately show ?thesis by (simp add: round_of_def)
qed

lemma round_mark: "round_of st (snd (mark_reminder_sent E i r st))"
  by (cases r) (auto simp: mark_reminder_sent_def round_refl intro!: round_update)

lemma get_user_mem: "get_user st i = Some u \<Longrightarrow> u \<in> set (b_users st) \<and> ur_id u = i"
  unfolding get_user_def by (rule find_key_Some)

lemma round_deactivate: "round_of st (snd (deactivate_user E i st))"
proof (cases "get_user st i")
  case (Some u)
  let ?st = "update_user i (\<lambda>u. u\<lparr>ur_active := False\<rparr>) st"
  have first: "round_of st ?st" by (rule round_update) auto
  have "ur_key_id u \<in> ur_key_id ` set (b_users ?st)"
    using get_user_mem [OF Some] round_keys [OF first] by blast
  then have "round_of ?st (fst (sync_remove_user_from_server E (ur_key_id u) ?st))"
    by (auto simp: round_of_def sync_remove_user_from_server_def simp del: update_user_frame)
  with first have "round_of st (fst (sync_remove_user_from_server E (ur_key_id u) ?st))" by (rule round_trans)
  with Some show ?thesis by (simp add: deactivate_user_def round_refl)
qed (simp add: deactivate_user_def round_refl)

lemma round_remind_loop: "round_of st (fst (remind_loop r W k us st))"
proof (induction r W k us st rule: remind_loop.induct)
  case (2 r W k u us st)
  then show ?case
    using round_trans [OF round_mark [of st "w_env W k" "ur_id u" r]] by (auto simp: case_prod_beta)
qed (simp add: round_refl)

lemma round_expire_loop: "round_of st (fst (expire_loop W k us st))"
proof (induction W k us st rule: expire_loop.induct)
  case (2 W k u us st)
  obtain r st' where d: "deactivate_user (w_env W k) (ur_id u) st = (r, st')" by (rule prod.exhaust)
  have "round_of st st'" using round_deactivate [of st "w_env W k" "ur_id u"] by (simp add: d)
  with 2 [OF d [symmetric]] show ?case
    using round_trans by (cases r) (auto simp: d case_prod_beta)
qed (simp add: round_refl)

lemma round_check: "round_of st (fst (check_expirations W st))"
  unfolding check_expirations_def Let_def case_prod_beta fst_conv snd_conv
  by (rule round_trans [OF round_trans [OF round_remind_loop round_remind_loop] round_expire_loop])

lemma round_run: "round_of st (run_loop Ws st)"
proof (induction Ws st rule: run_loop.induct)
  case (2 W Ws st)
  then show ?case using round_trans [OF round_check] by simp
qed (simp add: round_refl)

section \<open>Cutting off\<close>

text \<open>The subscription of user \<open>i\<close>: its row, with the server's rows gone once it is inactive.\<close>

definition tracked :: "int \<Rightarrow> ustr \<Rightarrow> stamp \<Rightarrow> billing \<Rightarrow> bool" where
  "tracked i k e st \<longleftrightarrow>
     (\<exists>v. get_user st i = Some v \<and> ur_key_id v = k \<and> ur_expires v = Some e \<and>
        (ur_active v \<or> k \<notin> sr_key_id ` set (b_server st)))"

definition cut_off :: "int \<Rightarrow> ustr \<Rightarrow> billing \<Rightarrow> bool" where
  "cut_off i k st \<longleftrightarrow> (\<forall>v. get_user st i = Some v \<longrightarrow> \<not> ur_active v) \<and> k \<notin> sr_key_id ` set (b_server st)"

definition syncs :: "worker_env \<Rightarrow> bool" where
  "syncs W \<longleftrightarrow> (\<forall>k. e_sync (w_env W k))"

definition commits :: "worker_env \<Rightarrow> bool" where
  "commits W \<longleftrightarrow> (\<forall>k. e_commit (w_env W k) 0)"

lemma tracked_mark: "tracked i k e st \<Longrightarrow> tracked i k e (snd (mark_reminder_sent E j r st))"
  by (cases r) (auto simp: tracked_def mark_reminder_sent_def tables)

lemma tracked_deactivate:
  assumes "tracked i k e st" "e_sync E"
  shows "tracked i k e (snd (deactivate_user E j st))"
proof (cases "get_user st j")
  case (Some u)
  with assms show ?thesis
    by (auto simp: tracked_def deactivate_user_def sync_remove_user_from_server_def tables)
qed (use assms in \<open>simp add: deactivate_user_def\<close>)

lemma tracked_remind_loop: "tracked i k e st \<Longrightarrow> tracked i k e (fst (remind_loop r W n us st))"
  by (induction r W n us st rule: remind_loop.induct) (auto simp: case_prod_beta tracked_mark)

lemma tracked_expire_loop: "tracked i k e st \<Longrightarrow> syncs W \<Longrightarrow> tracked i k e (fst (expire_loop W n us st))"
proof (induction W n us st rule: expire_loop.induct)
  case (2 W n u us st)
  obtain r st' where d: "deactivate_user (w_env W n) (ur_id u) st = (r, st')" by (rule prod.exhaust)
  have "tracked i k e st'"
    using tracked_deactivate [OF 2(2), of "w_env W n" "ur_id u"] 2(3) by (simp add: d syncs_def)
  with 2(1) [OF d [symmetric]] 2(3) show ?case by (cases r) (auto simp: d case_prod_beta)
qed simp

lemma tracked_check:
  assumes "tracked i k e st" "syncs W"
  shows "tracked i k e (fst (check_expirations W st))"
  unfolding check_expirations_def Let_def case_prod_beta fst_conv snd_conv
  by (rule tracked_expire_loop [OF tracked_remind_loop [OF tracked_remind_loop [OF assms(1)]] assms(2)])

lemma deactivate_cuts:
  assumes "tracked i k e st" "e_commit E 0" "e_sync E"
  shows "cut_off i k (snd (deactivate_user E i st))"
  using assms by (auto simp: tracked_def cut_off_def deactivate_user_def sync_remove_user_from_server_def tables)

lemma cut_off_round: "cut_off i k st \<Longrightarrow> round_of st st' \<Longrightarrow> cut_off i k st'"
proof -
  assume c: "cut_off i k st" and r: "round_of st st'"
  have "\<not> ur_active v" if "get_user st' i = Some v" for v
  proof
    assume "ur_active v"
    with that r obtain w where "get_user st i = Some w" "ur_active w" unfolding round_of_def by blast
    with c show False by (simp add: cut_off_def)
  qed
  moreover have "set (b_server st') \<subseteq> set (b_server st)" using r by (simp add: round_of_def)
  ultimately show "cut_off i k st'" using c by (auto simp: cut_off_def)
qed

lemma expire_loop_cuts:
  assumes "tracked i k e st" "syncs W" "commits W" "i \<in> ur_id ` set us"
  shows "cut_off i k (fst (expire_loop W n us st))"
  using assms
proof (induction W n us st rule: expire_loop.induct)
  case (2 W n u us st)
  have c: "e_commit (w_env W n) 0" "e_sync (w_env W n)" using 2(3,4) by (simp_all add: syncs_def commits_def)
  obtain r st' where d: "deactivate_user (w_env W n) (ur_id u) st = (r, st')" by (rule prod.exhaust)
  with c obtain x where r: "r = Inr x" by (cases r) (auto simp: deactivate_user_def split: option.splits)
  have t: "tracked i k e st'" using tracked_deactivate [OF 2(2) c(2), of "ur_id u"] by (simp add: d)
  show ?case
  proof (cases "ur_id u = i")
    case True
    then have "deactivate_user (w_env W n) i st = (r, st')" using d by simp
    with deactivate_cuts [OF 2(2) c] have "cut_off i k st'" by simp
    from cut_off_round [OF this round_expire_loop] show ?thesis by (simp add: d r case_prod_beta)
  next
    case False
    with 2(5) have "i \<in> ur_id ` set us" by auto
    from 2(1) [OF d [symmetric] r t 2(3,4) this] show ?thesis by (simp add: d r case_prod_beta)
  qed
qed simp

lemma check_cuts:
  assumes "tracked i k e st" "syncs W" "commits W" "e < stamp_of (w_now W)"
  shows "cut_off i k (fst (check_expirations W st))"
proof -
  let ?us72 = "get_expiring_users (w_now72 W) 48 72 Warned72h st"
  let ?st1 = "fst (remind_loop Warned72h W 0 ?us72 st)"
  let ?us24 = "get_expiring_users (w_now24 W) 0 24 Warned24h ?st1"
  let ?st2 = "fst (remind_loop Warned24h W (length ?us72) ?us24 ?st1)"
  have t: "tracked i k e ?st2" by (rule tracked_remind_loop [OF tracked_remind_loop [OF assms(1)]])
  then obtain v where v: "get_user ?st2 i = Some v" "ur_key_id v = k" "ur_expires v = Some e"
    "ur_active v \<or> k \<notin> sr_key_id ` set (b_server ?st2)" by (auto simp: tracked_def)
  have eq: "fst (check_expirations W st) =
    fst (expire_loop W (length ?us72 + length ?us24) (get_expired_active_users (w_now W) ?st2) ?st2)"
    by (simp add: check_expirations_def Let_def case_prod_beta)
  show ?thesis
  proof (cases "ur_active v")
    case True
    with get_user_mem [OF v(1)] v(3) assms(4) have "i \<in> ur_id ` set (get_expired_active_users (w_now W) ?st2)"
      by (force simp: get_expired_active_users_def)
    from expire_loop_cuts [OF t assms(2,3) this] show ?thesis unfolding eq .
  next
    case False
    with v have "cut_off i k ?st2" by (simp add: cut_off_def)
    from cut_off_round [OF this round_expire_loop] show ?thesis unfolding eq .
  qed
qed

lemma run_loop_append: "run_loop (xs @ ys) st = run_loop ys (run_loop xs st)"
  by (induction xs st rule: run_loop.induct) auto

text \<open>C17: Liveness of the expiry thread: if the server's file stays writable and some round after the end
  of a subscription has its transactions go through, then from some round on the user is inactive
  and the server holds no row with its key, whatever failed in the rounds before.\<close>
theorem expired_eventually_cut:
  assumes "get_user st i = Some u" "ur_active u" "ur_expires u = Some e"
    and "\<And>n. syncs (R n)" "commits (R n0)" "e < stamp_of (w_now (R n0))"
  shows "\<exists>n. \<forall>m \<ge> n. cut_off i (ur_key_id u) (run_loop (map R [0..<m]) st)"
proof (intro exI allI impI)
  fix m assume m: "Suc n0 \<le> m"
  have t: "tracked i (ur_key_id u) e (run_loop (map R [0..<n]) st)" for n
  proof (induction n)
    case 0
    show ?case using assms(1-3) by (simp add: tracked_def)
  next
    case (Suc n)
    then show ?case using tracked_check [OF Suc assms(4)] by (simp add: run_loop_append)
  qed
  have c: "cut_off i (ur_key_id u) (run_loop (map R [0..<Suc n0]) st)"
    using check_cuts [OF t assms(4,5,6)] by (simp add: run_loop_append)
  have "[0..<m] = [0..<Suc n0] @ [Suc n0..<m]"
    using upt_add_eq_append [of 0 "Suc n0" "m - Suc n0"] m by (simp del: upt_Suc)
  then have "run_loop (map R [0..<m]) st = run_loop (map R [Suc n0..<m]) (run_loop (map R [0..<Suc n0]) st)"
    by (simp only: map_append run_loop_append)
  then show "cut_off i (ur_key_id u) (run_loop (map R [0..<m]) st)"
    using cut_off_round [OF c round_run] by simp
qed

definition sample_user :: user_row where
  "sample_user = \<lparr>ur_id = 7, ur_username = None, ur_first = [65], ur_token = [97], ur_key_id = [98], ur_expires = Some 1000,
     ur_active = True, ur_warned_24h = True, ur_warned_72h = True, ur_waiting = False\<rparr>"

definition sample_billing :: billing where
  "sample_billing = init_db\<lparr>b_users := [sample_user],
     b_server := [\<lparr>sr_username = srv_username 7 sample_user, sr_key_id = [98], sr_token = [97]\<rparr>]\<rparr>"

definition ok_env :: "int \<Rightarrow> benv" where
  "ok_env now = \<lparr>e_now = now, e_commit = (\<lambda>_. True), e_sync = True, e_token = replicate 32 0, e_rand = 0\<rparr>"

definition ok_round :: "int \<Rightarrow> worker_env" where
  "ok_round now = \<lparr>w_now72 = now, w_now24 = now, w_now = now, w_send = (\<lambda>_. True), w_env = (\<lambda>_. ok_env now)\<rparr>"

theorem expired_eventually_cut_witness:
  "\<exists>n. \<forall>m \<ge> n. cut_off 7 [98] (run_loop (map (\<lambda>n. ok_round (60000000 * int n)) [0..<m]) sample_billing)"
proof -
  have "get_user sample_billing 7 = Some sample_user" by (simp add: sample_billing_def get_user_def sample_user_def)
  from expired_eventually_cut [OF this, of 1000 "\<lambda>n. ok_round (60000000 * int n)" 20] show ?thesis
    by (simp add: sample_user_def syncs_def commits_def ok_round_def ok_env_def stamp_of_def us_per_s_def)
qed

lemma sync_add_present:
  assumes "e_sync E"
  shows "\<exists>r \<in> set (b_server (fst (sync_add_user_to_server E n k t st))). sr_key_id r = k \<and> sr_token r = t"
proof (cases "n \<in> set (map sr_username (b_server st))")
  case True
  then obtain x where "x \<in> set (b_server st)" "sr_username x = n" by auto
  with True assms show ?thesis
    by (intro bexI [of _ "x\<lparr>sr_key_id := k, sr_token := t\<rparr>"]) (auto simp: sync_add_user_to_server_def)
qed (use assms in \<open>simp add: sync_add_user_to_server_def\<close>)

section \<open>Where the rounds go wrong\<close>

text \<open>A row of the server whose key belongs to no active user is out of the reach of every round.\<close>

definition forgotten :: "server_row \<Rightarrow> billing \<Rightarrow> bool" where
  "forgotten r st \<longleftrightarrow> r \<in> set (b_server st) \<and> distinct (map ur_id (b_users st)) \<and>
     (\<forall>u \<in> set (b_users st). ur_key_id u = sr_key_id r \<longrightarrow> \<not> ur_active u)"

lemma forgotten_step:
  assumes "forgotten r st" "round_of st st'" "r \<in> set (b_server st')"
  shows "forgotten r st'"
proof -
  have m: "map (\<lambda>u. (ur_id u, ur_key_id u, ur_expires u)) (b_users st') = map (\<lambda>u. (ur_id u, ur_key_id u, ur_expires u)) (b_users st)"
    using assms(2) by (simp add: round_of_def)
  from arg_cong [OF m, of "map fst"] have ids: "map ur_id (b_users st') = map ur_id (b_users st)" by (simp add: comp_def)
  have "\<not> ur_active u" if u: "u \<in> set (b_users st')" "ur_key_id u = sr_key_id r" for u
  proof
    assume a: "ur_active u"
    have d: "distinct (map ur_id (b_users st'))" using assms(1) ids by (simp add: forgotten_def)
    then have "get_user st' (ur_id u) = Some u" using u(1) by (simp add: get_user_def find_key_unique)
    then obtain v where v: "get_user st (ur_id u) = Some v" "ur_active v" using assms(2) a unfolding round_of_def by blast
    have "(ur_id u, ur_key_id u, ur_expires u) \<in> set (map (\<lambda>u. (ur_id u, ur_key_id u, ur_expires u)) (b_users st))"
      unfolding m [symmetric] using u(1) by simp
    then obtain w where w: "w \<in> set (b_users st)" "ur_id w = ur_id u" "ur_key_id w = ur_key_id u" by auto
    then have "get_user st (ur_id u) = Some w" using assms(1) by (simp add: get_user_def find_key_unique forgotten_def)
    with v w u(2) assms(1) show False by (auto simp: forgotten_def)
  qed
  with assms ids show ?thesis by (simp add: forgotten_def)
qed

lemma forgotten_remind_loop: "forgotten r st \<Longrightarrow> forgotten r (fst (remind_loop f W n us st))"
proof -
  assume a: "forgotten r st"
  have "b_server (fst (remind_loop f W n us st)) = b_server st"
    by (induction f W n us st rule: remind_loop.induct) (auto simp: case_prod_beta mark_reminder_sent_def)
  with a show ?thesis by (intro forgotten_step [OF a round_remind_loop]) (simp add: forgotten_def)
qed

lemma deactivate_keeps_row:
  assumes "r \<in> set (b_server st)" "\<And>u. get_user st i = Some u \<Longrightarrow> ur_key_id u \<noteq> sr_key_id r"
  shows "r \<in> set (b_server (snd (deactivate_user E i st)))"
  using assms by (auto simp: deactivate_user_def sync_remove_user_from_server_def split: option.split)

lemma forgotten_expire_loop:
  assumes "forgotten r st" "\<And>u v. u \<in> set us \<Longrightarrow> get_user st (ur_id u) = Some v \<Longrightarrow> ur_key_id v \<noteq> sr_key_id r"
  shows "forgotten r (fst (expire_loop W n us st))"
  using assms
proof (induction W n us st rule: expire_loop.induct)
  case (2 W n u us st)
  obtain x st' where d: "deactivate_user (w_env W n) (ur_id u) st = (x, st')" by (rule prod.exhaust)
  have row: "r \<in> set (b_server st')"
    using deactivate_keeps_row [of r st "ur_id u" "w_env W n"] 2(2,3) by (auto simp: d forgotten_def)
  have rnd: "round_of st st'" using round_deactivate [of st "w_env W n" "ur_id u"] by (simp add: d)
  have f: "forgotten r st'" by (rule forgotten_step [OF 2(2) rnd row])
  have keys: "ur_key_id v \<noteq> sr_key_id r" if "u' \<in> set us" "get_user st' (ur_id u') = Some v" for u' v
  proof -
    have st': "st' = st \<or> (\<exists>k. b_users st' = b_users (update_user (ur_id u) (\<lambda>u. u\<lparr>ur_active := False\<rparr>) st))"
      using d by (auto simp: deactivate_user_def sync_remove_user_from_server_def split: option.splits if_splits)
    then have "map_option ur_key_id (get_user st' (ur_id u')) = map_option ur_key_id (get_user st (ur_id u'))"
    proof
      assume "\<exists>k. b_users st' = b_users (update_user (ur_id u) (\<lambda>u. u\<lparr>ur_active := False\<rparr>) st)"
      then have "get_user st' (ur_id u') = get_user (update_user (ur_id u) (\<lambda>u. u\<lparr>ur_active := False\<rparr>) st) (ur_id u')"
        by (simp add: get_user_def)
      then show ?thesis by (cases "get_user st (ur_id u')") (auto simp: tables)
    qed simp
    with that 2(3) [of u'] show ?thesis by (cases "get_user st (ur_id u')") auto
  qed
  from 2(1) [OF d [symmetric] _ f keys] f show ?case by (cases x) (auto simp: d case_prod_beta)
qed simp

lemma forgotten_check: "forgotten r st \<Longrightarrow> forgotten r (fst (check_expirations W st))"
proof -
  assume a: "forgotten r st"
  let ?us72 = "get_expiring_users (w_now72 W) 48 72 Warned72h st"
  let ?st1 = "fst (remind_loop Warned72h W 0 ?us72 st)"
  let ?us24 = "get_expiring_users (w_now24 W) 0 24 Warned24h ?st1"
  let ?st2 = "fst (remind_loop Warned24h W (length ?us72) ?us24 ?st1)"
  have f: "forgotten r ?st2" by (rule forgotten_remind_loop [OF forgotten_remind_loop [OF a]])
  have "ur_key_id v \<noteq> sr_key_id r" if u: "u \<in> set (get_expired_active_users (w_now W) ?st2)"
    and v: "get_user ?st2 (ur_id u) = Some v" for u v
  proof -
    have "u \<in> set (b_users ?st2)" "ur_active u" using u by (simp_all add: get_expired_active_users_def)
    moreover from this f have "get_user ?st2 (ur_id u) = Some u"
      by (simp add: get_user_def find_key_unique forgotten_def)
    ultimately show ?thesis using v f by (auto simp: forgotten_def)
  qed
  from forgotten_expire_loop [OF f this] show ?thesis
    by (simp add: check_expirations_def Let_def case_prod_beta)
qed

lemma forgotten_run: "forgotten r st \<Longrightarrow> forgotten r (run_loop Ws st)"
  by (induction Ws st rule: run_loop.induct) (simp_all add: forgotten_check)



text \<open>A manual key never expires on the server: once created it stays in the server's table through
  every round of the expiry thread, whatever expiry time it was given and however late the round.\<close>
theorem manual_key_outlives_expiry:
  assumes "create_manual_key E U days speed note adm st = (Inr k, st')" "e_sync E"
    and "mk_key_id k \<notin> ur_key_id ` set (b_users st)"
  shows "\<exists>r \<in> set (b_server (run_loop Ws st')). sr_key_id r = mk_key_id k \<and> sr_token r = mk_token k"
proof -
  obtain n where k: "mk_key_id k = compute_key_id (generate_token E)" "mk_token k = generate_token E"
    and st': "st' = fst (sync_add_user_to_server E n (mk_key_id k) (mk_token k) (st\<lparr>b_manual := b_manual st @ [k]\<rparr>))"
    using assms(1) by (auto simp: create_manual_key_def Let_def split: sum.splits if_splits)
  have u: "b_users st' = b_users st" by (simp add: st' sync_add_user_to_server_def)
  have "\<exists>r \<in> set (b_server st'). sr_key_id r = mk_key_id k \<and> sr_token r = mk_token k"
    using sync_add_present [OF assms(2)] unfolding st' by blast
  then obtain r where r: "r \<in> set (b_server st')" "sr_key_id r = mk_key_id k" "sr_token r = mk_token k" by blast
  have "r \<in> set (b_server (run_loop Ws st'))"
    using round_run [of st' Ws] r(1,2) assms(3) unfolding round_of_def u by auto
  with r show ?thesis by blast
qed

theorem manual_key_outlives_expiry_witness:
  "\<exists>k st'. create_manual_key (ok_env 0) \<lparr>uc_upper = (\<lambda>_. []), uc_lower = (\<lambda>_. []), uc_alnum = (\<lambda>_. False)\<rparr> 1 940 [] 1 init_db = (Inr k, st') \<and>
     mk_expires k = 86400 \<and> (\<exists>r \<in> set (b_server (run_loop [ok_round 90000000000] st')). sr_key_id r = mk_key_id k)"
proof -
  obtain k st' where c: "create_manual_key (ok_env 0) \<lparr>uc_upper = (\<lambda>_. []), uc_lower = (\<lambda>_. []), uc_alnum = (\<lambda>_. False)\<rparr> 1 940 [] 1 init_db = (Inr k, st')"
    and e: "mk_expires k = 86400"
    by (simp add: create_manual_key_def Let_def add_days_def ok_env_def us_per_s_def us_per_day_def init_db_def stamp_of_def)
  have "\<exists>r \<in> set (b_server (run_loop [ok_round 90000000000] st')). sr_key_id r = mk_key_id k \<and> sr_token r = mk_token k"
    by (rule manual_key_outlives_expiry [OF c]) (simp_all add: ok_env_def init_db_def)
  with c e show ?thesis by blast
qed

text \<open>A renewal that falls between the snapshot of expired users and the deactivation of its user is
  undone: the user has paid and is told that the subscription is active, but is marked inactive and
  its key is removed from the server.\<close>
theorem renewal_race_cuts_paid_user:
  assumes "u \<in> set (get_expired_active_users snap st)" "distinct (map ur_id (b_users st))"
    and "extend_subscription E (ur_id u) days plan pid amount cur prov st = (Inr (True, Extended days s), st1)"
    and "e_commit E3 0" "e_sync E3" "now < s * us_per_s"
  shows "sub_active (check_subscription_status now (snd (deactivate_user E3 (ur_id u) st1)) (ur_id u)) \<and>
    cut_off (ur_id u) (ur_key_id u) (snd (deactivate_user E3 (ur_id u) st1))"
proof -
  have "u \<in> set (b_users st)" using assms(1) by (simp add: get_expired_active_users_def)
  then have g: "get_user st (ur_id u) = Some u" using assms(2) by (simp add: get_user_def find_key_unique)
  let ?f = "\<lambda>u. u\<lparr>ur_expires := Some s, ur_active := True, ur_warned_24h := False, ur_warned_72h := False\<rparr>"
  have g1: "get_user st1 (ur_id u) = Some (?f u)"
    using assms(3) g by (auto simp: extend_subscription_def Let_def case_prod_beta sync_add_user_to_server_def tables
        split: sum.splits if_splits)
  let ?f2 = "\<lambda>u. u\<lparr>ur_active := False\<rparr>"
  let ?st = "snd (deactivate_user E3 (ur_id u) st1)"
  have g2: "get_user ?st (ur_id u) = Some (?f2 (?f u))"
    using assms(4,5) g1 by (simp add: deactivate_user_def sync_remove_user_from_server_def tables)
  have "ur_key_id u \<notin> sr_key_id ` set (b_server ?st)"
    using assms(4,5) g1 by (auto simp: deactivate_user_def sync_remove_user_from_server_def)
  with g2 have "cut_off (ur_id u) (ur_key_id u) ?st" by (simp add: cut_off_def)
  moreover have "sub_active (check_subscription_status now ?st (ur_id u))"
    using assms(6) by (simp add: check_subscription_status_def g2 Let_def)
  ultimately show ?thesis by blast
qed

theorem renewal_race_cuts_paid_user_witness:
  "\<exists>st1. extend_subscription (ok_env 2000000000) 7 30 [] [80] 100 [] [] sample_billing = (Inr (True, Extended 30 2594000), st1) \<and>
     cut_off 7 [98] (snd (deactivate_user (ok_env 2000000001) 7 st1))"
proof -
  obtain st1 where x: "extend_subscription (ok_env 2000000000) 7 30 [] [80] 100 [] [] sample_billing = (Inr (True, Extended 30 2594000), st1)"
    by (simp add: extend_subscription_def sample_billing_def get_user_def sample_user_def renew_base_def add_days_def
        us_per_s_def us_per_day_def ok_env_def init_db_def Let_def stamp_of_def case_prod_beta)
  have m: "sample_user \<in> set (get_expired_active_users 2000000000 sample_billing)"
    by (simp add: get_expired_active_users_def sample_billing_def sample_user_def stamp_of_def us_per_s_def)
  have x': "extend_subscription (ok_env 2000000000) (ur_id sample_user) 30 [] [80] 100 [] [] sample_billing =
      (Inr (True, Extended 30 2594000), st1)"
    using x by (simp add: sample_user_def)
  have "cut_off (ur_id sample_user) (ur_key_id sample_user) (snd (deactivate_user (ok_env 2000000001) (ur_id sample_user) st1))"
    by (rule renewal_race_cuts_paid_user [where now = 0, OF m _ x', THEN conjunct2])
      (simp_all add: sample_billing_def init_db_def ok_env_def us_per_s_def)
  with x show ?thesis by (auto simp: sample_user_def)
qed

end
