(* ===== verification/Bot.thy ===== *)
theory Bot
  imports Worker
begin

text \<open>
  tools/telegram_bot/bot.py: the handlers of the Telegram bot over the tables of the billing
  database. A handler is a state transformer that may raise; the requests to the Telegram API, in
  order, are part of the state, and whether the \<open>n\<close>th of them is answered with ok is given by the
  environment. Message texts are constructors that carry the values filled in, keyboards are
  rows of the buttons' callback data or links.
\<close>

section \<open>Requests\<close>

datatype button = Data ustr | Link ustr
type_synonym keyboard = "button list list"

datatype sub_label = LabelNever | LabelActive | LabelExpired

datatype bot_text =
    TWelcome int sub_label "(stamp \<times> int \<times> int) option"
  | TStatus int sub_label "(stamp \<times> int \<times> int) option"
  | TBuyMenu plan
  | TPlan plan
  | TUserUnknown
  | TNoSubscription
  | TKey ustr stamp
  | TDownloads
  | TSupport
  | TAboutProto
  | TManualKey ustr stamp int int ustr
  | TNoUsers
  | TBroadcastStart nat
  | TBroadcast "ustr option"
  | TBroadcastDone nat nat
  | TAccessDenied
  | TAdminPanel admin_stats
  | TTrialOff
  | TNote bot_note
  | TPromoFormat
  | TMainMenu
  | TOrderSent ustr plan
  | TNewOrder ustr "ustr option" int ustr plan
  | TOrderConfirmed ustr order_row
  | TPaymentConfirmed ustr plan
  | TApproveFailed bot_note
  | TOrderRejected ustr
  | TYourOrderRejected ustr
  | TOrderUnknown
  | TOrderPending ustr
  | TOrderReady ustr
  | TApkSending
  | TApkCaption
  | TApkLink

datatype api_call =
    SendMessage int bot_text "keyboard option"
  | EditMessageText int int bot_text "keyboard option"
  | EditMessageCaption int int bot_text "keyboard option"
  | SendPhoto int ustr bot_text "keyboard option"    \<comment> \<open>the text of the QR code\<close>
  | SendDocument int bot_text "keyboard option"
  | AnswerCallback ustr
  | QrServer ustr                                    \<comment> \<open>the text sent to api.qrserver.com\<close>

record bot =
  bt_admins :: "int list"
  bt_offset :: int
  bt_db :: billing
  bt_calls :: "api_call list"

text \<open>
  \<open>be_db k\<close> is the environment of the \<open>k\<close>th database operation of an update, \<open>be_apk\<close> whether an
  APK file is found, \<open>be_qr_lib\<close> whether the \<open>qrcode\<close> library is installed, \<open>be_qr\<close> whether
  the image is not empty, or the exception of making it.
\<close>

record bot_env =
  be_api :: "nat \<Rightarrow> bool"
  be_db :: "nat \<Rightarrow> benv"
  be_apk :: bool
  be_qr_lib :: bool
  be_qr :: "pyexn + bool"

type_synonym 'a act = "bot \<Rightarrow> (pyexn + 'a) \<times> bot"

definition ret :: "'a \<Rightarrow> 'a act" where
  "ret x s = (Inr x, s)"

definition raise :: "pyexn \<Rightarrow> 'a act" where
  "raise e s = (Inl e, s)"

definition bnd :: "'a act \<Rightarrow> ('a \<Rightarrow> 'b act) \<Rightarrow> 'b act" where
  "bnd m f s = (case m s of (Inl e, s') \<Rightarrow> (Inl e, s') | (Inr x, s') \<Rightarrow> f x s')"

definition sq :: "'a act \<Rightarrow> 'b act \<Rightarrow> 'b act" where
  "sq m n = bnd m (\<lambda>_. n)"

definition db_query :: "(billing \<Rightarrow> 'a) \<Rightarrow> 'a act" where
  "db_query q s = (Inr (q (bt_db s)), s)"

definition db_op :: "(billing \<Rightarrow> (pyexn + 'a) \<times> billing) \<Rightarrow> 'a act" where
  "db_op f s = (case f (bt_db s) of (r, d) \<Rightarrow> (r, s\<lparr>bt_db := d\<rparr>))"

definition db_total :: "(billing \<Rightarrow> 'a \<times> billing) \<Rightarrow> 'a act" where
  "db_total f s = (case f (bt_db s) of (r, d) \<Rightarrow> (Inr r, s\<lparr>bt_db := d\<rparr>))"

text \<open>\<open>_api_call\<close> never raises; the result is whether the answer says ok.\<close>

definition call :: "bot_env \<Rightarrow> api_call \<Rightarrow> bool act" where
  "call B c s = (Inr (be_api B (length (bt_calls s))), s\<lparr>bt_calls := bt_calls s @ [c]\<rparr>)"

definition send_message :: "bot_env \<Rightarrow> int \<Rightarrow> bot_text \<Rightarrow> keyboard option \<Rightarrow> unit act" where
  "send_message B chat t kb = sq (call B (SendMessage chat t kb)) (ret ())"

text \<open>A message without text has a caption; if that cannot be edited either, a new message is sent.\<close>

definition edit_message_text :: "bot_env \<Rightarrow> int \<Rightarrow> int \<Rightarrow> bot_text \<Rightarrow> keyboard option \<Rightarrow> unit act" where
  "edit_message_text B chat mid t kb =
     bnd (call B (EditMessageText chat mid t kb)) (\<lambda>ok.
       if ok then ret ()
       else bnd (call B (EditMessageCaption chat mid t kb)) (\<lambda>ok2.
         if ok2 then ret () else send_message B chat t kb))"

text \<open>\<open>if message_id: edit ... else: send ...\<close>\<close>

definition show_text :: "bot_env \<Rightarrow> int \<Rightarrow> int option \<Rightarrow> bot_text \<Rightarrow> keyboard option \<Rightarrow> unit act" where
  "show_text B chat mid t kb =
     (case mid of
        None \<Rightarrow> send_message B chat t kb
      | Some m \<Rightarrow> if m = 0 then send_message B chat t kb else edit_message_text B chat m t kb)"

definition send_photo :: "bot_env \<Rightarrow> int \<Rightarrow> ustr \<Rightarrow> bot_text \<Rightarrow> keyboard option \<Rightarrow> unit act" where
  "send_photo B chat uri t kb = sq (call B (SendPhoto chat uri t kb)) (ret ())"

definition send_document :: "bot_env \<Rightarrow> int \<Rightarrow> bot_text \<Rightarrow> keyboard option \<Rightarrow> unit act" where
  "send_document B chat t kb = sq (call B (SendDocument chat t kb)) (ret ())"

definition answer_callback_query :: "bot_env \<Rightarrow> ustr \<Rightarrow> unit act" where
  "answer_callback_query B cb = sq (call B (AnswerCallback cb)) (ret ())"

text \<open>qr_generator.py: without the library the text goes to a public service.\<close>

definition get_qr_image_bytes :: "bot_env \<Rightarrow> ustr \<Rightarrow> bool act" where
  "get_qr_image_bytes B uri =
     sq (if be_qr_lib B then ret False else call B (QrServer uri))
       (case be_qr B of Inl e \<Rightarrow> raise e | Inr nonempty \<Rightarrow> ret nonempty)"

section \<open>Keyboards\<close>

definition owner_link :: button where "owner_link = Link (ustr ''https://t.me/Balbes_ls'')"
definition back_main :: "button list" where "back_main = [Data (ustr ''main_menu'')]"
definition apk_url :: ustr where
  "apk_url = ustr ''https://github.com/XDGOOD/AEGS-Global-/releases/download/v6.0-titan/AEGS-v6.0-titan.apk''"

text \<open>\<open>username.lower().lstrip('@')\<close>, compared with the owner's name.\<close>

definition py_lower :: "unicode \<Rightarrow> ustr \<Rightarrow> ustr" where
  "py_lower U s =
     concat (map (\<lambda>c. if c < 128 then [if 65 \<le> c \<and> c \<le> 90 then c + 32 else c] else uc_lower U c) s)"

definition owner_name :: "unicode \<Rightarrow> ustr option \<Rightarrow> bool" where
  "owner_name U un =
     (case un of None \<Rightarrow> False | Some n \<Rightarrow> dropWhile (\<lambda>c. c = 64) (py_lower U n) = ustr ''balbes_ls'')"

definition learn_admin :: "int \<Rightarrow> unit act" where
  "learn_admin chat s = (Inr (), if chat \<in> set (bt_admins s) then s else s\<lparr>bt_admins := bt_admins s @ [chat]\<rparr>)"

definition is_admin :: "unicode \<Rightarrow> int \<Rightarrow> ustr option \<Rightarrow> bool act" where
  "is_admin U chat un s =
     (if chat \<in> set (bt_admins s) then (Inr True, s)
      else if owner_name U un then (Inr True, s\<lparr>bt_admins := bt_admins s @ [chat]\<rparr>)
      else (Inr False, s))"

definition stored_username :: "int \<Rightarrow> billing \<Rightarrow> ustr option" where
  "stored_username uid st = (case get_user st uid of None \<Rightarrow> Some [] | Some u \<Rightarrow> ur_username u)"

definition get_main_keyboard :: "unicode \<Rightarrow> int \<Rightarrow> keyboard act" where
  "get_main_keyboard U uid =
     bnd (db_query (stored_username uid)) (\<lambda>un.
     bnd (is_admin U uid un) (\<lambda>adm.
       ret ((if adm then [[Data (ustr ''admin_panel'')]] else []) @
         [[Data (ustr ''status''), Data (ustr ''buy_menu'')],
          [Data (ustr ''get_key''), Data (ustr ''downloads'')],
          [Data (ustr ''send_apk_file''), Data (ustr ''about_proto'')],
          [owner_link]])))"

definition get_buy_keyboard :: keyboard where
  "get_buy_keyboard = [[Data (ustr ''select_plan:1_month'')], [owner_link], back_main]"

section \<open>Handlers\<close>

text \<open>The keys of the status dictionary, and \<open>status[k]\<close>.\<close>

fun status_keys :: "sub_status \<Rightarrow> ustr list" where
  "status_keys SubNoUser = map ustr [''exists'', ''active'', ''message'']"
| "status_keys (SubNever _) =
     map ustr [''exists'', ''active'', ''status_label'', ''expires_at'', ''days_left'', ''hours_left'', ''user'']"
| "status_keys _ =
     map ustr [''exists'', ''active'', ''status_label'', ''expires_at'', ''days_left'', ''hours_left'',
               ''total_seconds_left'', ''user'']"

definition need_key :: "sub_status \<Rightarrow> ustr \<Rightarrow> unit act" where
  "need_key st k = (if k \<in> set (status_keys st) then ret () else raise KeyError)"

fun status_label :: "sub_status \<Rightarrow> sub_label" where
  "status_label (SubActive _ _ _ _ _) = LabelActive"
| "status_label (SubExpired _ _) = LabelExpired"
| "status_label _ = LabelNever"

fun sub_left :: "sub_status \<Rightarrow> (stamp \<times> int \<times> int) option" where
  "sub_left (SubActive _ e d h _) = Some (e, d, h mod 24)"
| "sub_left _ = None"

definition query_status :: "bot_env \<Rightarrow> nat \<Rightarrow> int \<Rightarrow> sub_status act" where
  "query_status B k chat = db_query (\<lambda>d. check_subscription_status (e_now (be_db B k)) d chat)"

definition handle_start :: "bot_env \<Rightarrow> unicode \<Rightarrow> int \<Rightarrow> ustr option \<Rightarrow> ustr \<Rightarrow> unit act" where
  "handle_start B U chat un first =
     sq (db_op (get_or_create_user (be_db B 0) chat un first))
     (bnd (query_status B 1 chat) (\<lambda>status.
      bnd (is_admin U chat un) (\<lambda>adm.
      sq (if adm then learn_admin chat else ret ())
      (sq (need_key status (ustr ''status_label''))
      (bnd (get_main_keyboard U chat) (\<lambda>kb.
        send_message B chat (TWelcome chat (status_label status) (sub_left status)) (Some kb)))))))"

definition handle_status :: "bot_env \<Rightarrow> int \<Rightarrow> int option \<Rightarrow> unit act" where
  "handle_status B chat mid =
     bnd (query_status B 0 chat) (\<lambda>status.
     sq (need_key status (ustr ''key_id''))
     (sq (need_key status (ustr ''status_label''))
       (show_text B chat mid (TStatus chat (status_label status) (sub_left status))
         (Some [[Data (ustr ''get_key'')], [Data (ustr ''buy_menu'')], back_main]))))"

definition handle_buy_menu :: "bot_env \<Rightarrow> int \<Rightarrow> int option \<Rightarrow> unit act" where
  "handle_buy_menu B chat mid = show_text B chat mid (TBuyMenu (plan_or_month (ustr ''1_month''))) (Some get_buy_keyboard)"

definition handle_select_plan :: "bot_env \<Rightarrow> int \<Rightarrow> int \<Rightarrow> ustr \<Rightarrow> unit act" where
  "handle_select_plan B chat mid pid =
     (case map_of plans pid of
        None \<Rightarrow> ret ()
      | Some p \<Rightarrow>
          edit_message_text B chat mid (TPlan p)
            (Some [[Data (ustr ''submit_order:'' @ pid)], [owner_link], [Data (ustr ''buy_menu'')]]))"

text \<open>The link that is handed out.\<close>

definition key_uri :: "ustr \<Rightarrow> ustr \<Rightarrow> ustr" where
  "key_uri token key_id =
     ustr ''aegs://'' @ server_ip @ [58] @ str_int server_port @ ustr ''?token='' @ token @
       ustr ''&proto=titan_quic&key_id='' @ key_id"

text \<open>The photo if there is an image, the plain message otherwise.\<close>

definition send_key :: "bot_env \<Rightarrow> int \<Rightarrow> ustr \<Rightarrow> bot_text \<Rightarrow> keyboard option \<Rightarrow> unit act" where
  "send_key B chat uri t kb =
     bnd (get_qr_image_bytes B uri) (\<lambda>img. if img then send_photo B chat uri t kb else send_message B chat t kb)"

definition handle_get_key :: "bot_env \<Rightarrow> nat \<Rightarrow> int \<Rightarrow> unit act" where
  "handle_get_key B k chat =
     bnd (query_status B k chat) (\<lambda>status.
       case sub_user status of
         None \<Rightarrow> send_message B chat TUserUnknown None
       | Some u \<Rightarrow>
           (case status of
              SubActive _ e _ _ _ \<Rightarrow>
                send_key B chat (key_uri (ur_token u) (ur_key_id u)) (TKey (key_uri (ur_token u) (ur_key_id u)) e)
                  (Some [[Data (ustr ''downloads'')], [Data (ustr ''status'')], back_main])
            | _ \<Rightarrow> send_message B chat TNoSubscription (Some [[Data (ustr ''buy_menu'')], [owner_link], back_main])))"

definition handle_downloads :: "bot_env \<Rightarrow> int \<Rightarrow> int option \<Rightarrow> unit act" where
  "handle_downloads B chat mid =
     show_text B chat mid TDownloads (Some [[Data (ustr ''send_apk_file'')], [Link apk_url], back_main])"

definition handle_support_menu :: "bot_env \<Rightarrow> int \<Rightarrow> int option \<Rightarrow> unit act" where
  "handle_support_menu B chat mid = show_text B chat mid TSupport (Some [[owner_link], back_main])"

definition handle_about_proto :: "bot_env \<Rightarrow> int \<Rightarrow> int option \<Rightarrow> unit act" where
  "handle_about_proto B chat mid = show_text B chat mid TAboutProto (Some [back_main])"

definition send_apk_file :: "bot_env \<Rightarrow> int \<Rightarrow> unit act" where
  "send_apk_file B chat =
     (if be_apk B then
        sq (send_message B chat TApkSending None)
          (send_document B chat TApkCaption (Some [[Data (ustr ''get_key'')], [Data (ustr ''buy_menu'')], back_main]))
      else send_message B chat TApkLink None)"

definition handle_create_manual_key :: "bot_env \<Rightarrow> unicode \<Rightarrow> int \<Rightarrow> int \<Rightarrow> int \<Rightarrow> ustr \<Rightarrow> unit act" where
  "handle_create_manual_key B U chat days speed note =
     bnd (db_op (create_manual_key (be_db B 0) U days speed note chat)) (\<lambda>k.
       (let uri = key_uri (mk_token k) (mk_key_id k) @ ustr ''&speed='' @ str_int speed
        in send_key B chat uri (TManualKey uri (mk_expires k) days speed note)
             (Some [[Data (ustr ''admin_panel'')], back_main])))"

fun broadcast_loop :: "bot_env \<Rightarrow> bot_text \<Rightarrow> keyboard option \<Rightarrow> int list \<Rightarrow> nat \<Rightarrow> nat \<Rightarrow> (nat \<times> nat) act" where
  "broadcast_loop B t kb [] ok bad = ret (ok, bad)"
| "broadcast_loop B t kb (i # is) ok bad =
     bnd (call B (SendMessage i t kb)) (\<lambda>r.
       if r then broadcast_loop B t kb is (ok + 1) bad else broadcast_loop B t kb is ok (bad + 1))"

definition broadcast_app_update :: "bot_env \<Rightarrow> int \<Rightarrow> ustr option \<Rightarrow> unit act" where
  "broadcast_app_update B adm custom =
     bnd (db_query get_all_user_chat_ids) (\<lambda>ids.
       if ids = [] then send_message B adm TNoUsers None
       else
         sq (send_message B adm (TBroadcastStart (length ids)) None)
         (bnd (broadcast_loop B (TBroadcast custom) (Some [[Data (ustr ''send_apk_file'')], [Data (ustr ''get_key'')]]) ids 0 0)
           (\<lambda>(ok, bad). send_message B adm (TBroadcastDone ok bad) None)))"

definition handle_admin_panel :: "bot_env \<Rightarrow> unicode \<Rightarrow> int \<Rightarrow> int option \<Rightarrow> unit act" where
  "handle_admin_panel B U chat mid =
     bnd (db_query (stored_username chat)) (\<lambda>un.
     bnd (is_admin U chat un) (\<lambda>adm.
       if \<not> adm then send_message B chat TAccessDenied None
       else
         bnd (db_query (get_admin_stats (e_now (be_db B 0)))) (\<lambda>stats.
           show_text B chat mid (TAdminPanel stats)
             (Some [[Data (ustr ''admin_manual_key_menu'')], [Data (ustr ''admin_broadcast_prompt'')],
                    [Data (ustr ''admin_panel'')], back_main]))))"

section \<open>Updates\<close>

text \<open>Missing \<open>from\<close> fields have been filled in: no username, the first name \<open>User\<close>, an empty text.\<close>

datatype update =
    Msg int "ustr option" ustr ustr             \<comment> \<open>chat, username, first name, text\<close>
  | Callback ustr int int "ustr option" ustr ustr   \<comment> \<open>id, chat, message, username, first name, data\<close>
  | OtherUpdate

text \<open>\<open>str.isdigit\<close> and \<open>int\<close> on ASCII digits.\<close>

definition py_isdigit :: "ustr \<Rightarrow> bool" where
  "py_isdigit s \<longleftrightarrow> s \<noteq> [] \<and> list_all is_digit s"

text \<open>What follows the first word, for \<open>split(maxsplit=1)\<close> of a stripped text.\<close>

definition after_word :: "ustr \<Rightarrow> ustr" where
  "after_word s = dropWhile is_space (dropWhile (\<lambda>c. \<not> is_space c) s)"

definition join_space :: "ustr list \<Rightarrow> ustr" where
  "join_space ws = (case ws of [] \<Rightarrow> [] | w # ws \<Rightarrow> w @ concat (map (\<lambda>v. 32 # v) ws))"

definition create_key_command :: "bot_env \<Rightarrow> unicode \<Rightarrow> int \<Rightarrow> ustr \<Rightarrow> unit act" where
  "create_key_command B U chat text =
     (let parts = split_ws text;
          days = (if length parts > 1 \<and> py_isdigit (parts ! 1) then int (digits_val (parts ! 1)) else 30);
          speed = (if length parts > 2 \<and> py_isdigit (parts ! 2) then int (digits_val (parts ! 2)) else 940)
      in handle_create_manual_key B U chat days speed (join_space (drop 3 parts)))"

definition promo_command :: "bot_env \<Rightarrow> unicode \<Rightarrow> int \<Rightarrow> ustr \<Rightarrow> unit act" where
  "promo_command B U chat text =
     (if after_word text \<noteq> [] then
        bnd (db_total (apply_promocode (be_db B 0) U chat (after_word text))) (\<lambda>(ok, n).
        bnd (get_main_keyboard U chat) (\<lambda>kb. send_message B chat (TNote n) (Some kb)))
      else send_message B chat TPromoFormat None)"

text \<open>The Russian words for status, buy and key.\<close>

definition ru_status :: ustr where "ru_status = [1089, 1090, 1072, 1090, 1091, 1089]"
definition ru_buy :: ustr where "ru_buy = [1082, 1091, 1087, 1080, 1090, 1100]"
definition ru_key :: ustr where "ru_key = [1082, 1083, 1102, 1095]"

definition message_command :: "bot_env \<Rightarrow> unicode \<Rightarrow> int \<Rightarrow> ustr option \<Rightarrow> ustr \<Rightarrow> ustr \<Rightarrow> unit act" where
  "message_command B U chat un first text =
     (if starts_with text (ustr ''/start'') then handle_start B U chat un first
      else if starts_with text (ustr ''/status'') \<or> py_lower U text = ru_status then handle_status B chat None
      else if starts_with text (ustr ''/buy'') \<or> py_lower U text = ru_buy then handle_buy_menu B chat None
      else if starts_with text (ustr ''/key'') \<or> py_lower U text = ru_key then handle_get_key B 0 chat
      else if starts_with text (ustr ''/trial'') then send_message B chat TTrialOff None
      else if starts_with text (ustr ''/apk'') then send_apk_file B chat
      else if starts_with text (ustr ''/create_key'') then
        bnd (is_admin U chat un) (\<lambda>adm.
          if adm then create_key_command B U chat text else send_message B chat TAccessDenied None)
      else if starts_with text (ustr ''/broadcast_update'') then
        bnd (is_admin U chat un) (\<lambda>adm.
          if adm then
            (let custom = strip_by is_space (drop 17 text)
             in broadcast_app_update B chat (if custom = [] then None else Some custom))
          else send_message B chat TAccessDenied None)
      else if starts_with text (ustr ''/admin'') then handle_admin_panel B U chat None
      else if starts_with text (ustr ''/promo'') then promo_command B U chat text
      else bnd (get_main_keyboard U chat) (\<lambda>kb. send_message B chat TMainMenu (Some kb)))"

text \<open>The part of callback data behind the first colon, where the data starts with \<open>p\<close>.\<close>

definition arg_of :: "string \<Rightarrow> ustr \<Rightarrow> ustr option" where
  "arg_of p data = (if starts_with data (ustr p) then Some (tl (dropWhile (\<lambda>c. c \<noteq> 58) data)) else None)"

fun notify_admins :: "bot_env \<Rightarrow> bot_text \<Rightarrow> keyboard option \<Rightarrow> int list \<Rightarrow> unit act" where
  "notify_admins B t kb [] = ret ()"
| "notify_admins B t kb (a # as) = sq (send_message B a t kb) (notify_admins B t kb as)"

definition submit_order :: "bot_env \<Rightarrow> int \<Rightarrow> int \<Rightarrow> ustr option \<Rightarrow> ustr \<Rightarrow> ustr \<Rightarrow> unit act" where
  "submit_order B chat mid un first pid =
     (let p = plan_or_month pid in
      bnd (db_op (create_order (be_db B 0) chat un first pid (pl_price p) (ustr ''RUB''))) (\<lambda>oid.
      sq (edit_message_text B chat mid (TOrderSent oid p)
            (Some [[owner_link], [Data (ustr ''check_order:'' @ oid)], back_main]))
         (\<lambda>s. notify_admins B (TNewOrder oid un chat first p)
            (Some [[Data (ustr ''admin_approve:'' @ oid), Data (ustr ''admin_reject:'' @ oid)]]) (bt_admins s) s)))"

definition admin_approve :: "bot_env \<Rightarrow> unicode \<Rightarrow> int \<Rightarrow> int \<Rightarrow> ustr option \<Rightarrow> ustr \<Rightarrow> unit act" where
  "admin_approve B U chat mid un oid =
     bnd (is_admin U chat un) (\<lambda>adm.
       if \<not> adm then send_message B chat TAccessDenied None
       else
         bnd (db_op (approve_order (be_db B 0) (be_db B 1) oid chat)) (\<lambda>(ok, n, ord).
           case (ok, ord) of
             (True, Some d) \<Rightarrow>
               sq (edit_message_text B chat mid (TOrderConfirmed oid d) None)
               (sq (send_message B (od_user d) (TPaymentConfirmed oid (plan_or_month (od_plan d))) None)
                 (handle_get_key B 2 (od_user d)))
           | _ \<Rightarrow> send_message B chat (TApproveFailed n) None))"

definition admin_reject :: "bot_env \<Rightarrow> unicode \<Rightarrow> int \<Rightarrow> int \<Rightarrow> ustr option \<Rightarrow> ustr \<Rightarrow> unit act" where
  "admin_reject B U chat mid un oid =
     bnd (is_admin U chat un) (\<lambda>adm.
       if \<not> adm then send_message B chat TAccessDenied None
       else
         bnd (db_op (reject_order (be_db B 0) oid chat)) (\<lambda>(ok, n, ord).
           case (ok, ord) of
             (True, Some d) \<Rightarrow>
               sq (edit_message_text B chat mid (TOrderRejected oid) None)
                 (send_message B (od_user d) (TYourOrderRejected oid) (Some [[owner_link], back_main]))
           | _ \<Rightarrow> ret ()))"

definition check_order :: "bot_env \<Rightarrow> int \<Rightarrow> ustr \<Rightarrow> unit act" where
  "check_order B chat oid =
     bnd (db_query (\<lambda>d. get_order d oid)) (\<lambda>ord.
       case ord of
         None \<Rightarrow> send_message B chat TOrderUnknown None
       | Some d \<Rightarrow>
           (case od_status d of
              OrderPending \<Rightarrow> send_message B chat (TOrderPending oid) None
            | OrderApproved \<Rightarrow> send_message B chat (TOrderReady oid) (Some [[Data (ustr ''get_key'')]])
            | OrderRejected \<Rightarrow> send_message B chat (TOrderRejected oid) None))"

definition callback_command :: "bot_env \<Rightarrow> unicode \<Rightarrow> int \<Rightarrow> int \<Rightarrow> ustr option \<Rightarrow> ustr \<Rightarrow> ustr \<Rightarrow> unit act" where
  "callback_command B U chat mid un first data =
     (if data = ustr ''main_menu'' then handle_start B U chat un first
      else if data = ustr ''status'' then handle_status B chat (Some mid)
      else if data = ustr ''buy_menu'' then handle_buy_menu B chat (Some mid)
      else
        (case arg_of ''select_plan:'' data of Some a \<Rightarrow> handle_select_plan B chat mid a | None \<Rightarrow>
         case arg_of ''submit_order:'' data of Some a \<Rightarrow> submit_order B chat mid un first a | None \<Rightarrow>
         case arg_of ''admin_approve:'' data of Some a \<Rightarrow> admin_approve B U chat mid un a | None \<Rightarrow>
         case arg_of ''admin_reject:'' data of Some a \<Rightarrow> admin_reject B U chat mid un a | None \<Rightarrow>
         case arg_of ''check_order:'' data of Some a \<Rightarrow> check_order B chat a | None \<Rightarrow>
           (if data = ustr ''activate_trial'' then send_message B chat TTrialOff None
            else if data = ustr ''get_key'' then handle_get_key B 0 chat
            else if data = ustr ''downloads'' then handle_downloads B chat (Some mid)
            else if data = ustr ''support_menu'' then handle_support_menu B chat (Some mid)
            else if data = ustr ''about_proto'' then handle_about_proto B chat (Some mid)
            else if data = ustr ''admin_panel'' then handle_admin_panel B U chat (Some mid)
            else ret ())))"

definition process_update :: "bot_env \<Rightarrow> unicode \<Rightarrow> update \<Rightarrow> unit act" where
  "process_update B U up =
     (case up of
        Msg chat un first text \<Rightarrow>
          sq (if owner_name U un then learn_admin chat else ret ())
            (message_command B U chat un first (strip_by is_space text))
      | Callback cb chat mid un first data \<Rightarrow>
          sq (answer_callback_query B cb)
          (sq (if owner_name U un then learn_admin chat else ret ())
            (callback_command B U chat mid un first data))
      | OtherUpdate \<Rightarrow> ret ())"

text \<open>The polling loop: the offset moves first, an exception is logged.\<close>

fun run_polling :: "unicode \<Rightarrow> (bot_env \<times> int \<times> update) list \<Rightarrow> bot \<Rightarrow> bot" where
  "run_polling U [] s = s"
| "run_polling U ((B, n, up) # ups) s =
     run_polling U ups (snd (process_update B U up (s\<lparr>bt_offset := n + 1\<rparr>)))"

definition admin_ids :: "int list" where "admin_ids = [8537965095]"

text \<open>\<open>main\<close> starts the expiry thread without a callback.\<close>

definition bot_main :: "bot \<times> bool" where
  "bot_main = (\<lparr>bt_admins = admin_ids, bt_offset = 0, bt_db = init_db, bt_calls = []\<rparr>, False)"

end
