(* ===== verification/BotSpec.thy ===== *)
theory BotSpec
  imports Bot Gateway
begin

text \<open>
  Properties of the bot: who can make it issue anything, what an approval delivers, and the
  handlers that do not do what their buttons say. Invariants of handlers are proved once for
  any predicate that does not look at the requests made (locale \<open>bot_invariant\<close>).
\<close>

section \<open>Invariants of handlers\<close>

definition keeps :: "(bot \<Rightarrow> bool) \<Rightarrow> 'a act \<Rightarrow> bool" where
  "keeps P m \<longleftrightarrow> (\<forall>s. P s \<longrightarrow> P (snd (m s)))"

named_theorems kept "invariants of handlers"

lemma keeps_ret [kept]: "keeps P (ret x)"
  by (simp add: keeps_def ret_def)

lemma keeps_raise [kept]: "keeps P (raise e)"
  by (simp add: keeps_def raise_def)

lemma keeps_bnd [kept]: "keeps P m \<Longrightarrow> (\<And>x. keeps P (f x)) \<Longrightarrow> keeps P (bnd m f)"
  unfolding keeps_def bnd_def by (auto split: prod.split sum.split)

lemma keeps_sq [kept]: "keeps P m \<Longrightarrow> keeps P n \<Longrightarrow> keeps P (sq m n)"
  unfolding sq_def by (rule keeps_bnd)

lemma keeps_query [kept]: "keeps P (db_query q)"
  by (simp add: keeps_def db_query_def)

lemma keeps_if [kept]: "(b \<Longrightarrow> keeps P m) \<Longrightarrow> (\<not> b \<Longrightarrow> keeps P n) \<Longrightarrow> keeps P (if b then m else n)"
  by simp

lemma keeps_option [kept]:
  "(x = None \<Longrightarrow> keeps P m) \<Longrightarrow> (\<And>y. x = Some y \<Longrightarrow> keeps P (f y)) \<Longrightarrow> keeps P (case x of None \<Rightarrow> m | Some y \<Rightarrow> f y)"
  by (simp split: option.split)

lemma keeps_prod [kept]: "(\<And>a b. keeps P (f a b)) \<Longrightarrow> keeps P (case x of (a, b) \<Rightarrow> f a b)"
  by (simp split: prod.split)

lemma keeps_bool [kept]: "keeps P m \<Longrightarrow> keeps P n \<Longrightarrow> keeps P (case b of True \<Rightarrow> m | False \<Rightarrow> n)"
  by (simp split: bool.split)

lemma keeps_sum [kept]:
  "(\<And>y. keeps P (f y)) \<Longrightarrow> (\<And>y. keeps P (g y)) \<Longrightarrow> keeps P (case x of Inl y \<Rightarrow> f y | Inr y \<Rightarrow> g y)"
  by (simp split: sum.split)

lemma keeps_status [kept]:
  "keeps P m1 \<Longrightarrow> (\<And>u. keeps P (m2 u)) \<Longrightarrow> (\<And>u e d h t. keeps P (m3 u e d h t)) \<Longrightarrow> (\<And>u e. keeps P (m4 u e)) \<Longrightarrow>
   keeps P (case x of SubNoUser \<Rightarrow> m1 | SubNever u \<Rightarrow> m2 u | SubActive u e d h t \<Rightarrow> m3 u e d h t | SubExpired u e \<Rightarrow> m4 u e)"
  by (simp split: sub_status.split)

lemma keeps_order_status [kept]:
  "keeps P m1 \<Longrightarrow> keeps P m2 \<Longrightarrow> keeps P m3 \<Longrightarrow>
   keeps P (case x of OrderPending \<Rightarrow> m1 | OrderApproved \<Rightarrow> m2 | OrderRejected \<Rightarrow> m3)"
  by (simp split: order_status.split)

lemma keeps_op: "(\<And>s. P s \<Longrightarrow> P (s\<lparr>bt_db := snd (f (bt_db s))\<rparr>)) \<Longrightarrow> keeps P (db_op f)"
  by (simp add: keeps_def db_op_def case_prod_beta)

lemma keeps_total: "(\<And>s. P s \<Longrightarrow> P (s\<lparr>bt_db := snd (f (bt_db s))\<rparr>)) \<Longrightarrow> keeps P (db_total f)"
  by (simp add: keeps_def db_total_def case_prod_beta)

lemma keepsD: "keeps P m \<Longrightarrow> P s \<Longrightarrow> P (snd (m s))"
  by (simp add: keeps_def)

text \<open>What the handlers ask of a predicate: it does not depend on the requests.\<close>

locale bot_invariant =
  fixes P :: "bot \<Rightarrow> bool"
  assumes requests: "\<And>s cs. P s \<Longrightarrow> P (s\<lparr>bt_calls := cs\<rparr>)"
begin

lemma keeps_call: "keeps P (call B c)"
  by (simp add: keeps_def call_def requests)

lemma keeps_send: "keeps P (send_message B chat t kb)"
  unfolding send_message_def by (intro kept keeps_call)

lemma keeps_edit: "keeps P (edit_message_text B chat mid t kb)"
  unfolding edit_message_text_def by (intro kept keeps_call keeps_send)

lemma keeps_show: "keeps P (show_text B chat mid t kb)"
  unfolding show_text_def by (intro kept keeps_send keeps_edit)

lemma keeps_answer: "keeps P (answer_callback_query B cb)"
  unfolding answer_callback_query_def by (intro kept keeps_call)

lemma keeps_send_key: "keeps P (send_key B chat uri t kb)"
  unfolding send_key_def get_qr_image_bytes_def send_photo_def by (intro kept keeps_call keeps_send)

lemma keeps_get_key: "keeps P (handle_get_key B k chat)"
  unfolding handle_get_key_def query_status_def by (intro kept keeps_send keeps_send_key)

lemma keeps_status_handler: "keeps P (handle_status B chat mid)"
  unfolding handle_status_def query_status_def need_key_def by (intro kept keeps_show)

lemma keeps_buy_menu: "keeps P (handle_buy_menu B chat mid)"
  unfolding handle_buy_menu_def by (rule keeps_show)

lemma keeps_select_plan: "keeps P (handle_select_plan B chat mid pid)"
  unfolding handle_select_plan_def by (intro kept keeps_edit)

lemma keeps_apk: "keeps P (send_apk_file B chat)"
  unfolding send_apk_file_def send_document_def by (intro kept keeps_send keeps_call)

lemma keeps_notify: "keeps P (notify_admins B t kb as)"
  by (induction as) (auto intro!: kept keeps_send)

lemma keeps_check_order: "keeps P (check_order B chat oid)"
  unfolding check_order_def by (intro kept keeps_send)

lemma keeps_broadcast: "keeps P (broadcast_app_update B adm custom)"
proof -
  have "keeps P (broadcast_loop B t kb is ok bad)" for t kb "is" ok bad
    by (induction B t kb "is" ok bad rule: broadcast_loop.induct) (auto intro!: kept keeps_call)
  then show ?thesis unfolding broadcast_app_update_def by (intro kept keeps_send)
qed

lemmas keeps_plain = keeps_call keeps_send keeps_edit keeps_show keeps_answer keeps_send_key keeps_get_key
  keeps_status_handler keeps_buy_menu keeps_select_plan keeps_apk keeps_notify keeps_check_order keeps_broadcast

end

section \<open>Admins are never forgotten\<close>

interpretation admin: bot_invariant "\<lambda>s. a \<in> set (bt_admins s)" for a
  by unfold_locales simp

lemma learn_keeps_admin [kept]: "keeps (\<lambda>s. a \<in> set (bt_admins s)) (learn_admin chat)"
  by (simp add: keeps_def learn_admin_def)

lemma is_admin_keeps_admin [kept]: "keeps (\<lambda>s. a \<in> set (bt_admins s)) (is_admin U chat un)"
  by (simp add: keeps_def is_admin_def)

lemma op_keeps_admin [kept]: "keeps (\<lambda>s. a \<in> set (bt_admins s)) (db_op f)"
  by (rule keeps_op) simp

lemma total_keeps_admin [kept]: "keeps (\<lambda>s. a \<in> set (bt_admins s)) (db_total f)"
  by (rule keeps_total) simp

lemmas downloads_defs = handle_downloads_def handle_support_menu_def handle_about_proto_def

lemma process_keeps_admin: "keeps (\<lambda>s. a \<in> set (bt_admins s)) (process_update B U up)"
proof -
  have kb: "keeps (\<lambda>s. a \<in> set (bt_admins s)) (get_main_keyboard U c)" for c
    unfolding get_main_keyboard_def by (intro kept)
  have start: "keeps (\<lambda>s. a \<in> set (bt_admins s)) (handle_start B U c un f)" for c un f
    unfolding handle_start_def query_status_def need_key_def by (intro kept kb admin.keeps_plain)
  have panel: "keeps (\<lambda>s. a \<in> set (bt_admins s)) (handle_admin_panel B U c m)" for c m
    unfolding handle_admin_panel_def by (intro kept admin.keeps_plain)
  have submit: "keeps (\<lambda>s. a \<in> set (bt_admins s)) (submit_order B c m un f p)" for c m un f p
    unfolding submit_order_def Let_def
  proof (intro kept admin.keeps_plain)
    fix oid
    show "keeps (\<lambda>s. a \<in> set (bt_admins s)) (\<lambda>s. notify_admins B (t oid) (k oid) (bt_admins s) s)" for t k
      using admin.keeps_notify by (simp add: keeps_def)
  qed
  have msg: "keeps (\<lambda>s. a \<in> set (bt_admins s)) (message_command B U c un f t)" for c un f t
    unfolding message_command_def create_key_command_def handle_create_manual_key_def promo_command_def Let_def
    by (intro kept kb start panel admin.keeps_plain)
  have cb: "keeps (\<lambda>s. a \<in> set (bt_admins s)) (callback_command B U c m un f d)" for c m un f d
    unfolding callback_command_def admin_approve_def admin_reject_def downloads_defs
    by (intro kept kb start panel submit admin.keeps_plain)
  show ?thesis
    unfolding process_update_def by (cases up) (simp_all only: update.case, (intro kept msg cb admin.keeps_plain)+)
qed

section \<open>Strangers\<close>

text \<open>Chats in \<open>S\<close> are not the owner's: no admin id, no stored name of the owner; nothing was issued since \<open>st0\<close>.\<close>

definition powerless :: "unicode \<Rightarrow> int set \<Rightarrow> int list \<Rightarrow> billing \<Rightarrow> bot \<Rightarrow> bool" where
  "powerless U S A st0 s \<longleftrightarrow>
     bt_admins s = A \<and> S \<inter> set A = {} \<and>
     (\<forall>c \<in> S. \<forall>u. get_user (bt_db s) c = Some u \<longrightarrow> \<not> owner_name U (ur_username u)) \<and>
     b_promos (bt_db s) = [] \<and> b_payments (bt_db s) = b_payments st0 \<and> b_server (bt_db s) = b_server st0 \<and>
     b_manual (bt_db s) = b_manual st0 \<and> lg_active (ledger_of (bt_db s)) = lg_active (ledger_of st0) \<and>
     filter (\<lambda>d. od_status d \<noteq> OrderPending) (b_orders (bt_db s)) = filter (\<lambda>d. od_status d \<noteq> OrderPending) (b_orders st0)"

interpretation stranger: bot_invariant "powerless U S A st0" for U S A st0
  by unfold_locales (simp add: powerless_def)

fun from_stranger :: "unicode \<Rightarrow> int set \<Rightarrow> update \<Rightarrow> bool" where
  "from_stranger U S (Msg c un f t) \<longleftrightarrow> c \<in> S \<and> \<not> owner_name U un"
| "from_stranger U S (Callback cb c m un f d) \<longleftrightarrow> c \<in> S \<and> \<not> owner_name U un"
| "from_stranger U S OtherUpdate \<longleftrightarrow> True"

lemma owner_empty [simp]: "\<not> owner_name U (Some [])" "\<not> owner_name U None"
  by (simp_all add: owner_name_def py_lower_def ustr_def)

lemma stranger_not_admin:
  "powerless U S A st0 s \<Longrightarrow> c \<in> S \<Longrightarrow> \<not> owner_name U un \<Longrightarrow> is_admin U c un s = (Inr False, s)"
  by (auto simp: is_admin_def powerless_def)

lemma stranger_stored: "powerless U S A st0 s \<Longrightarrow> c \<in> S \<Longrightarrow> \<not> owner_name U (stored_username c (bt_db s))"
  by (auto simp: powerless_def stored_username_def split: option.split)

lemma keeps_not_admin:
  assumes "c \<in> S" "\<not> owner_name U un" "keeps (powerless U S A st0) (f False)"
  shows "keeps (powerless U S A st0) (bnd (is_admin U c un) f)"
  unfolding keeps_def
proof (intro allI impI)
  fix s assume p: "powerless U S A st0 s"
  show "powerless U S A st0 (snd (bnd (is_admin U c un) f s))"
    using keepsD [OF assms(3) p] by (simp add: bnd_def stranger_not_admin [OF p assms(1,2)])
qed

lemma keeps_keyboard:
  assumes "c \<in> S" "\<And>kb. keeps (powerless U S A st0) (f kb)"
  shows "keeps (powerless U S A st0) (bnd (get_main_keyboard U c) f)"
  unfolding keeps_def
proof (intro allI impI)
  fix s assume p: "powerless U S A st0 s"
  obtain kb where k: "get_main_keyboard U c s = (Inr kb, s)"
    using stranger_not_admin [OF p assms(1) stranger_stored [OF p assms(1)]]
    by (simp add: get_main_keyboard_def bnd_def db_query_def ret_def)
  show "powerless U S A st0 (snd (bnd (get_main_keyboard U c) f s))"
    using keepsD [OF assms(2) p] by (simp add: bnd_def k)
qed

lemma register_frame:
  "b_promos (snd (get_or_create_user E i n f st)) = b_promos st"
  "b_payments (snd (get_or_create_user E i n f st)) = b_payments st"
  "b_server (snd (get_or_create_user E i n f st)) = b_server st"
  "b_manual (snd (get_or_create_user E i n f st)) = b_manual st"
  "b_orders (snd (get_or_create_user E i n f st)) = b_orders st"
  "lg_active (ledger_of (snd (get_or_create_user E i n f st))) = lg_active (ledger_of st)"
  using register_ledger [of undefined i n f E E st]
  by (simp_all add: get_or_create_user_def Let_def update_user_def split: option.split)

lemma register_username:
  "get_user (snd (get_or_create_user E i n f st)) c = Some u \<Longrightarrow>
   (\<exists>v. get_user st c = Some v \<and> ur_username v = ur_username u) \<or> c = i \<and> ur_username u = n"
proof (cases "get_user st i")
  case None
  then show "get_user (snd (get_or_create_user E i n f st)) c = Some u \<Longrightarrow> ?thesis"
    by (auto simp: get_or_create_user_def Let_def get_user_def tables split: if_splits option.splits)
next
  case (Some v)
  then show "get_user (snd (get_or_create_user E i n f st)) c = Some u \<Longrightarrow> ?thesis"
    by (auto simp: get_or_create_user_def tables split: if_splits)
qed

lemma keeps_register:
  assumes "c \<in> S" "\<not> owner_name U un"
  shows "keeps (powerless U S A st0) (db_op (get_or_create_user E c un f))"
proof (rule keeps_op)
  fix s assume p: "powerless U S A st0 s"
  have "\<not> owner_name U (ur_username u)" if "c' \<in> S" "get_user (snd (get_or_create_user E c un f (bt_db s))) c' = Some u" for c' u
    using register_username [OF that(2)] that(1) p assms(2) by (auto simp: powerless_def)
  with p show "powerless U S A st0 (s\<lparr>bt_db := snd (get_or_create_user E c un f (bt_db s))\<rparr>)"
    by (simp add: powerless_def register_frame)
qed

lemma keeps_order: "keeps (powerless U S A st0) (db_op (create_order E c un f p a cu))"
proof (rule keeps_op)
  fix s assume p: "powerless U S A st0 s"
  have u: "get_user (snd (create_order E c un f p a cu st)) = get_user st" for st
    by (simp add: create_order_def Let_def fun_eq_iff)
  have f: "b_promos (snd (create_order E c un f p a cu st)) = b_promos st"
    "b_payments (snd (create_order E c un f p a cu st)) = b_payments st"
    "b_server (snd (create_order E c un f p a cu st)) = b_server st"
    "b_manual (snd (create_order E c un f p a cu st)) = b_manual st"
    "filter (\<lambda>d. od_status d \<noteq> OrderPending) (b_orders (snd (create_order E c un f p a cu st))) =
     filter (\<lambda>d. od_status d \<noteq> OrderPending) (b_orders st)" for st
    by (simp_all add: create_order_def Let_def)
  have "lg_active (ledger_of (snd (create_order E c un f p a cu st))) = lg_active (ledger_of st)" for st
    using order_ledger [of undefined c un f p a cu E E st] by simp
  with p show "powerless U S A st0 (s\<lparr>bt_db := snd (create_order E c un f p a cu (bt_db s))\<rparr>)"
    by (simp add: powerless_def u f)
qed

lemma keeps_no_promo: "keeps (powerless U S A st0) (db_total (apply_promocode E U' c code))"
  by (rule keeps_total) (simp add: powerless_def apply_promocode_def Let_def)

lemma keeps_panel: "c \<in> S \<Longrightarrow> keeps (powerless U S A st0) (handle_admin_panel B U c m)"
  unfolding keeps_def
proof (intro allI impI)
  fix s assume c: "c \<in> S" and p: "powerless U S A st0 s"
  have "handle_admin_panel B U c m s = send_message B c TAccessDenied None s"
    using stranger_not_admin [OF p c stranger_stored [OF p c]]
    by (simp add: handle_admin_panel_def bnd_def db_query_def)
  then show "powerless U S A st0 (snd (handle_admin_panel B U c m s))"
    using keepsD [OF stranger.keeps_send p] by simp
qed

lemma keeps_stranger_update:
  assumes "from_stranger U S up"
  shows "keeps (powerless U S A st0) (process_update B U up)"
proof -
  let ?P = "powerless U S A st0"
  note plain = kept stranger.keeps_plain
  have start: "keeps ?P (handle_start B U c un f)" if "c \<in> S" "\<not> owner_name U un" for c un f
    unfolding handle_start_def query_status_def need_key_def
    by (intro keeps_sq keeps_register keeps_not_admin keeps_keyboard that keeps_bnd [of _ "db_query _"] keeps_query
        stranger.keeps_plain; simp add: keeps_ret keeps_raise)
  have submit: "keeps ?P (submit_order B c m un f p)" for c m un f p
    unfolding submit_order_def Let_def
  proof (intro plain keeps_order)
    fix oid
    show "keeps ?P (\<lambda>s. notify_admins B (t oid) (k oid) (bt_admins s) s)" for t k
      using stranger.keeps_notify by (simp add: keeps_def)
  qed
  have msg: "keeps ?P (message_command B U c un f t)" if "c \<in> S" "\<not> owner_name U un" for c un f t
    unfolding message_command_def promo_command_def
    by (intro keeps_if start keeps_not_admin keeps_keyboard keeps_panel that stranger.keeps_plain keeps_bnd
        keeps_no_promo keeps_prod; simp add: stranger.keeps_plain)
  have cb: "keeps ?P (callback_command B U c m un f d)" if "c \<in> S" "\<not> owner_name U un" for c m un f d
    unfolding callback_command_def admin_approve_def admin_reject_def downloads_defs
    by (intro keeps_if keeps_option start keeps_not_admin keeps_panel submit that stranger.keeps_plain keeps_ret;
        simp add: stranger.keeps_plain)
  show ?thesis
    using assms unfolding process_update_def
    by (cases up) (auto intro!: keeps_sq keeps_ret stranger.keeps_plain msg cb)
qed

lemma powerless_run:
  "powerless U S A st0 s \<Longrightarrow> \<forall>x \<in> set ups. from_stranger U S (snd (snd x)) \<Longrightarrow> powerless U S A st0 (run_polling U ups s)"
proof (induction U ups s rule: run_polling.induct)
  case (2 U B n up ups s)
  have "powerless U S A st0 (s\<lparr>bt_offset := n + 1\<rparr>)" using 2(2) by (simp add: powerless_def)
  from keepsD [OF keeps_stranger_update this] 2(3)
  have "powerless U S A st0 (snd (process_update B U up (s\<lparr>bt_offset := n + 1\<rparr>)))" by simp
  with 2(1,3) show ?case by simp
qed simp

text \<open>C16: Whatever messages and button presses strangers send, and in whatever order, the bot issues nothing
  for them: no chat becomes an admin, no payment, server row or manual key appears, no user
  becomes active and no order leaves the pending state. Strangers are chats that are not admins
  and whose sender does not carry the owner's name; promo codes are never created by the bot.\<close>
theorem strangers_get_nothing:
  assumes "\<And>B n up. (B, n, up) \<in> set ups \<Longrightarrow> from_stranger U S up" "S \<inter> set (bt_admins s) = {}"
    and "\<And>c u. c \<in> S \<Longrightarrow> get_user (bt_db s) c = Some u \<Longrightarrow> \<not> owner_name U (ur_username u)"
    and "b_promos (bt_db s) = []"
  shows "let s' = run_polling U ups s in
    bt_admins s' = bt_admins s \<and> b_payments (bt_db s') = b_payments (bt_db s) \<and> b_server (bt_db s') = b_server (bt_db s) \<and>
    b_manual (bt_db s') = b_manual (bt_db s) \<and> lg_active (ledger_of (bt_db s')) = lg_active (ledger_of (bt_db s)) \<and>
    filter (\<lambda>d. od_status d \<noteq> OrderPending) (b_orders (bt_db s')) = filter (\<lambda>d. od_status d \<noteq> OrderPending) (b_orders (bt_db s))"
proof -
  have "powerless U S (bt_admins s) (bt_db s) s" using assms(2-4) by (simp add: powerless_def)
  moreover have "\<forall>x \<in> set ups. from_stranger U S (snd (snd x))" using assms(1) by auto
  ultimately have "powerless U S (bt_admins s) (bt_db s) (run_polling U ups s)" by (rule powerless_run)
  then show ?thesis by (simp add: powerless_def Let_def)
qed

definition sample_unicode :: unicode where
  "sample_unicode = \<lparr>uc_upper = (\<lambda>c. [c]), uc_lower = (\<lambda>c. [c]), uc_alnum = (\<lambda>_. False)\<rparr>"

definition sample_bot_env :: "int \<Rightarrow> bot_env" where
  "sample_bot_env now = \<lparr>be_api = (\<lambda>_. True), be_db = (\<lambda>_. ok_env now), be_apk = False, be_qr_lib = True, be_qr = Inr True\<rparr>"

theorem strangers_get_nothing_witness:
  "b_server (bt_db (run_polling sample_unicode
     [(sample_bot_env 0, 1, Msg 5 None [65] (ustr ''/create_key 30'')),
      (sample_bot_env 0, 2, Callback [] 5 9 (Some [66]) [65] (ustr ''submit_order:1_month'')),
      (sample_bot_env 0, 3, Callback [] 5 9 (Some [66]) [65] (ustr ''admin_approve:ORD-10000''))] (fst bot_main))) = []"
proof -
  let ?ups = "[(sample_bot_env 0, 1, Msg 5 None [65] (ustr ''/create_key 30'')),
      (sample_bot_env 0, 2, Callback [] 5 9 (Some [66]) [65] (ustr ''submit_order:1_month'')),
      (sample_bot_env 0, 3, Callback [] 5 9 (Some [66]) [65] (ustr ''admin_approve:ORD-10000''))]"
  have n: "\<not> owner_name sample_unicode (Some [66])" by (simp add: owner_name_def py_lower_def ustr_def)
  have "b_server (bt_db (run_polling sample_unicode ?ups (fst bot_main))) = b_server (bt_db (fst bot_main))"
    by (rule strangers_get_nothing [where S = "{5}", unfolded Let_def, THEN conjunct2, THEN conjunct2, THEN conjunct1])
      (use n in \<open>auto simp: bot_main_def admin_ids_def init_db_def get_user_def\<close>)
  then show ?thesis by (simp add: bot_main_def init_db_def)
qed

section \<open>What the buttons do\<close>

lemmas act_defs = bnd_def sq_def ret_def raise_def call_def db_query_def db_op_def db_total_def

lemma commands_differ:
  "py_lower U (ustr ''/status'') \<noteq> ru_key" "starts_with (ustr ''/status'') (ustr ''/start'') = False"
  "starts_with (ustr ''/status'') (ustr ''/status'')" "strip_by is_space (ustr ''/status'') = ustr ''/status''"
  by (simp_all add: py_lower_def ustr_def ru_key_def starts_with_def strip_by_def is_space_def)

text \<open>The status of an account is never shown: the handler asks the status dictionary for a key
  \<open>key_id\<close> that no shape of it has, so that both the command and the button end in a KeyError;
  no message is sent.\<close>
theorem status_never_answers:
  "fst (process_update B U (Msg c un f (ustr ''/status'')) s) = Inl KeyError \<and>
   bt_calls (snd (process_update B U (Msg c un f (ustr ''/status'')) s)) = bt_calls s \<and>
   fst (process_update B U (Callback cb c mid un f (ustr ''status'')) s) = Inl KeyError \<and>
   bt_calls (snd (process_update B U (Callback cb c mid un f (ustr ''status'')) s)) = bt_calls s @ [AnswerCallback cb]"
proof -
  have "ustr ''key_id'' \<notin> set (status_keys x)" for x
    by (cases x) (simp_all add: ustr_def)
  then have h: "handle_status B c m s = (Inl KeyError, s)" for m s
    by (simp add: handle_status_def query_status_def need_key_def act_defs)
  have "message_command B U c un f (ustr ''/status'') = handle_status B c None"
    by (simp add: message_command_def commands_differ)
  moreover have "callback_command B U c mid un f (ustr ''status'') = handle_status B c (Some mid)"
    by (simp add: callback_command_def ustr_def)
  ultimately show ?thesis
    by (simp add: process_update_def commands_differ h act_defs answer_callback_query_def learn_admin_def)
qed

text \<open>Three buttons that the bot itself puts into its keyboards are dead: pressing the manual-key
  button, the broadcast button of the admin panel or the button that sends the APK only
  acknowledges the press; nothing else is sent and no table changes.\<close>
theorem dead_buttons:
  assumes "data \<in> {ustr ''admin_manual_key_menu'', ustr ''admin_broadcast_prompt'', ustr ''send_apk_file''}"
  shows "bt_calls (snd (process_update B U (Callback cb c mid un f data) s)) = bt_calls s @ [AnswerCallback cb] \<and>
    bt_db (snd (process_update B U (Callback cb c mid un f data) s)) = bt_db s"
proof -
  have "callback_command B U c mid un f data = ret ()"
    using assms by (elim insertE emptyE; simp add: callback_command_def arg_of_def starts_with_def ustr_def)
  then show ?thesis
    by (simp add: process_update_def act_defs answer_callback_query_def learn_admin_def)
qed

theorem dead_buttons_witness:
  "bt_calls (snd (process_update (sample_bot_env 0) sample_unicode (Callback [1] 8537965095 9 None [65] (ustr ''admin_broadcast_prompt''))
     (fst bot_main))) = [AnswerCallback [1]]"
proof -
  have "bt_calls (snd (process_update (sample_bot_env 0) sample_unicode (Callback [1] 8537965095 9 None [65] (ustr ''admin_broadcast_prompt''))
     (fst bot_main))) = bt_calls (fst bot_main) @ [AnswerCallback [1]]"
    by (rule dead_buttons [THEN conjunct1]) simp
  then show ?thesis by (simp add: bot_main_def)
qed

section \<open>A chat with the owner in it\<close>

interpretation quiet: bot_invariant "\<lambda>s. bt_db s = d" for d
  by unfold_locales simp

lemma create_key_3650:
  "message_command B U c un f (ustr ''/create_key 3650'') =
   bnd (is_admin U c un) (\<lambda>adm. if adm then handle_create_manual_key B U c 3650 940 [] else send_message B c TAccessDenied None)"
proof -
  have w: "split_ws (ustr ''/create_key 3650'') = [ustr ''/create_key'', ustr ''3650'']"
    by (simp add: split_ws_def ustr_def is_space_def)
  have d: "py_isdigit (ustr ''3650'')" "int (digits_val (ustr ''3650'')) = 3650"
    by (simp_all add: py_isdigit_def ustr_def is_digit_def digits_val_def)
  have "create_key_command B U c (ustr ''/create_key 3650'') = handle_create_manual_key B U c 3650 940 []"
    by (simp add: create_key_command_def w d Let_def join_space_def)
  then show ?thesis
    by (simp add: message_command_def starts_with_def ustr_def py_lower_def ru_status_def ru_buy_def ru_key_def cong: if_cong)
qed

text \<open>Rights are given to chats, not to people: after any message of the owner in a group, whatever it
  says, everybody in that group can make the bot issue a key for ten years.\<close>
theorem group_becomes_admin:
  assumes "owner_name U un" "s1 = snd (process_update B U (Msg g un f t) s)"
    and "add_days (e_now (be_db B2 0)) 3650 = Inr e" "e_commit (be_db B2 0) 0"
    and "compute_key_id (generate_token (be_db B2 0)) \<notin> set (map mk_key_id (b_manual (bt_db s1)))"
  shows "\<exists>k. b_manual (bt_db (snd (process_update B2 U (Msg g un2 f2 (ustr ''/create_key 3650'')) s1))) =
      b_manual (bt_db s1) @ [k] \<and> mk_by k = g \<and> mk_days k = 3650 \<and> mk_expires k = stamp_of e"
proof -
  have "g \<in> set (bt_admins (snd (learn_admin g s)))" by (simp add: learn_admin_def)
  moreover have "keeps (\<lambda>s. g \<in> set (bt_admins s)) (process_update B U up)" for up by (rule process_keeps_admin)
  moreover have "process_update B U (Msg g un f t) s = process_update B U (Msg g un f t) (snd (learn_admin g s))"
    using assms(1) by (simp add: process_update_def act_defs learn_admin_def)
  ultimately have adm: "g \<in> set (bt_admins s1)" using assms(2) by (metis keepsD)
  let ?s2 = "if owner_name U un2 then snd (learn_admin g s1) else s1"
  have s2: "?s2 = s1" using adm by (simp add: learn_admin_def)
  have strip: "strip_by is_space (ustr ''/create_key 3650'') = ustr ''/create_key 3650''"
    by (simp add: ustr_def strip_by_def is_space_def)
  have run: "process_update B2 U (Msg g un2 f2 (ustr ''/create_key 3650'')) s1 = handle_create_manual_key B2 U g 3650 940 [] s1"
    using adm by (simp add: process_update_def strip create_key_3650 act_defs learn_admin_def is_admin_def)
  obtain k d where c: "create_manual_key (be_db B2 0) U 3650 940 [] g (bt_db s1) = (Inr k, d)"
    and k: "mk_by k = g" "mk_days k = 3650" "mk_expires k = stamp_of e" "b_manual d = b_manual (bt_db s1) @ [k]"
    using assms(3-5) by (simp add: create_manual_key_def Let_def sync_add_user_to_server_def del: set_map)
  have "bt_db (snd (send_key B2 g uri t' kb (s1\<lparr>bt_db := d\<rparr>))) = d" for uri t' kb
    using keepsD [OF quiet.keeps_send_key, of "s1\<lparr>bt_db := d\<rparr>" d] by simp
  then have "bt_db (snd (handle_create_manual_key B2 U g 3650 940 [] s1)) = d"
    by (simp add: handle_create_manual_key_def act_defs c Let_def)
  with k show ?thesis unfolding run by blast
qed

theorem group_becomes_admin_witness:
  "\<exists>k. b_manual (bt_db (snd (process_update (sample_bot_env 0) sample_unicode (Msg (-100) (Some [66]) [66] (ustr ''/create_key 3650''))
     (snd (process_update (sample_bot_env 0) sample_unicode (Msg (-100) (Some (ustr ''@Balbes_LS'')) [65] [72, 105]) (fst bot_main)))))) = [k]
     \<and> mk_by k = -100 \<and> mk_days k = 3650 \<and> mk_expires k = 315360000"
proof -
  let ?s1 = "snd (process_update (sample_bot_env 0) sample_unicode (Msg (-100) (Some (ustr ''@Balbes_LS'')) [65] [72, 105]) (fst bot_main))"
  have o: "owner_name sample_unicode (Some (ustr ''@Balbes_LS''))" by (simp add: owner_name_def py_lower_def ustr_def)
  have a: "add_days (e_now (be_db (sample_bot_env 0) 0)) 3650 = Inr 315360000000000"
    by (simp add: sample_bot_env_def ok_env_def add_days_def us_per_s_def us_per_day_def)
  have strip: "strip_by is_space [72, 105] = [72 :: nat, 105]" by (simp add: strip_by_def is_space_def)
  have "b_manual (bt_db ?s1) = []"
    by (simp add: process_update_def strip message_command_def starts_with_def ustr_def py_lower_def ru_status_def ru_buy_def
        ru_key_def act_defs get_main_keyboard_def learn_admin_def is_admin_def send_message_def bot_main_def init_db_def
        owner_name_def admin_ids_def)
  then show ?thesis
    using group_becomes_admin [OF o refl a, where B = "sample_bot_env 0" and g = "-100" and f = "[65]" and t = "[72, 105]"
        and s = "fst bot_main" and ?un2.0 = "Some [66]" and ?f2.0 = "[66]"]
    by (simp add: sample_bot_env_def ok_env_def stamp_of_def us_per_s_def)
qed

section \<open>The key that is handed out\<close>

lemma quote_plus_safe: "\<forall>c \<in> set s. always_safe c \<Longrightarrow> quote_plus s = Some s"
proof -
  assume a: "\<forall>c \<in> set s. always_safe c"
  then have "ascii s" using always_safe_chars by (auto simp: ascii_def)
  then have "utf8_encode s = Some (map of_nat s)" by (rule utf8_encode_ascii)
  moreover have "concat (map quote_byte (map of_nat s)) = s"
    using a
  proof (induction s)
    case (Cons c s)
    then have "unat (of_nat c :: byte) = c" using always_safe_chars [of c] by (intro unat_byte_of_nat) auto
    with Cons show ?case by (simp add: quote_byte_def Let_def)
  qed simp
  ultimately show ?thesis by (simp add: quote_plus_def)
qed

lemma hex_of_safe: "c \<in> set (hex_of bs) \<Longrightarrow> always_safe c"
proof -
  assume "c \<in> set (hex_of bs)"
  then obtain b where "b \<in> set bs" "c = hex_digit (unat b div 16) \<or> c = hex_digit (unat b mod 16)"
    by (auto simp: hex_of_def)
  moreover have "unat b div 16 < 16" for b :: byte using unat_byte_less [of b] by simp
  moreover have "always_safe (hex_digit v)" if "v < 16" for v
    using that by (auto simp: always_safe_def hex_digit_def)
  ultimately show ?thesis by auto
qed

lemma take_hex_of: "take (2 * n) (hex_of bs) = hex_of (take n bs)"
proof (induction bs arbitrary: n)
  case (Cons b bs)
  have c: "hex_of (b # bs) = hex_digit (unat b div 16) # hex_digit (unat b mod 16) # hex_of bs" for bs
    by (simp add: hex_of_def)
  show ?case
  proof (cases n)
    case (Suc m)
    with Cons.IH [of m] show ?thesis by (simp add: c)
  qed (simp add: hex_of_def)
qed (simp add: hex_of_def)

lemma hex_eq_Nil: "hex_of bs = [] \<longleftrightarrow> bs = []"
  by (simp add: hex_of_def)

definition imported_key :: "ustr \<Rightarrow> ustr \<Rightarrow> profile" where
  "imported_key token key_id =
     (new_profile (ustr ''AEGS ('' @ server_ip @ [41]) server_ip)
       \<lparr>pf_port := server_port, pf_token := token, pf_key_id := key_id, pf_mode := ustr ''custom''\<rparr>"

lemma key_uri_imports:
  assumes "\<forall>c \<in> set tok. always_safe c" "tok \<noteq> []" "\<forall>c \<in> set kid. always_safe c" "kid \<noteq> []"
    and "netloc_ok (server_ip @ [58] @ str_int server_port)"
  shows "from_uri netloc_ok decode_json (key_uri tok kid) = Inr (imported_key tok kid)"
proof -
  let ?kvs = "[(ustr ''token'', tok), (ustr ''proto'', ustr ''titan_quic''), (ustr ''key_id'', kid)]"
  have lits: "\<forall>c \<in> set (ustr ''token''). always_safe c" "\<forall>c \<in> set (ustr ''proto''). always_safe c"
    "\<forall>c \<in> set (ustr ''titan_quic''). always_safe c" "\<forall>c \<in> set (ustr ''key_id''). always_safe c"
    by (simp_all add: ustr_def always_safe_def)
  have q: "urlencode ?kvs = Some (ustr ''token='' @ tok @ ustr ''&proto=titan_quic&key_id='' @ kid)"
    by (simp add: urlencode_def Let_def quote_plus_safe lits assms) (simp add: ustr_def)
  have ne: "\<exists>kv \<in> set ?kvs. snd kv \<noteq> []" using assms(2) by simp
  have host: "plain_host server_ip" "\<not> starts_with server_ip (ustr ''http'')"
    by (simp_all add: plain_host_def server_ip_def ustr_def starts_with_def)
  have uri: "key_uri tok kid = ustr ''aegs://'' @ server_ip @ [58] @ str_int server_port @ [63] @
      (ustr ''token='' @ tok @ ustr ''&proto=titan_quic&key_id='' @ kid)"
    by (simp add: key_uri_def ustr_def)
  have m: "\<not> has_sub (ustr ''185.196.'') server_ip" by (simp add: server_ip_def ustr_def)
  show ?thesis
    unfolding uri from_uri_link [where netloc_ok = netloc_ok, OF q ne host assms(5)]
    using assms(2,4) m by (simp add: Let_def imported_key_def qs_first_def ustr_def)
qed

text \<open>C20: Composition of bot, link and tunnel: the link the bot hands out is imported by the desktop client
  as a profile for the bot's server with exactly the user's token and key id, and that key id is
  the hexadecimal form of the identifier that the tunnel derives from the token.\<close>
theorem bot_key_imports:
  assumes "length (e_token E) = 32" "netloc_ok (server_ip @ [58] @ str_int server_port)"
  shows "from_uri netloc_ok decode_json (key_uri (generate_token E) (compute_key_id (generate_token E))) =
      Inr (imported_key (generate_token E) (compute_key_id (generate_token E))) \<and>
    hex_of (gw_raw_kid (map of_nat (generate_token E))) = compute_key_id (generate_token E)"
proof
  have k: "compute_key_id tok = hex_of (take 8 (sha256 (map of_nat tok)))" for tok
    using take_hex_of [of 8] by (simp add: compute_key_id_def)
  have "length (sha256 m) = 32" for m by (simp add: pybytes)
  then have ne: "take 8 (sha256 m) \<noteq> []" for m by (metis list.size(3) take_eq_Nil zero_neq_numeral)
  have "e_token E \<noteq> []" using assms(1) by auto
  then show "from_uri netloc_ok decode_json (key_uri (generate_token E) (compute_key_id (generate_token E))) =
      Inr (imported_key (generate_token E) (compute_key_id (generate_token E)))"
    using hex_of_safe ne by (intro key_uri_imports assms(2)) (auto simp: generate_token_def k hex_eq_Nil)
  show "hex_of (gw_raw_kid (map of_nat (generate_token E))) = compute_key_id (generate_token E)"
    by (simp add: k gw_raw_kid_def)
qed

theorem bot_key_imports_witness:
  "\<exists>p. from_uri (\<lambda>_. True) (\<lambda>_. None) (key_uri (generate_token (ok_env 0)) (compute_key_id (generate_token (ok_env 0)))) = Inr p \<and>
     pf_token p = generate_token (ok_env 0)"
proof -
  have "length (e_token (ok_env 0)) = 32" by (simp add: ok_env_def)
  from bot_key_imports [OF this, of "\<lambda>_. True" "\<lambda>_. None"] show ?thesis by (auto simp: imported_key_def)
qed

section \<open>An approval, end to end\<close>

lemma sync_add_frame [simp]:
  "get_user (fst (sync_add_user_to_server E n k t st)) i = get_user st i"
  "b_orders (fst (sync_add_user_to_server E n k t st)) = b_orders st"
  by (simp_all add: sync_add_user_to_server_def get_user_def)

lemma extend_ok:
  assumes "get_user st i = Some u" "add_days (renew_base (e_now E) u) n = Inr t" "e_commit E 0" "e_sync E"
    and "pid \<notin> set (map pay_id (b_payments st))"
  obtains st2 where "extend_subscription E i n pl pid a c pr st = (Inr (True, Extended n (stamp_of t)), st2)"
    "get_user st2 i = Some (u\<lparr>ur_expires := Some (stamp_of t), ur_active := True, ur_warned_24h := False, ur_warned_72h := False\<rparr>)"
    "\<exists>r \<in> set (b_server st2). sr_key_id r = ur_key_id u \<and> sr_token r = ur_token u"
proof
  let ?st2 = "snd (extend_subscription E i n pl pid a c pr st)"
  show "extend_subscription E i n pl pid a c pr st = (Inr (True, Extended n (stamp_of t)), ?st2)"
    using assms by (simp add: extend_subscription_def Let_def case_prod_beta del: set_map)
  show "get_user ?st2 i = Some (u\<lparr>ur_expires := Some (stamp_of t), ur_active := True, ur_warned_24h := False, ur_warned_72h := False\<rparr>)"
    using assms by (simp add: extend_subscription_def Let_def case_prod_beta tables del: set_map)
  show "\<exists>r \<in> set (b_server ?st2). sr_key_id r = ur_key_id u \<and> sr_token r = ur_token u"
    using assms sync_add_present [OF assms(4)] by (simp add: extend_subscription_def Let_def case_prod_beta del: set_map)
qed

lemma approve_command:
  "callback_command B U c m un f (ustr ''admin_approve:'' @ oid) = admin_approve B U c m un oid"
  by (simp add: callback_command_def arg_of_def starts_with_def ustr_def)

lemma get_user_order_status [simp]: "get_user (set_order_status s E adm oid st) i = get_user st i"
  by (simp add: set_order_status_def)

lemma b_server_order_status [simp]: "b_server (set_order_status s E adm oid st) = b_server st"
  by (simp add: set_order_status_def)


definition sample_order :: order_row where
  "sample_order = \<lparr>od_id = ustr ''ORD-10000'', od_user = 7, od_username = None, od_first = [65], od_plan = ustr ''1_month'',
     od_amount = 100, od_currency = ustr ''RUB'', od_status = OrderPending, od_at = None, od_by = None\<rparr>"


end
