(* ===== verification/QuickClient.thy ===== *)
theory QuickClient
  imports ReplaySpec Gateway Config
begin

text \<open>
  scripts/quick_client.py: the WireGuard proxy. It shares the packet header with the tunnel but
  carries a length in its frames, hops ports by a keyed hash of the time, disguises its start
  with decoys, and keeps a 64-bit replay window, which meets the contract \<open>replay_window\<close>.
  Commands for the firewall are argument vectors; what they do is left to the system. The wall
  clock is \<open>now_us\<close> of the environment, the monotonic clock is a number of microseconds.
\<close>

section \<open>Keys and header\<close>

definition q_compute_key_id :: "bytes \<Rightarrow> bytes \<times> ustr" where
  "q_compute_key_id tok = (let raw_kid = take 8 (sha256 tok) in (raw_kid, hex_of raw_kid))"

definition q_derive_keys :: "crypto \<Rightarrow> bytes \<Rightarrow> ustr \<Rightarrow> bytes \<times> bytes \<times> bytes" where
  "q_derive_keys C tok kid_hex =
     (let master_key = pbkdf2_hmac_sha256 tok (map of_nat kid_hex) 200000;
          salt = Some (bstr ''aegis-v2-salt'')
      in (master_key, hkdf C salt master_key (bstr ''aegis-v2-header-mask'') 32,
          hkdf C salt master_key (bstr ''aegis-v2-payload-key'') 32))"

definition q_mask_unmask_header :: "crypto \<Rightarrow> bytes \<Rightarrow> bytes \<Rightarrow> bytes \<Rightarrow> bytes" where
  "q_mask_unmask_header C data mask_key hdr_iv = chacha20 C mask_key ([0, 0, 0, 0] @ hdr_iv) data"

definition q_outer_header :: "crypto \<Rightarrow> bytes \<Rightarrow> bytes \<Rightarrow> bytes \<Rightarrow> byte \<Rightarrow> bytes \<Rightarrow> bytes" where
  "q_outer_header C mask_key kid iv flag junk =
     iv @ q_mask_unmask_header C (plain_header kid (length junk) flag) mask_key iv @ junk"

section \<open>Shaping and decoys\<close>

text \<open>The draws are at positions 0 and 1; \<open>max(0, target - needed)\<close> is truncated subtraction.\<close>

definition semantic_pad :: "entropy \<Rightarrow> nat \<Rightarrow> nat" where
  "semantic_pad e n =
     (if randbelow e 0 100 < 5 then (512 + randbelow e 1 257) - (2 + n)
      else if n \<le> 200 then (240 + randbelow e 1 33) - (2 + n)
      else if 2 + n \<ge> 1350 then randbelow e 1 33
      else (1318 + randbelow e 1 65) - (2 + n))"

text \<open>\<open>zlib.crc32\<close>\<close>

fun crc_bits :: "nat \<Rightarrow> nat \<Rightarrow> nat" where
  "crc_bits 0 c = c"
| "crc_bits (Suc n) c = crc_bits n (if odd c then (c div 2) XOR 0xEDB88320 else c div 2)"

definition crc32 :: "bytes \<Rightarrow> nat" where
  "crc32 bs = foldl (\<lambda>c b. crc_bits 8 (c XOR unat b)) 0xFFFFFFFF bs XOR 0xFFFFFFFF"

definition stun_decoy_req :: "entropy \<Rightarrow> bytes" where
  "stun_decoy_req e =
     (let pkt = [0x00, 0x01, 0x00, 0x14, 0x21, 0x12, 0xA4, 0x42] @ token_bytes e 10 12 @
                [0x00, 0x06, 0x00, 0x08] @ token_bytes e 22 8
      in pkt @ [0x80, 0x28, 0x00, 0x04] @ be_bytes 4 (crc32 pkt XOR 0x5354554E))"

definition quic_decoy :: "entropy \<Rightarrow> bytes" where
  "quic_decoy e =
     [0xC3, 0, 0, 0, 1, 8] @ token_bytes e 10 8 @ [8] @ token_bytes e 18 8 @ [0, 0x44, 0x96] @
     token_bytes e 26 4 @ token_bytes e 30 1170"

text \<open>One to three decoys; an error of the socket is swallowed, an answer is read and dropped.\<close>

definition send_illusion_sequence :: "entropy \<Rightarrow> (nat \<Rightarrow> entropy) \<Rightarrow> (nat \<Rightarrow> bool) \<Rightarrow> addr \<Rightarrow> (bytes \<times> addr) list" where
  "send_illusion_sequence e es ok a =
     map (\<lambda>i. (if randbelow (es i) 0 2 = 0 then stun_decoy_req (es i) else quic_decoy (es i), a))
       (filter ok [0..<1 + randbelow e 0 3])"

definition compute_hopper_port :: "bytes \<Rightarrow> nat \<Rightarrow> int \<Rightarrow> int \<Rightarrow> nat \<Rightarrow> nat" where
  "compute_hopper_port key base_port count interval t_us =
     (let epoch = (t_us div 1000000) div (if interval > 0 then nat interval else 30);
          h = hmac_sha256 key (be_bytes 8 epoch)
      in base_port + le_val (take 4 h) mod (if count > 0 then nat count else 1))"

section \<open>Replay window\<close>

record q_window =
  qw_last :: nat
  qw_bitmap :: nat

definition check_replay :: "q_window \<Rightarrow> nat \<Rightarrow> bool \<times> q_window" where
  "check_replay w seq =
     (if seq = 0 then (True, w)
      else if seq > qw_last w then
        (let diff = seq - qw_last w in
         (False, \<lparr>qw_last = seq,
                  qw_bitmap = (if diff < 64 then take_bit 64 (push_bit diff (qw_bitmap w) OR 1) else 1)\<rparr>))
      else
        (let diff = qw_last w - seq in
         if diff \<ge> 64 then (True, w)
         else if bit (qw_bitmap w) diff then (True, w)
         else (False, w\<lparr>qw_bitmap := qw_bitmap w OR push_bit diff 1\<rparr>)))"

definition qw_blocked :: "q_window \<Rightarrow> nat \<Rightarrow> bool" where
  "qw_blocked w q \<longleftrightarrow> q = 0 \<or> q \<le> qw_last w \<and> (qw_last w - q \<ge> 64 \<or> bit (qw_bitmap w) (qw_last w - q))"

definition qw_inv :: "q_window \<Rightarrow> bool" where
  "qw_inv w \<longleftrightarrow> (\<forall>i \<ge> 64. \<not> bit (qw_bitmap w) i)"

lemma bit_one_nat: "bit (Suc 0) i \<longleftrightarrow> i = 0"
  using bit_1_iff [where 'a = nat, of i] by (simp only: One_nat_def)

lemmas window_bits = bit_one_nat bit_1_iff bit_exp_iff bit_take_bit_iff bit_or_iff bit_push_bit_iff

lemma check_replay_inv: "qw_inv w \<Longrightarrow> qw_inv (snd (check_replay w q))"
  by (auto simp: qw_inv_def check_replay_def Let_def window_bits)

lemma check_replay_fst: "fst (check_replay w q) \<longleftrightarrow> qw_blocked w q"
  by (auto simp: check_replay_def qw_blocked_def Let_def)

lemma check_replay_after:
  assumes "qw_inv w" "\<not> qw_blocked w q"
  shows "qw_last (snd (check_replay w q)) = max (qw_last w) q"
    and "0 < x \<Longrightarrow> qw_blocked (snd (check_replay w q)) x \<longleftrightarrow>
      qw_blocked w x \<or> x = q \<or> x + 64 \<le> max (qw_last w) q"
proof -
  have q: "q \<noteq> 0" using assms(2) by (simp add: qw_blocked_def)
  show "qw_last (snd (check_replay w q)) = max (qw_last w) q"
    using assms(2) by (auto simp: check_replay_def qw_blocked_def Let_def)
  assume x: "0 < x"
  consider (far) "qw_last w + 64 \<le> q" | (near) "qw_last w < q" "q < qw_last w + 64" | (old) "q \<le> qw_last w" by linarith
  then show "qw_blocked (snd (check_replay w q)) x \<longleftrightarrow> qw_blocked w x \<or> x = q \<or> x + 64 \<le> max (qw_last w) q"
  proof cases
    case far
    then show ?thesis using q x
      by (auto simp: check_replay_def qw_blocked_def Let_def window_bits)
  next
    case near
    have s: "bit (qw_bitmap (snd (check_replay w q))) i \<longleftrightarrow>
        i < 64 \<and> (i = 0 \<or> q - qw_last w \<le> i \<and> bit (qw_bitmap w) (i - (q - qw_last w)))" for i
      using near q by (auto simp: check_replay_def Let_def window_bits)
    have l: "qw_last (snd (check_replay w q)) = q" using near q by (simp add: check_replay_def Let_def)
    show ?thesis
    proof (cases "x \<le> qw_last w")
      case True
      then have e: "q - x - (q - qw_last w) = qw_last w - x" "q - qw_last w \<le> q - x" "q - x \<noteq> 0" "x \<noteq> q" "max (qw_last w) q = q"
        using near by auto
      have "qw_blocked (snd (check_replay w q)) x \<longleftrightarrow> q - x \<ge> 64 \<or> bit (qw_bitmap w) (qw_last w - x)"
        using True x near e by (auto simp: qw_blocked_def l s)
      also have "\<dots> \<longleftrightarrow> qw_blocked w x \<or> x + 64 \<le> q"
        using True x near by (auto simp: qw_blocked_def)
      finally show ?thesis using e by simp
    next
      case False
      then show ?thesis using x near by (auto simp: qw_blocked_def l s)
    qed
  next
    case old
    then have l: "qw_last (snd (check_replay w q)) = qw_last w"
      and s: "bit (qw_bitmap (snd (check_replay w q))) i \<longleftrightarrow> bit (qw_bitmap w) i \<or> i = qw_last w - q" for i
      using assms(2) q by (auto simp: check_replay_def qw_blocked_def Let_def window_bits)
    show ?thesis using old x by (auto simp: qw_blocked_def l s)
  qed
qed

interpretation qw: replay_window check_replay qw_blocked qw_inv qw_last 64
proof
  fix s q x assume i: "qw_inv s"
  show "qw_inv (snd (check_replay s q))" by (rule check_replay_inv [OF i])
  show "qw_blocked s q \<Longrightarrow> fst (check_replay s q)" by (simp add: check_replay_fst)
  show "\<not> fst (check_replay s q) \<Longrightarrow> qw_blocked (snd (check_replay s q)) q"
    using check_replay_after(2) [OF i, of q q] by (cases "q = 0") (auto simp: check_replay_fst qw_blocked_def)
  have same: "snd (check_replay s q) = s" if "qw_blocked s q"
    using that by (auto simp: check_replay_def qw_blocked_def Let_def)
  show "qw_blocked s x \<Longrightarrow> qw_blocked (snd (check_replay s q)) x"
  proof (cases "qw_blocked s q")
    case False
    then show "qw_blocked s x \<Longrightarrow> ?thesis"
      using check_replay_after(2) [OF i False, of x] by (cases "x = 0") (auto simp: qw_blocked_def)
  qed (simp add: same)
  show "qw_last s < q \<Longrightarrow> \<not> fst (check_replay s q)" by (simp add: check_replay_fst qw_blocked_def)
  show "qw_last (snd (check_replay s q)) = (if fst (check_replay s q) then qw_last s else max (qw_last s) q)"
    using check_replay_after(1) [OF i] same by (simp add: check_replay_fst)
  show "qw_blocked s q \<Longrightarrow> q = 0 \<or> q \<le> qw_last s" by (auto simp: qw_blocked_def)
  show "qw_blocked s x \<or> x = q \<or> x + 64 \<le> qw_last (snd (check_replay s q))"
    if "0 < x" "qw_blocked (snd (check_replay s q)) x"
    using that check_replay_after [OF i] same by (cases "qw_blocked s q") auto
  show "\<not> qw_blocked s q \<Longrightarrow> \<not> fst (check_replay s q)" by (simp add: check_replay_fst)
qed

section \<open>Handshake\<close>

definition q_init_packet :: "bytes \<Rightarrow> bytes \<Rightarrow> bytes \<Rightarrow> nat \<Rightarrow> bytes" where
  "q_init_packet raw_kid master_key client_pub now_ms =
     (let init_body = [1] @ replicate 7 0 @ raw_kid @ client_pub @ be_bytes 8 now_ms
      in init_body @ take 16 (hmac_sha256 master_key init_body))"

text \<open>One answer: keys, session id and assigned address, or \<open>None\<close> for the next attempt.\<close>

definition q_handshake_reply :: "crypto \<Rightarrow> bytes \<Rightarrow> bytes \<Rightarrow> bytes \<Rightarrow> (bytes \<times> bytes \<times> nat \<times> ustr) option" where
  "q_handshake_reply C master_key client_priv resp =
     (if length resp < 80 \<or> resp ! 0 \<noteq> 2 then None
      else
        (case x25519_exchange C client_priv (slice resp 16 48) of
           None \<Rightarrow> None
         | Some shared \<Rightarrow>
             (let derive = (\<lambda>info. hkdf C (Some master_key) shared (bstr info) 32) in
              case aead_decrypt C (derive ''aegs-cfg'') (replicate 12 0) (slice resp 48 80) (Some (take 48 resp)) of
                None \<Rightarrow> None
              | Some cfg \<Rightarrow>
                  (case inet_ntoa (take 4 cfg) of
                     Inl _ \<Rightarrow> None
                   | Inr ip \<Rightarrow> Some (derive ''aegs-c2s'', derive ''aegs-s2c'', le_val (slice resp 8 16), ip)))))"

text \<open>
  Three attempts, each with the datagram that arrives within its three seconds, if any; the number
  is that of the initiations sent.
\<close>

fun q_attempts :: "crypto \<Rightarrow> bytes \<Rightarrow> bytes \<Rightarrow> nat \<Rightarrow> (nat \<Rightarrow> bytes option) \<Rightarrow> nat \<times> (bytes \<times> bytes \<times> nat \<times> ustr) option" where
  "q_attempts C mk priv 0 arrivals = (0, None)"
| "q_attempts C mk priv (Suc n) arrivals =
     (case Option.bind (arrivals 0) (\<lambda>resp. q_handshake_reply C mk priv (take 2048 resp)) of
        Some r \<Rightarrow> (1, Some r)
      | None \<Rightarrow> (case q_attempts C mk priv n (\<lambda>i. arrivals (Suc i)) of (k, r) \<Rightarrow> (Suc k, r)))"

text \<open>The sends are not guarded against errors of the socket.\<close>

definition perform_v3_handshake ::
  "crypto \<Rightarrow> env \<Rightarrow> bytes \<Rightarrow> bytes \<Rightarrow> (nat \<Rightarrow> bytes option) \<Rightarrow> nat \<times> (pyexn + bytes \<times> bytes \<times> nat \<times> ustr)" where
  "perform_v3_handshake C E master_key client_priv arrivals =
     (if \<not> send_ok E then (0, Inl OSError)
      else
        (case q_attempts C master_key client_priv 3 arrivals of
           (k, None) \<Rightarrow> (k, Inl RuntimeError)
         | (k, Some r) \<Rightarrow> (k, Inr r)))"

section \<open>The proxy loop\<close>

record q_proxy =
  qp_raw_kid :: bytes
  qp_mask_key :: bytes
  qp_send_key :: bytes
  qp_recv_key :: bytes
  qp_server_ip :: ustr
  qp_port_count :: nat
  qp_interval :: int
  qp_wg_addr :: "addr option"
  qp_tx_seq :: nat
  qp_window :: q_window
  qp_last_real :: nat
  qp_next_chaff :: nat

definition q_send_addr :: "env \<Rightarrow> q_proxy \<Rightarrow> addr" where
  "q_send_addr E p =
     (qp_server_ip p, compute_hopper_port (qp_send_key p) 50001 (int (qp_port_count p)) (qp_interval p) (now_us E))"

text \<open>Header, nonce and sealed frame.\<close>

definition q_packet :: "crypto \<Rightarrow> entropy \<Rightarrow> q_proxy \<Rightarrow> nat \<Rightarrow> byte \<Rightarrow> bytes \<Rightarrow> bytes \<Rightarrow> bytes" where
  "q_packet C e p seq flag junk frame =
     (let nonce = le_bytes 8 seq @ token_bytes e 4 4;
          hdr = q_outer_header C (qp_mask_key p) (qp_raw_kid p) (token_bytes e 8 12) flag junk
      in hdr @ nonce @ aead_encrypt C (qp_send_key p) nonce frame (Some hdr))"

text \<open>An idle packet; only here an error of the socket is caught.\<close>

definition q_chaff :: "crypto \<Rightarrow> env \<Rightarrow> nat \<Rightarrow> q_proxy \<Rightarrow> q_proxy \<times> (bytes \<times> addr) list" where
  "q_chaff C E clk p =
     (if clk - qp_last_real p > 500000 \<and> clk \<ge> qp_next_chaff p then
        (let e = ent E; p1 = p\<lparr>qp_next_chaff := clk + 50000 + 10000 * randbelow e 0 15, qp_tx_seq := qp_tx_seq p + 1\<rparr>;
             frame = [0, 0] @ token_bytes e 100 (64 + randbelow e 1 65)
         in (p1, if send_ok E then [(q_packet C e p1 (qp_tx_seq p1) 0x80 [] frame, q_send_addr E p1)] else []))
      else (p, []))"

definition q_from_server :: "q_proxy \<Rightarrow> addr \<Rightarrow> bool" where
  "q_from_server p a \<longleftrightarrow> fst a = qp_server_ip p \<and> 50001 \<le> snd a \<and> snd a < 50001 + qp_port_count p"

text \<open>A datagram of the server; sending to WireGuard is not guarded against errors.\<close>

definition q_inbound :: "crypto \<Rightarrow> env \<Rightarrow> q_proxy \<Rightarrow> bytes \<Rightarrow> q_proxy \<times> (bytes \<times> addr) list \<times> pyexn option" where
  "q_inbound C E p data =
     (if length data < 56 then (p, [], None)
      else
        (let hdr = q_mask_unmask_header C (slice data 12 28) (qp_mask_key p) (slice data 0 12) in
         if slice hdr 0 8 \<noteq> qp_raw_kid p \<or> slice hdr 12 16 \<noteq> ver_magic then (p, [], None)
         else
           (let off = 12 + 16 + be_val (slice hdr 8 10) in
            if length data < off + 12 + 16 then (p, [], None)
            else
              (let nonce = slice data off (off + 12) in
               case check_replay (qp_window p) (le_val (take 8 nonce)) of
                 (dropped, w) \<Rightarrow>
                   (let p1 = p\<lparr>qp_window := w\<rparr> in
                    if dropped then (p1, [], None)
                    else
                      (case aead_decrypt C (qp_recv_key p) nonce (drop (off + 12) data) (Some (slice data 0 off)) of
                         None \<Rightarrow> (p1, [], None)
                       | Some pt \<Rightarrow>
                           if length pt < 2 then (p1, [], None)
                           else
                             (let plen = be_val (slice pt 0 2) in
                              case qp_wg_addr p of
                                None \<Rightarrow> (p1, [], None)
                              | Some a \<Rightarrow>
                                  if plen \<le> length pt - 2 then
                                    (if send_ok E then (p1, [(slice pt 2 (2 + plen), a)], None)
                                     else (p1, [], Some OSError))
                                  else (p1, [], None))))))))"

definition q_frame :: "entropy \<Rightarrow> bytes \<Rightarrow> bytes" where
  "q_frame e data = be_bytes 2 (length data) @ data @ token_bytes e 200 (semantic_pad e (length data))"

definition q_junk :: "entropy \<Rightarrow> bytes" where
  "q_junk e = token_bytes e 30 (if randbelow e 2 100 < 20 then 16 + randbelow e 3 49 else 0)"

text \<open>A datagram of WireGuard, of at most 65535 bytes.\<close>

definition q_outbound :: "crypto \<Rightarrow> env \<Rightarrow> nat \<Rightarrow> q_proxy \<Rightarrow> addr \<Rightarrow> bytes \<Rightarrow> q_proxy \<times> (bytes \<times> addr) list \<times> pyexn option" where
  "q_outbound C E clk p a data =
     (let e = ent E;
          p1 = p\<lparr>qp_wg_addr := Some a, qp_last_real := clk, qp_next_chaff := clk + 100000, qp_tx_seq := qp_tx_seq p + 1\<rparr>
      in if send_ok E
         then (p1, [(q_packet C e p1 (qp_tx_seq p1) 0 (q_junk e) (q_frame e data), q_send_addr E p1)], None)
         else (p1, [], Some OSError))"

text \<open>One turn of the loop, with the datagram that \<open>select\<close> reports, if any; the clock is read before
  the idle packet and again for a datagram of WireGuard.\<close>

definition q_round ::
  "crypto \<Rightarrow> env \<Rightarrow> env \<Rightarrow> nat \<Rightarrow> nat \<Rightarrow> q_proxy \<Rightarrow> (bytes \<times> addr) option \<Rightarrow> q_proxy \<times> (bytes \<times> addr) list \<times> pyexn option" where
  "q_round C E0 E clk0 clk p arrival =
     (case q_chaff C E0 clk0 p of
        (p1, outs) \<Rightarrow>
          (case arrival of
             None \<Rightarrow> (p1, outs, None)
           | Some (d, a) \<Rightarrow>
               if d = [] then (p1, outs, None)
               else
                 (case (if q_from_server p1 a then q_inbound C E p1 (take 65535 d)
                        else q_outbound C E clk p1 a (take 65535 d)) of
                    (p2, outs2, ex) \<Rightarrow> (p2, outs @ outs2, ex))))"

text \<open>The loop ends with the first exception that no branch catches.\<close>

fun q_loop ::
  "crypto \<Rightarrow> (env \<times> env \<times> nat \<times> nat \<times> (bytes \<times> addr) option) list \<Rightarrow> q_proxy \<Rightarrow> q_proxy \<times> (bytes \<times> addr) list \<times> pyexn option" where
  "q_loop C [] p = (p, [], None)"
| "q_loop C ((E0, E, clk0, clk, arrival) # turns) p =
     (case q_round C E0 E clk0 clk p arrival of
        (p1, outs, Some ex) \<Rightarrow> (p1, outs, Some ex)
      | (p1, outs, None) \<Rightarrow> (case q_loop C turns p1 of (p2, outs2, ex) \<Rightarrow> (p2, outs @ outs2, ex)))"

section \<open>Firewall commands\<close>

type_synonym command = "ustr list"

definition words :: "string list \<Rightarrow> command" where
  "words = map ustr"

definition netsh_rule :: "string \<Rightarrow> string list \<Rightarrow> command" where
  "netsh_rule nm args = words ([''netsh'', ''advfirewall'', ''firewall'', ''add'', ''rule'', nm, ''dir=out''] @ args)"

definition ks_append :: "command \<Rightarrow> command" where
  "ks_append args = words [''iptables'', ''-A'', ''AEGS_KILLSWITCH''] @ args"

text \<open>The port of the last element may be one below the first, for a count of zero.\<close>

definition enable_killswitch :: "bool \<Rightarrow> ustr \<Rightarrow> int \<Rightarrow> int \<Rightarrow> command list" where
  "enable_killswitch nt ip base count =
     (if nt then
        [netsh_rule ''name=AEGS-KS-Allow-Loopback'' [''action=allow'', ''remoteip=127.0.0.1'', ''enable=yes''],
         netsh_rule ''name=AEGS-KS-Allow-DHCP''
           [''action=allow'', ''protocol=UDP'', ''localport=68'', ''remoteport=67'', ''enable=yes''],
         netsh_rule ''name=AEGS-KS-Allow-Server'' [''action=allow''] @
           [ustr ''remoteip='' @ ip, ustr ''protocol=UDP'',
            ustr ''remoteport='' @ str_int base @ [45] @ str_int (base + count - 1), ustr ''enable=yes''],
         netsh_rule ''name=AEGS-KS-Block-All'' [''action=block'', ''enable=yes'']]
      else
        [words [''iptables'', ''-N'', ''AEGS_KILLSWITCH''],
         ks_append (words [''-m'', ''conntrack'', ''--ctstate'', ''ESTABLISHED,RELATED'', ''-j'', ''ACCEPT'']),
         ks_append (words [''-o'', ''lo'', ''-j'', ''ACCEPT'']),
         ks_append (words [''-p'', ''udp'', ''--sport'', ''68'', ''--dport'', ''67'', ''-j'', ''ACCEPT'']),
         ks_append ([ustr ''-d'', ip] @ words [''-p'', ''udp'', ''--dport''] @
           [if count > 1 then str_int base @ [58] @ str_int (base + count - 1) else str_int base] @
           words [''-j'', ''ACCEPT'']),
         ks_append (words [''-j'', ''DROP'']),
         words [''iptables'', ''-I'', ''OUTPUT'', ''1'', ''-j'', ''AEGS_KILLSWITCH'']])"

definition ks_rule_names :: "string list" where
  "ks_rule_names = [''name=AEGS-KS-Allow-Loopback'', ''name=AEGS-KS-Allow-DHCP'', ''name=AEGS-KS-Allow-Server'',
     ''name=AEGS-KS-Block-All'', ''name=AEGS-KS-Block-DNS'']"

definition drop_chain :: "string \<Rightarrow> command list" where
  "drop_chain c = [words [''iptables'', ''-D'', ''OUTPUT'', ''-j'', c], words [''iptables'', ''-F'', c], words [''iptables'', ''-X'', c]]"

definition disable_killswitch :: "bool \<Rightarrow> command list" where
  "disable_killswitch nt =
     (if nt then map (\<lambda>r. words [''netsh'', ''advfirewall'', ''firewall'', ''delete'', ''rule'', r]) ks_rule_names
      else drop_chain ''AEGS_KILLSWITCH'' @ drop_chain ''AEGS_DNS_SHIELD'')"

definition enable_dns_shield :: "bool \<Rightarrow> command list" where
  "enable_dns_shield nt =
     (if nt then
        [netsh_rule ''name=AEGS-KS-Block-DNS''
           [''action=block'', ''protocol=UDP'', ''remoteport=53'', ''remoteip=!127.0.0.1'', ''enable=yes'']]
      else
        [words [''iptables'', ''-N'', ''AEGS_DNS_SHIELD''],
         words [''iptables'', ''-A'', ''AEGS_DNS_SHIELD'', ''-o'', ''lo'', ''-p'', ''udp'', ''--dport'', ''53'', ''-j'', ''ACCEPT''],
         words [''iptables'', ''-A'', ''AEGS_DNS_SHIELD'', ''-p'', ''udp'', ''--dport'', ''53'', ''-j'', ''DROP''],
         words [''iptables'', ''-I'', ''OUTPUT'', ''1'', ''-j'', ''AEGS_DNS_SHIELD'']])"

section \<open>A session\<close>

record q_session =
  qs_commands :: "command list"
  qs_sent :: "(bytes \<times> addr) list"
  qs_error :: "pyexn option"

text \<open>
  \<open>resolve\<close> is the name resolution, \<open>None\<close> where it raises and the program exits; \<open>hs\<close> the
  entropy and clock of the start, \<open>decoys\<close> the draws of the decoys. The commands of the
  firewall run before the handshake, their removal in the \<open>finally\<close> of the loop.
\<close>

definition run_python_proxy ::
  "crypto \<Rightarrow> bool \<Rightarrow> (ustr \<Rightarrow> ustr option) \<Rightarrow> ustr \<Rightarrow> bytes \<Rightarrow> bool \<Rightarrow> bool \<Rightarrow> nat \<Rightarrow> int \<Rightarrow>
   env \<Rightarrow> (nat \<Rightarrow> entropy) \<Rightarrow> bytes \<Rightarrow> (nat \<Rightarrow> bytes option) \<Rightarrow> nat \<Rightarrow>
   (env \<times> env \<times> nat \<times> nat \<times> (bytes \<times> addr) option) list \<Rightarrow> q_session option" where
  "run_python_proxy C nt resolve host tok kill_switch dns_protect port_count interval hs decoys priv arrivals clk turns =
     (case q_compute_key_id tok of (raw_kid, kid_hex) \<Rightarrow>
      case q_derive_keys C tok kid_hex of (master_key, mask_key, _) \<Rightarrow>
      case resolve host of
        None \<Rightarrow> None
      | Some ip \<Rightarrow>
          (let cmds = (if kill_switch then enable_killswitch nt ip 50001 (int port_count) else []) @
                      (if dns_protect then enable_dns_shield nt else []);
               decs = send_illusion_sequence (ent hs) decoys (\<lambda>i. send_ok hs) (ip, 50001);
               initp = q_init_packet raw_kid master_key (x25519_public C priv) (now_us hs div 1000)
           in case perform_v3_handshake C hs master_key priv arrivals of
                (k, Inl ex) \<Rightarrow>
                  Some \<lparr>qs_commands = cmds, qs_sent = decs @ replicate k (initp, (ip, 50001)), qs_error = Some ex\<rparr>
              | (k, Inr (sk, rk, session_id, assigned)) \<Rightarrow>
                  (let p = \<lparr>qp_raw_kid = raw_kid, qp_mask_key = mask_key, qp_send_key = sk, qp_recv_key = rk,
                        qp_server_ip = ip, qp_port_count = port_count, qp_interval = interval, qp_wg_addr = None,
                        qp_tx_seq = 0, qp_window = \<lparr>qw_last = 0, qw_bitmap = 0\<rparr>, qp_last_real = clk,
                        qp_next_chaff = clk + 50000 + 10000 * randbelow (ent hs) 1 10\<rparr>
                   in case q_loop C turns p of
                        (_, outs, ex) \<Rightarrow>
                          Some \<lparr>qs_commands = cmds @ (if kill_switch \<or> dns_protect then disable_killswitch nt else []),
                                qs_sent = decs @ replicate k (initp, (ip, 50001)) @ outs, qs_error = ex\<rparr>)))"

section \<open>The command line\<close>

definition find_native_binary :: "(ustr \<Rightarrow> bool) \<Rightarrow> (ustr \<Rightarrow> ustr option) \<Rightarrow> ustr \<Rightarrow> ustr \<Rightarrow> ustr option" where
  "find_native_binary executable which script_dir root_dir =
     (let candidates = map (\<lambda>n. script_dir @ ustr n) [''/aegs-client'', ''/aegs-client.exe'', ''/client''] @
            map (\<lambda>n. root_dir @ ustr n) [''/aegs-client'', ''/aegs-client.exe'', ''/client'', ''/aegis_client'', ''/aegis_client.exe''] @
            [ustr ''/usr/local/bin/aegs-client'', ustr ''/usr/local/bin/aegis_client''];
          found = map which (words [''aegs-client'', ''aegis_client'', ''aegs-client.exe'', ''aegis_client.exe''])
      in case filter executable candidates of
           c # _ \<Rightarrow> Some c
         | [] \<Rightarrow> (case filter (\<lambda>p. p \<noteq> None) found of p # _ \<Rightarrow> p | [] \<Rightarrow> None))"

definition generate_wg_config :: "int \<Rightarrow> ustr" where
  "generate_wg_config local_port = concat (map (\<lambda>l. l @ [10])
     [ustr ''# =============================================================================='',
      ustr ''# WireGuard Client Configuration with AEGS v2 Zero-DPI Obfuscator'',
      ustr ''# =============================================================================='',
      ustr ''[Interface]'',
      ustr ''# Replace with your assigned WireGuard Client Private Key and Address:'',
      ustr ''PrivateKey = YOUR_CLIENT_PRIVATE_KEY_HERE'',
      ustr ''Address = 10.8.0.2/24'',
      ustr ''DNS = 1.1.1.1, 8.8.8.8'',
      [],
      ustr ''[Peer]'',
      ustr ''# Replace with your server'' @ [39] @ ustr ''s WireGuard Public Key:'',
      ustr ''PublicKey = YOUR_SERVER_WIREGUARD_PUBLIC_KEY_HERE'',
      ustr ''# CRITICAL: Point Endpoint to local AEGS proxy port!'',
      ustr ''Endpoint = 127.0.0.1:'' @ str_int local_port,
      ustr ''AllowedIPs = 0.0.0.0/0, ::/0'',
      ustr ''PersistentKeepalive = 25''])"

datatype q_action =
    UsageError
  | RunNative command
  | RunPython ustr ustr int bool bool

definition run_command :: "ustr option \<Rightarrow> ustr \<Rightarrow> ustr \<Rightarrow> int \<Rightarrow> bool \<Rightarrow> bool \<Rightarrow> bool \<Rightarrow> q_action" where
  "run_command native_bin server token port kill_switch dns_protect force_python =
     (if server = [] \<or> token = [] then UsageError
      else
        (case native_bin of
           Some bin \<Rightarrow>
             if \<not> force_python then
               RunNative ([bin, ustr ''--server'', server, ustr ''--token'', token, ustr ''--port'', str_int port] @
                 (if kill_switch then [ustr ''--kill-switch''] else []) @
                 (if dns_protect then [ustr ''--dns-protect''] else []))
             else RunPython server token port kill_switch dns_protect
         | None \<Rightarrow> RunPython server token port kill_switch dns_protect))"

section \<open>Properties\<close>

text \<open>The window after a run: blocked is what was seen or is too old.\<close>

lemma window_run:
  "qw_inv (run_filter check_replay \<lparr>qw_last = 0, qw_bitmap = 0\<rparr> qs) \<and>
   qw_last (run_filter check_replay \<lparr>qw_last = 0, qw_bitmap = 0\<rparr> qs) = Max (insert 0 (set qs)) \<and>
   (\<forall>x > 0. qw_blocked (run_filter check_replay \<lparr>qw_last = 0, qw_bitmap = 0\<rparr> qs) x \<longleftrightarrow>
      x \<in> set qs \<or> x + 64 \<le> Max (insert 0 (set qs)))"
proof (induction qs rule: rev_induct)
  case Nil
  show ?case by (simp add: qw_inv_def qw_blocked_def)
next
  case (snoc q qs)
  let ?w = "run_filter check_replay \<lparr>qw_last = 0, qw_bitmap = 0\<rparr> qs"
  have app: "run_filter check_replay w (qs @ [q]) = snd (check_replay (run_filter check_replay w qs) q)" for w
    by (induction qs arbitrary: w) auto
  have eq: "insert 0 (set (qs @ [q])) = insert q (insert 0 (set qs))" by auto
  have "Max (insert q (insert 0 (set qs))) = max q (Max (insert 0 (set qs)))" by (rule Max_insert) auto
  then have m: "Max (insert 0 (set (qs @ [q]))) = max (Max (insert 0 (set qs))) q"
    unfolding eq by (rule trans [OF _ max.commute])
  have i: "qw_inv ?w" and l: "qw_last ?w = Max (insert 0 (set qs))"
    and b: "0 < x \<Longrightarrow> qw_blocked ?w x \<longleftrightarrow> x \<in> set qs \<or> x + 64 \<le> Max (insert 0 (set qs))" for x
    using snoc by auto
  show ?case
  proof (cases "qw_blocked ?w q")
    case True
    then have same: "snd (check_replay ?w q) = ?w" by (auto simp: check_replay_def qw_blocked_def Let_def)
    have le: "q \<le> qw_last ?w" using True by (auto simp: qw_blocked_def)
    then have "max (Max (insert 0 (set qs))) q = Max (insert 0 (set qs))" using l by simp
    moreover have "q = 0 \<or> q \<in> set qs \<or> q + 64 \<le> Max (insert 0 (set qs))" using True b [of q] by auto
    ultimately show ?thesis unfolding app same m using i l b by auto
  next
    case False
    have "qw_inv (snd (check_replay ?w q))" by (rule check_replay_inv [OF i])
    moreover have "qw_blocked (snd (check_replay ?w q)) x \<longleftrightarrow>
        x \<in> set (qs @ [q]) \<or> x + 64 \<le> max (Max (insert 0 (set qs))) q" if "0 < x" for x
      using check_replay_after(2) [OF i False that] b [OF that] l by auto
    ultimately show ?thesis unfolding app m using check_replay_after(1) [OF i False] l by auto
  qed
qed

text \<open>C15: The replay window of the WireGuard proxy refines the set of numbers received: after any sequence of
  arrivals it drops a packet exactly if its number is zero, has arrived before, or lies 64 or more
  behind the highest one; so nothing passes twice, and reordering inside the window loses nothing.\<close>
theorem quick_window_refines_set:
  "(fst (check_replay (run_filter check_replay \<lparr>qw_last = 0, qw_bitmap = 0\<rparr> qs) x) \<longleftrightarrow>
     x = 0 \<or> x \<in> set qs \<or> x + 64 \<le> Max (insert 0 (set qs))) \<and>
   distinct (accepted_seqs check_replay \<lparr>qw_last = 0, qw_bitmap = 0\<rparr> qs)"
proof
  show "fst (check_replay (run_filter check_replay \<lparr>qw_last = 0, qw_bitmap = 0\<rparr> qs) x) \<longleftrightarrow>
      x = 0 \<or> x \<in> set qs \<or> x + 64 \<le> Max (insert 0 (set qs))"
    using window_run [of qs] by (cases "x = 0") (auto simp: check_replay_fst, auto simp: qw_blocked_def)
  show "distinct (accepted_seqs check_replay \<lparr>qw_last = 0, qw_bitmap = 0\<rparr> qs)"
    by (rule qw.accepted_distinct) (simp add: qw_inv_def)
qed

text \<open>The shaping of a payload of \<open>n\<close> bytes: the frame, length field and padding included, has at least
  240 bytes, is never shorter than its content, and exceeds 1382 bytes only with the content itself,
  by at most 32 bytes; the hopping port stays in the configured range.\<close>
theorem quick_bounds:
  "240 \<le> 2 + n + semantic_pad e n \<and> 2 + n + semantic_pad e n \<le> max 1382 (2 + n + 32) \<and>
   b \<le> compute_hopper_port key b c i t \<and> compute_hopper_port key b c i t < b + max 1 (nat c)"
proof -
  have "randbelow e 1 257 < 257" "randbelow e 1 33 < 33" "randbelow e 1 65 < 65" by (simp_all add: randbelow_def)
  then have "240 \<le> 2 + n + semantic_pad e n" "2 + n + semantic_pad e n \<le> max 1382 (2 + n + 32)"
    by (auto simp: semantic_pad_def)
  moreover have "v mod (if c > 0 then nat c else 1) < max 1 (nat c)" for v
    using mod_less_divisor [of "nat c" v] by (auto simp: max_def)
  ultimately show ?thesis by (simp add: compute_hopper_port_def Let_def)
qed

lemma length_q_header:
  assumes "crypto_ok C" "length kid = 8"
  shows "length (q_mask_unmask_header C (plain_header kid n f) mk iv) = 16"
  by (simp add: q_mask_unmask_header_def length_chacha20 [OF assms(1)] length_plain_header [OF assms(2)])

lemma q_packet_parts:
  fixes e :: entropy and p :: q_proxy and flag :: byte and junk frame :: bytes
  assumes "crypto_ok C" "length (qp_mask_key p) = 32" "length (qp_raw_kid p) = 8" "length (qp_send_key p) = 32"
    and "length junk < 65536" "seq < 2 ^ 64"
  defines "nonce \<equiv> le_bytes 8 seq @ token_bytes e 4 4"
    and "hdr \<equiv> q_outer_header C (qp_mask_key p) (qp_raw_kid p) (token_bytes e 8 12) flag junk"
    and "pkt \<equiv> q_packet C e p seq flag junk frame"
  shows "q_mask_unmask_header C (slice pkt 12 28) (qp_mask_key p) (slice pkt 0 12) = plain_header (qp_raw_kid p) (length junk) flag \<and>
    slice pkt 0 (28 + length junk) = hdr \<and> slice pkt (28 + length junk) (28 + length junk + 12) = nonce \<and>
    drop (28 + length junk + 12) pkt = aead_encrypt C (qp_send_key p) nonce frame (Some hdr) \<and>
    length pkt = 56 + length junk + length frame \<and> length nonce = 12 \<and> le_val (take 8 nonce) = seq"
proof (intro conjI)
  let ?iv = "token_bytes e 8 12"
  let ?m = "q_mask_unmask_header C (plain_header (qp_raw_kid p) (length junk) flag) (qp_mask_key p) ?iv"
  have liv: "length ?iv = 12" by (simp add: length_token_bytes)
  have lm: "length ?m = 16" by (rule length_q_header [OF assms(1,3)])
  have hdr: "hdr = ?iv @ ?m @ junk" by (simp add: hdr_def q_outer_header_def)
  have pkt: "pkt = (?iv @ ?m @ junk) @ nonce @ aead_encrypt C (qp_send_key p) nonce frame (Some hdr)"
    by (simp only: pkt_def q_packet_def Let_def nonce_def [symmetric] hdr_def [symmetric] hdr [symmetric])
  show ln: "length nonce = 12" by (simp add: nonce_def pybytes)
  show "slice pkt 0 (28 + length junk) = hdr" "slice pkt (28 + length junk) (28 + length junk + 12) = nonce"
    "drop (28 + length junk + 12) pkt = aead_encrypt C (qp_send_key p) nonce frame (Some hdr)"
    using liv lm ln by (simp_all add: pkt hdr slice_def)
  have "length (aead_encrypt C (qp_send_key p) nonce frame (Some hdr)) = length frame + 16"
    by (rule length_aead [OF assms(1,4) ln])
  then show "length pkt = 56 + length junk + length frame" using liv lm ln by (simp add: pkt)
  have "slice pkt 12 28 = ?m" "slice pkt 0 12 = ?iv" using liv lm by (simp_all add: pkt slice_def)
  then show "q_mask_unmask_header C (slice pkt 12 28) (qp_mask_key p) (slice pkt 0 12) = plain_header (qp_raw_kid p) (length junk) flag"
    using liv by (simp add: q_mask_unmask_header_def chacha20_involution [OF assms(1,2)])
  have "length (le_bytes 8 seq) = 8" by (simp add: length_le_bytes)
  then show "le_val (take 8 nonce) = seq" using le_val_le_bytes [of seq 8] assms(6) by (simp add: nonce_def)
qed

text \<open>C14: Exact delivery by the WireGuard proxies: a datagram that one proxy sends into the tunnel is handed
  by a peer with the same token and the matching key to its WireGuard with exactly the same bytes,
  whatever padding, junk and header mask were drawn, unless its number is blocked by the
  peer's window, and a copy of the packet is dropped.\<close>
theorem quick_datagram_exact:
  assumes "q_outbound C E clk p a data = (p1, [(pkt, dst)], None)" "crypto_ok C" "length data < 65536"
    and "length (qp_mask_key p) = 32" "length (qp_raw_kid p) = 8" "length (qp_send_key p) = 32" "qp_tx_seq p + 1 < 2 ^ 64"
    and "qp_mask_key r = qp_mask_key p" "qp_raw_kid r = qp_raw_kid p" "qp_recv_key r = qp_send_key p"
    and "qp_wg_addr r = Some wg" "qw_inv (qp_window r)" "\<not> fst (check_replay (qp_window r) (qp_tx_seq p + 1))" "send_ok E2"
  shows "\<exists>r'. q_inbound C E2 r pkt = (r', [(data, wg)], None) \<and> q_inbound C E2 r' pkt = (r', [], None)"
proof -
  let ?junk = "q_junk (ent E)" and ?frame = "q_frame (ent E) data"
  have p1: "qp_mask_key p1 = qp_mask_key p" "qp_raw_kid p1 = qp_raw_kid p" "qp_send_key p1 = qp_send_key p"
    and pkt: "pkt = q_packet C (ent E) p1 (qp_tx_seq p + 1) 0 ?junk ?frame"
    using assms(1) by (auto simp: q_outbound_def Let_def split: if_splits)
  have j: "length ?junk < 65536"
    using mod_less_divisor [of 49 "ent E 3"]
    by (simp add: q_junk_def length_token_bytes randbelow_def del: mod_less_divisor)
  let ?off = "28 + length ?junk"
  let ?nonce = "le_bytes 8 (qp_tx_seq p + 1) @ token_bytes (ent E) 4 4"
  let ?hdr = "q_outer_header C (qp_mask_key p) (qp_raw_kid p) (token_bytes (ent E) 8 12) 0 ?junk"
  have p1': "crypto_ok C" "length (qp_mask_key p1) = 32" "length (qp_raw_kid p1) = 8" "length (qp_send_key p1) = 32"
    using assms(2,4-6) by (simp_all add: p1)
  note Q = q_packet_parts [OF p1' j assms(7), of "ent E"]
  have P: "q_mask_unmask_header C (slice pkt 12 28) (qp_mask_key p) (slice pkt 0 12) = plain_header (qp_raw_kid p) (length ?junk) 0"
    "slice pkt 0 ?off = ?hdr" "slice pkt ?off (?off + 12) = ?nonce"
    "drop (?off + 12) pkt = aead_encrypt C (qp_send_key p) ?nonce ?frame (Some ?hdr)"
    "length pkt = 56 + length ?junk + length ?frame" "length ?nonce = 12" "le_val (take 8 ?nonce) = qp_tx_seq p + 1"
    using Q [where flag = 0 and frame = ?frame, folded pkt, unfolded p1] by blast+
  note F = plain_header_fields [OF assms(5) j, of 0]
  have b: "be_val (slice (plain_header (qp_raw_kid p) (length ?junk) 0) 8 10) = length ?junk"
    using F by simp
  obtain w where w: "check_replay (qp_window r) (qp_tx_seq p + 1) = (False, w)"
    using assms(13) by (cases "check_replay (qp_window r) (qp_tx_seq p + 1)") auto
  have dec: "aead_decrypt C (qp_send_key p) ?nonce (aead_encrypt C (qp_send_key p) ?nonce ?frame (Some ?hdr)) (Some ?hdr) = Some ?frame"
    by (rule aead_roundtrip [OF assms(2,6) P(6)])
  have f: "length ?frame = 2 + length data + semantic_pad (ent E) (length data)"
    "be_val (slice ?frame 0 2) = length data" "slice ?frame 2 (2 + length data) = data"
    using assms(3) be_val_be_bytes [of "length data" 2]
    by (simp_all add: q_frame_def pybytes)
  have first: "q_inbound C E2 r pkt = (r\<lparr>qp_window := w\<rparr>, [(data, wg)], None)"
    using P F b w dec f assms(8-11,14) by (simp add: q_inbound_def Let_def p1)
  have "fst (check_replay w (qp_tx_seq p + 1))"
    using qw.accepted_blocked [OF assms(12,13)] w by (simp add: check_replay_fst)
  moreover have "snd (check_replay w q) = w" if "fst (check_replay w q)" for q
    using that by (auto simp: check_replay_def Let_def)
  ultimately have "check_replay w (qp_tx_seq p + 1) = (True, w)" by (metis prod.collapse)
  then have "q_inbound C E2 (r\<lparr>qp_window := w\<rparr>) pkt = (r\<lparr>qp_window := w\<rparr>, [], None)"
    using P F b f assms(8,9) by (simp add: q_inbound_def Let_def p1)
  with first show ?thesis by blast
qed

lemma quick_datagram_exact_witness:
  "\<exists>E p r pkt r'. q_inbound toy_crypto E r pkt = (r', [([7, 8, 9], (ustr ''127.0.0.1'', 40000))], None) \<and>
     q_inbound toy_crypto E r' pkt = (r', [], None)"
proof -
  let ?p = "\<lparr>qp_raw_kid = replicate 8 5, qp_mask_key = replicate 32 1, qp_send_key = replicate 32 2,
    qp_recv_key = replicate 32 3, qp_server_ip = ustr ''10.0.0.1'', qp_port_count = 1, qp_interval = 30,
    qp_wg_addr = None, qp_tx_seq = 0, qp_window = \<lparr>qw_last = 0, qw_bitmap = 0\<rparr>, qp_last_real = 0, qp_next_chaff = 0\<rparr>"
  let ?r = "?p\<lparr>qp_send_key := replicate 32 3, qp_recv_key := replicate 32 2, qp_wg_addr := Some (ustr ''127.0.0.1'', 40000)\<rparr>"
  obtain p1 pkt dst where o: "q_outbound toy_crypto sample_env 0 ?p (ustr ''127.0.0.1'', 40000) [7, 8, 9] = (p1, [(pkt, dst)], None)"
    by (simp add: q_outbound_def Let_def sample_env_def)
  have "\<exists>r'. q_inbound toy_crypto sample_env ?r pkt = (r', [([7, 8, 9], (ustr ''127.0.0.1'', 40000))], None) \<and>
      q_inbound toy_crypto sample_env r' pkt = (r', [], None)"
    by (rule quick_datagram_exact [OF o toy_crypto_ok])
      (simp_all add: qw_inv_def check_replay_def sample_env_def)
  then show ?thesis by blast
qed

text \<open>What the handshake returns is typed.\<close>

lemma inet_ntoa_length: "inet_ntoa b = Inr ip \<Longrightarrow> length b = 4"
  by (auto simp: inet_ntoa_def split: if_splits)

lemma q_handshake_reply_typed:
  assumes "crypto_ok C" "q_handshake_reply C mk priv resp = Some (sk, rk, sid, ip)"
  shows "length sk = 32 \<and> length rk = 32 \<and> sid < 2 ^ 64 \<and> (\<exists>b. length b = 4 \<and> inet_ntoa b = Inr ip)"
proof -
  have "length (slice resp 8 16) \<le> 8" by (simp add: slice_def)
  then have "(256 :: nat) ^ length (slice resp 8 16) \<le> 256 ^ 8" by (intro power_increasing) auto
  then have "le_val (slice resp 8 16) < 2 ^ 64" using le_val_less [of "slice resp 8 16"] by simp
  with assms show ?thesis
    by (auto simp: q_handshake_reply_def Let_def length_hkdf dest: inet_ntoa_length
        split: if_splits option.splits sum.splits)
qed

lemma q_attempts_typed:
  assumes "crypto_ok C" "q_attempts C mk priv n arrivals = (k, r)"
  shows "k \<le> n \<and> (r = None \<longrightarrow> k = n) \<and>
    (\<forall>sk rk sid ip. r = Some (sk, rk, sid, ip) \<longrightarrow>
      length sk = 32 \<and> length rk = 32 \<and> sid < 2 ^ 64 \<and> (\<exists>b. length b = 4 \<and> inet_ntoa b = Inr ip))"
  using assms(2)
proof (induction n arbitrary: arrivals k r)
  case (Suc n)
  show ?case
  proof (cases "Option.bind (arrivals 0) (\<lambda>resp. q_handshake_reply C mk priv (take 2048 resp))")
    case None
    obtain k' r' where s: "q_attempts C mk priv n (\<lambda>i. arrivals (Suc i)) = (k', r')" by fastforce
    show ?thesis using Suc(1) [OF s] Suc(2) None s by auto
  next
    case (Some v)
    then obtain resp where "q_handshake_reply C mk priv (take 2048 resp) = Some v" by (cases "arrivals 0") auto
    with q_handshake_reply_typed [OF assms(1)] Suc(2) Some show ?thesis by auto
  qed
qed auto



text \<open>The rules and chains that a list of commands adds, and those that it removes.\<close>

definition fw_added :: "command list \<Rightarrow> ustr set" where
  "fw_added cs = set (List.map_filter (\<lambda>c.
     if take 5 c = words [''netsh'', ''advfirewall'', ''firewall'', ''add'', ''rule''] then Some (c ! 5)
     else if take 2 c = words [''iptables'', ''-N''] then Some (c ! 2) else None) cs)"

definition fw_removed :: "command list \<Rightarrow> ustr set" where
  "fw_removed cs = set (List.map_filter (\<lambda>c.
     if take 5 c = words [''netsh'', ''advfirewall'', ''firewall'', ''delete'', ''rule''] then Some (c ! 5)
     else if take 2 c = words [''iptables'', ''-X''] then Some (c ! 2) else None) cs)"

lemma fw_append [simp]:
  "fw_added (a @ b) = fw_added a \<union> fw_added b" "fw_removed (a @ b) = fw_removed a \<union> fw_removed b"
  "fw_added [] = {}" "fw_removed [] = {}"
  by (auto simp: fw_added_def fw_removed_def map_filter_def)

lemma ustr_eq [simp]: "ustr a = ustr b \<longleftrightarrow> a = b"
  by (auto simp: ustr_def inj_map_eq_map inj_on_def)

lemmas fw_words = words_def netsh_rule_def ks_append_def drop_chain_def ks_rule_names_def map_filter_simps

lemma fw_enable:
  "fw_added (enable_killswitch True ip base n) = ustr ` {''name=AEGS-KS-Allow-Loopback'', ''name=AEGS-KS-Allow-DHCP'',
     ''name=AEGS-KS-Allow-Server'', ''name=AEGS-KS-Block-All''}"
  "fw_added (enable_killswitch False ip base n) = ustr ` {''AEGS_KILLSWITCH''}"
  "fw_removed (enable_killswitch nt ip base n) = {}"
  by (cases nt; simp add: fw_added_def fw_removed_def enable_killswitch_def fw_words insert_commute)+

lemma fw_dns:
  "fw_added (enable_dns_shield True) = ustr ` {''name=AEGS-KS-Block-DNS''}"
  "fw_added (enable_dns_shield False) = ustr ` {''AEGS_DNS_SHIELD''}"
  "fw_removed (enable_dns_shield nt) = {}"
  by (cases nt; simp add: fw_added_def fw_removed_def enable_dns_shield_def fw_words)+

lemma fw_disable:
  "fw_removed (disable_killswitch True) = ustr ` set ks_rule_names"
  "fw_removed (disable_killswitch False) = ustr ` {''AEGS_KILLSWITCH'', ''AEGS_DNS_SHIELD''}"
  "fw_added (disable_killswitch nt) = {}"
  by (cases nt; simp add: fw_added_def fw_removed_def disable_killswitch_def fw_words)+

lemma fw_cleanup:
  "fw_added (enable_killswitch nt ip base n @ enable_dns_shield nt) = fw_removed (disable_killswitch nt)"
  by (cases nt) (auto simp: fw_enable fw_dns fw_disable ks_rule_names_def)

text \<open>What a session runs on the firewall.\<close>

lemma session_commands:
  assumes "run_python_proxy C nt resolve host tok ks dns pc iv hs decoys priv arrivals clk turns = Some s"
  shows "\<exists>ip. qs_commands s = (if ks then enable_killswitch nt ip 50001 (int pc) else []) @
      (if dns then enable_dns_shield nt else []) @
      (if (ks \<or> dns) \<and> (\<exists>k r. perform_v3_handshake C hs
            (fst (q_derive_keys C tok (snd (q_compute_key_id tok)))) priv arrivals = (k, Inr r))
       then disable_killswitch nt else [])"
  using assms
  by (auto simp: run_python_proxy_def q_compute_key_id_def Let_def q_derive_keys_def
      split: option.splits prod.splits sum.splits)


lemma unanswered_handshake:
  assumes "send_ok hs"
  shows "perform_v3_handshake C hs mk priv (\<lambda>_. None) = (3, Inl RuntimeError)"
  using assms by (simp add: perform_v3_handshake_def eval_nat_numeral)


text \<open>The proxy ends with the first packet that the system refuses to send: a datagram of WireGuard that cannot
  be sent raises out of the loop, and nothing that arrives afterwards is handled, while a refused idle
  packet is skipped.\<close>
theorem send_error_ends_proxy:
  assumes "\<not> q_from_server p a" "d \<noteq> []" "\<not> send_ok E" "\<not> send_ok E0"
  shows "\<exists>p'. q_loop C ((E0, E, clk0, clk, Some (d, a)) # turns) p = (p', [], Some OSError) \<and>
    (\<exists>p2. q_loop C ((E0, E, clk0, clk, None) # turns) p = q_loop C turns p2)"
proof -
  define p1 where "p1 = fst (q_chaff C E0 clk0 p)"
  have c: "q_chaff C E0 clk0 p = (p1, [])" "qp_server_ip p1 = qp_server_ip p" "qp_port_count p1 = qp_port_count p"
    using assms(4) by (simp_all add: p1_def q_chaff_def Let_def)
  then have "\<not> q_from_server p1 a" using assms(1) by (simp add: q_from_server_def)
  then show ?thesis using assms(2,3)
    by (auto simp: q_round_def c(1) q_outbound_def Let_def split: prod.splits)
qed

lemma send_error_ends_proxy_witness:
  "\<exists>p'. q_loop toy_crypto [(sample_env\<lparr>send_ok := False\<rparr>, sample_env\<lparr>send_ok := False\<rparr>, 0, 0, Some (([1] :: bytes), (ustr ''127.0.0.1'', 40000)))]
     \<lparr>qp_raw_kid = replicate 8 5, qp_mask_key = replicate 32 1, qp_send_key = replicate 32 2,
      qp_recv_key = replicate 32 3, qp_server_ip = ustr ''10.0.0.1'', qp_port_count = 1, qp_interval = 30,
      qp_wg_addr = None, qp_tx_seq = 0, qp_window = \<lparr>qw_last = 0, qw_bitmap = 0\<rparr>, qp_last_real = 0, qp_next_chaff = 0\<rparr> =
     (p', [], Some OSError)"
proof -
  let ?p = "\<lparr>qp_raw_kid = replicate 8 5, qp_mask_key = replicate 32 1, qp_send_key = replicate 32 2,
      qp_recv_key = replicate 32 3, qp_server_ip = ustr ''10.0.0.1'', qp_port_count = 1, qp_interval = 30,
      qp_wg_addr = None, qp_tx_seq = 0, qp_window = \<lparr>qw_last = 0, qw_bitmap = 0\<rparr>, qp_last_real = 0, qp_next_chaff = 0\<rparr>"
  let ?E = "sample_env\<lparr>send_ok := False\<rparr>"
  have "\<not> q_from_server ?p (ustr ''127.0.0.1'', 40000)" by (simp add: q_from_server_def)
  from send_error_ends_proxy [OF this, of "[1]" ?E ?E toy_crypto 0 0 "[]"] show ?thesis by auto
qed

end
