(* ===== verification/Probe.thy ===== *)
theory Probe
  imports QuickClient
begin

text \<open>
  remote_security_probe.py: the auditor, six phases that talk to a server and write verdicts
  into a log, and the listener that the same script offers to be audited. A phase takes the
  datagram that \<open>select\<close> reports to it, if any, and whether its sends succeed; the answers of all
  phases arrive on one socket, so it may be any datagram. The texts of the log are a datatype
  of their parameters.
\<close>

section \<open>Keys and header\<close>

definition p_pbkdf2_sha256 :: "bytes \<Rightarrow> ustr \<Rightarrow> bytes" where
  "p_pbkdf2_sha256 tok salt_hex = pbkdf2_hmac_sha256 tok (map of_nat salt_hex) 5000"

definition p_hkdf_expand :: "crypto \<Rightarrow> bytes \<Rightarrow> bytes \<Rightarrow> nat \<Rightarrow> bytes" where
  "p_hkdf_expand C prk info n = hkdf C None prk info n"

definition p_hkdf_extract_and_expand :: "crypto \<Rightarrow> bytes \<Rightarrow> bytes \<Rightarrow> bytes \<Rightarrow> nat \<Rightarrow> bytes" where
  "p_hkdf_extract_and_expand C secret salt info n = hkdf C (Some salt) secret info n"

definition p_mask_unmask_header :: "crypto \<Rightarrow> bytes \<Rightarrow> bytes \<Rightarrow> bytes \<Rightarrow> bytes" where
  "p_mask_unmask_header C data mask_key iv =
     (let iv16 = (if length iv = 12 then [0, 0, 0, 0] @ iv else iv) in chacha20 C mask_key iv16 data)"

section \<open>The auditor\<close>

datatype verdict = PASS | WARN | FAIL

datatype finding =
    Mimicry nat
  | Blackhole
  | NetError
  | Reflected nat
  | NoReflection
  | HandshakeTimeout
  | BadFormat nat "byte option"
  | BadServerTag
  | MutualHandshake ustr nat
  | HandshakeError
  | TamperAnswered nat
  | TamperIgnored
  | ReplayBlocked
  | FramesSent

type_synonym audit_entry = "string \<times> verdict \<times> finding"

record probe =
  pb_dest :: addr
  pb_raw_kid :: bytes
  pb_kid_hex :: ustr
  pb_master_key :: bytes
  pb_mask_key :: bytes
  pb_payload_key :: bytes
  pb_session_id :: "bytes option"
  pb_assigned_ip :: "ustr option"
  pb_send_key :: "bytes option"
  pb_recv_key :: "bytes option"
  pb_tx_seq :: nat
  pb_audit :: "audit_entry list"

definition probe_init :: "crypto \<Rightarrow> addr \<Rightarrow> bytes \<Rightarrow> probe" where
  "probe_init C dest tok =
     (let raw_kid = take 8 (sha256 tok);
          kid_hex = hex_of raw_kid;
          mk = p_pbkdf2_sha256 tok kid_hex
      in \<lparr>pb_dest = dest, pb_raw_kid = raw_kid, pb_kid_hex = kid_hex, pb_master_key = mk,
          pb_mask_key = p_hkdf_expand C mk (bstr ''aegis-v2-header-mask'') 32,
          pb_payload_key = p_hkdf_expand C mk (bstr ''aegis-v2-payload-key'') 32,
          pb_session_id = None, pb_assigned_ip = None, pb_send_key = None, pb_recv_key = None,
          pb_tx_seq = 0, pb_audit = []\<rparr>)"

definition log_step :: "string \<Rightarrow> verdict \<Rightarrow> finding \<Rightarrow> probe \<Rightarrow> probe" where
  "log_step step v f p = p\<lparr>pb_audit := pb_audit p @ [(step, v, f)]\<rparr>"

type_synonym phase_res = "probe \<times> (bytes \<times> addr) list"

definition stun_req :: "entropy \<Rightarrow> bytes" where
  "stun_req e = [0, 1, 0, 0, 0x21, 0x12, 0xA4, 0x42] @ token_bytes e 0 12"

definition phase_1 :: "env \<Rightarrow> bytes option \<Rightarrow> probe \<Rightarrow> phase_res" where
  "phase_1 E arrival p =
     (if \<not> send_ok E then (log_step ''1.1'' WARN NetError p, [])
      else (case arrival of
          Some d \<Rightarrow> (log_step ''1.1'' PASS (Mimicry (length (take 4096 d))) p, [(stun_req (ent E), pb_dest p)])
        | None \<Rightarrow> (log_step ''1.1'' PASS Blackhole p, [(stun_req (ent E), pb_dest p)])))"

definition phase_2 :: "env \<Rightarrow> bytes option \<Rightarrow> probe \<Rightarrow> phase_res" where
  "phase_2 E arrival p =
     (if \<not> send_ok E then (log_step ''2.1'' WARN NetError p, [])
      else (case arrival of
          Some d \<Rightarrow> (log_step ''2.1'' WARN (Reflected (length (take 4096 d))) p, [(bstr ''HELLO'', pb_dest p)])
        | None \<Rightarrow> (log_step ''2.1'' PASS NoReflection p, [(bstr ''HELLO'', pb_dest p)])))"

definition p_init_packet :: "probe \<Rightarrow> bytes \<Rightarrow> nat \<Rightarrow> bytes" where
  "p_init_packet p client_pub now_ms =
     (let body = [1] @ replicate 7 0 @ pb_raw_kid p @ client_pub @ be_bytes 8 now_ms
      in body @ take 16 (hmac_sha256 (pb_master_key p) body))"

text \<open>The answer of the server. Keys and session id stay set when a later check fails.\<close>

definition p_handshake_answer :: "crypto \<Rightarrow> bytes \<Rightarrow> bytes \<Rightarrow> probe \<Rightarrow> bool \<times> probe" where
  "p_handshake_answer C client_priv resp p =
     (if length resp < 80 \<or> resp ! 0 \<noteq> 2
      then (False, log_step ''3.1'' FAIL (BadFormat (length resp) (if resp = [] then None else Some (resp ! 0))) p)
      else
        (let p1 = p\<lparr>pb_session_id := Some (slice resp 8 16)\<rparr> in
         case x25519_exchange C client_priv (slice resp 16 48) of
           None \<Rightarrow> (False, log_step ''3.1'' FAIL HandshakeError p1)
         | Some shared \<Rightarrow>
             (let sk = p_hkdf_extract_and_expand C shared (pb_master_key p) (bstr ''aegs-c2s'') 32;
                  rk = p_hkdf_extract_and_expand C shared (pb_master_key p) (bstr ''aegs-s2c'') 32;
                  p2 = p1\<lparr>pb_send_key := Some sk, pb_recv_key := Some rk\<rparr>
              in case aead_decrypt C rk (replicate 12 0) (drop 48 resp) (Some (take 48 resp)) of
                   None \<Rightarrow> (False, log_step ''3.1'' FAIL BadServerTag p2)
                 | Some cfg \<Rightarrow>
                     (case inet_ntoa (take 4 cfg) of
                        Inl _ \<Rightarrow> (False, log_step ''3.1'' FAIL BadServerTag p2)
                      | Inr ip \<Rightarrow>
                          (let p3 = p2\<lparr>pb_assigned_ip := Some ip\<rparr> in
                           if length (slice cfg 4 6) < 2 then (False, log_step ''3.1'' FAIL BadServerTag p3)
                           else (True, log_step ''3.1'' PASS (MutualHandshake ip (le_val (slice cfg 4 6))) p3))))))"

definition phase_3 :: "crypto \<Rightarrow> env \<Rightarrow> bytes \<Rightarrow> bytes option \<Rightarrow> probe \<Rightarrow> bool \<times> phase_res" where
  "phase_3 C E client_priv arrival p =
     (if \<not> send_ok E then (False, log_step ''3.1'' FAIL HandshakeError p, [])
      else
        (let sent = [(p_init_packet p (x25519_public C client_priv) (now_us E div 1000), pb_dest p)] in
         case arrival of
           None \<Rightarrow> (False, log_step ''3.1'' FAIL HandshakeTimeout p, sent)
         | Some d \<Rightarrow> (case p_handshake_answer C client_priv (take 4096 d) p of (ok, p1) \<Rightarrow> (ok, p1, sent))))"

text \<open>The next nonce, and a sealed packet with junk; a session key of the right length never raises.\<close>

definition p_nonce :: "entropy \<Rightarrow> nat \<Rightarrow> bytes" where
  "p_nonce e seq = le_bytes 8 seq @ token_bytes e 0 4"

definition p_packet :: "crypto \<Rightarrow> entropy \<Rightarrow> probe \<Rightarrow> bytes \<Rightarrow> nat \<Rightarrow> nat \<Rightarrow> nat \<Rightarrow> bytes \<Rightarrow> bytes" where
  "p_packet C e p key seq junk_len mask_flip payload =
     (let hdr_iv = token_bytes e 36 12;
          junk = token_bytes e 48 junk_len;
          masked_hdr = p_mask_unmask_header C (plain_header (pb_raw_kid p) junk_len 0) (pb_mask_key p) hdr_iv;
          nonce = p_nonce e seq;
          ct = aead_encrypt C key nonce payload (Some (hdr_iv @ masked_hdr @ junk));
          sent_hdr = masked_hdr[10 := masked_hdr ! 10 XOR of_nat mask_flip]
      in hdr_iv @ sent_hdr @ junk @ nonce @ ct)"

definition phase_4 :: "crypto \<Rightarrow> env \<Rightarrow> bytes option \<Rightarrow> bytes \<Rightarrow> probe \<Rightarrow> phase_res" where
  "phase_4 C E arrival key p =
     (let p1 = p\<lparr>pb_tx_seq := pb_tx_seq p + 1\<rparr>;
          payload = be_bytes 2 11 @ bstr ''TAMPER_TEST'' @ token_bytes (ent E) 4 32;
          tampered = p_packet C (ent E) p1 key (pb_tx_seq p1) 16 0x80 payload
      in if \<not> send_ok E then (log_step ''4.1'' WARN NetError p1, [])
         else (case arrival of
             Some d \<Rightarrow> (log_step ''4.1'' WARN (TamperAnswered (length (take 4096 d))) p1, [(tampered, pb_dest p)])
           | None \<Rightarrow> (log_step ''4.1'' PASS TamperIgnored p1, [(tampered, pb_dest p)])))"

text \<open>The same packet twice, each send with its own outcome; nothing is received.\<close>

definition phase_5 :: "crypto \<Rightarrow> env \<Rightarrow> bool \<Rightarrow> bytes \<Rightarrow> probe \<Rightarrow> phase_res" where
  "phase_5 C E second_ok key p =
     (let p1 = p\<lparr>pb_tx_seq := pb_tx_seq p + 1\<rparr>;
          payload = be_bytes 2 11 @ bstr ''REPLAY_TEST'' @ token_bytes (ent E) 4 32;
          pkt = p_packet C (ent E) p1 key (pb_tx_seq p1) 0 0 payload
      in if \<not> send_ok E then (log_step ''5.1'' WARN NetError p1, [])
         else if \<not> second_ok then (log_step ''5.1'' WARN NetError p1, [(pkt, pb_dest p)])
         else (log_step ''5.1'' PASS ReplayBlocked p1, [(pkt, pb_dest p), (pkt, pb_dest p)]))"

text \<open>Three frames; \<open>stamp\<close> is the text of \<open>time.time()\<close> in each.\<close>

fun ping_loop :: "crypto \<Rightarrow> (nat \<Rightarrow> env) \<Rightarrow> (nat \<Rightarrow> bytes) \<Rightarrow> bytes \<Rightarrow> nat list \<Rightarrow> probe \<Rightarrow> probe \<times> (bytes \<times> addr) list" where
  "ping_loop C Es stamp key [] p = (p, [])"
| "ping_loop C Es stamp key (i # is) p =
     (let p1 = p\<lparr>pb_tx_seq := pb_tx_seq p + 1\<rparr>;
          msg = bstr ''PING_'' @ map of_nat (str_nat i) @ bstr ''_'' @ stamp i;
          frame = be_bytes 2 (length msg) @ msg @ token_bytes (ent (Es i)) 4 32;
          pkt = p_packet C (ent (Es i)) p1 key (pb_tx_seq p1) 8 0 frame
      in case ping_loop C Es stamp key is p1 of
           (p2, sent) \<Rightarrow> (p2, (if send_ok (Es i) then [(pkt, pb_dest p)] else []) @ sent))"

definition phase_6 :: "crypto \<Rightarrow> (nat \<Rightarrow> env) \<Rightarrow> (nat \<Rightarrow> bytes) \<Rightarrow> bytes \<Rightarrow> probe \<Rightarrow> phase_res" where
  "phase_6 C Es stamp key p =
     (case ping_loop C Es stamp key [0, 1, 2] p of
        (p1, sent) \<Rightarrow> (log_step ''6.1'' PASS FramesSent p1, sent))"

record probe_world =
  pw_env :: "nat \<Rightarrow> env"
  pw_arrival :: "nat \<Rightarrow> bytes option"
  pw_second_ok :: bool
  pw_pings :: "nat \<Rightarrow> env"
  pw_stamp :: "nat \<Rightarrow> bytes"
  pw_priv :: bytes

definition passed :: "audit_entry list \<Rightarrow> nat" where
  "passed log = length (filter (\<lambda>(_, v, _). v = PASS) log)"

text \<open>The report: total and passed, \<open>None\<close> when the handshake fails and none is written.\<close>

definition run_audit :: "crypto \<Rightarrow> probe_world \<Rightarrow> probe \<Rightarrow> probe \<times> (bytes \<times> addr) list \<times> (nat \<times> nat) option" where
  "run_audit C W p =
     (case phase_1 (pw_env W 1) (pw_arrival W 1) p of (p1, s1) \<Rightarrow>
      case phase_2 (pw_env W 2) (pw_arrival W 2) p1 of (p2, s2) \<Rightarrow>
      case phase_3 C (pw_env W 3) (pw_priv W) (pw_arrival W 3) p2 of
        (False, p3, s3) \<Rightarrow> (p3, s1 @ s2 @ s3, None)
      | (True, p3, s3) \<Rightarrow>
          (case pb_send_key p3 of
             None \<Rightarrow> (p3, s1 @ s2 @ s3, None)
           | Some key \<Rightarrow>
               (case phase_4 C (pw_env W 4) (pw_arrival W 4) key p3 of (p4, s4) \<Rightarrow>
                case phase_5 C (pw_env W 5) (pw_second_ok W) key p4 of (p5, s5) \<Rightarrow>
                case phase_6 C (pw_pings W) (pw_stamp W) key p5 of (p6, s6) \<Rightarrow>
                  (p6, s1 @ s2 @ s3 @ s4 @ s5 @ s6, Some (length (pb_audit p6), passed (pb_audit p6))))))"

section \<open>The listener\<close>

record listener =
  ls_raw_kid :: bytes
  ls_master_key :: bytes
  ls_mask_key :: bytes
  ls_seen :: "nat set"
  ls_recv_key :: "bytes option"
  ls_send_key :: "bytes option"

datatype ls_out =
    LsSend bytes addr
  | LsShort nat addr
  | LsCloak addr
  | LsUnknownKid addr
  | LsBadMac addr
  | LsHandshakeOk addr
  | LsTamperDrop addr
  | LsReplayDrop nat addr
  | LsDataOk nat ustr addr
  | LsAadFail addr

definition listener_init :: "probe \<Rightarrow> listener" where
  "listener_init p = \<lparr>ls_raw_kid = pb_raw_kid p, ls_master_key = pb_master_key p, ls_mask_key = pb_mask_key p,
     ls_seen = {}, ls_recv_key = None, ls_send_key = None\<rparr>"

definition ls_handshake :: "crypto \<Rightarrow> env \<Rightarrow> bytes \<Rightarrow> bytes \<Rightarrow> listener \<Rightarrow> addr \<Rightarrow> bytes \<Rightarrow> listener \<times> ls_out list" where
  "ls_handshake C E server_priv server_pub st a data =
     (if slice data 8 16 \<noteq> ls_raw_kid st then (st, [LsUnknownKid a])
      else if slice data 56 72 \<noteq> take 16 (hmac_sha256 (ls_master_key st) (take 56 data)) then (st, [LsBadMac a])
      else
        (case x25519_exchange C server_priv (slice data 16 48) of
           None \<Rightarrow> (st, [])
         | Some shared \<Rightarrow>
             (let rk = p_hkdf_extract_and_expand C shared (ls_master_key st) (bstr ''aegs-c2s'') 32;
                  sk = p_hkdf_extract_and_expand C shared (ls_master_key st) (bstr ''aegs-s2c'') 32;
                  resp_hdr = [2] @ replicate 7 0 @ token_bytes (ent E) 0 8 @ server_pub;
                  config_plain = le_bytes 4 0x0200080A @ le_bytes 2 1400 @ replicate 10 0;
                  st1 = st\<lparr>ls_recv_key := Some rk, ls_send_key := Some sk\<rparr>
              in if send_ok E
                 then (st1, [LsSend (resp_hdr @ aead_encrypt C sk (replicate 12 0) config_plain (Some resp_hdr)) a,
                             LsHandshakeOk a])
                 else (st1, []))))"

definition ls_seen_check :: "nat set \<Rightarrow> nat \<Rightarrow> bool \<times> nat set" where
  "ls_seen_check seen seq = (if seq \<in> seen then (True, seen) else (False, insert seq seen))"

definition ls_data :: "crypto \<Rightarrow> listener \<Rightarrow> addr \<Rightarrow> bytes \<Rightarrow> bytes \<Rightarrow> listener \<times> ls_out list" where
  "ls_data C st a data rk =
     (let hdr = p_mask_unmask_header C (slice data 12 28) (ls_mask_key st) (slice data 0 12) in
      if slice hdr 0 8 \<noteq> ls_raw_kid st \<or> slice hdr 12 16 \<noteq> ver_magic then (st, [LsTamperDrop a])
      else
        (let off = 12 + 16 + be_val (slice hdr 8 10) in
         if length data < off + 12 + 16 then (st, [])
         else
           (let nonce = slice data off (off + 12); seq = le_val (take 8 nonce) in
            case ls_seen_check (ls_seen st) seq of
              (True, _) \<Rightarrow> (st, [LsReplayDrop seq a])
            | (False, seen) \<Rightarrow>
                (let st1 = st\<lparr>ls_seen := seen\<rparr> in
                 case aead_decrypt C rk nonce (drop (off + 12) data) (Some (take off data)) of
                   None \<Rightarrow> (st1, [LsAadFail a])
                 | Some pt \<Rightarrow>
                     if length pt < 2 then (st1, [LsAadFail a])
                     else (st1, [LsDataOk seq (utf8_decode_replace (slice pt 2 (2 + be_val (slice pt 0 2)))) a])))))"

text \<open>One datagram; an exception is swallowed and leaves the state as it is.\<close>

definition run_server :: "crypto \<Rightarrow> env \<Rightarrow> bytes \<Rightarrow> bytes \<Rightarrow> listener \<Rightarrow> addr \<Rightarrow> bytes \<Rightarrow> listener \<times> ls_out list" where
  "run_server C E server_priv server_pub st a data =
     (if data = [] then (st, [])
      else if length data < 20 then (st, [LsShort (length data) a])
      else if take 2 data = [0, 1] \<and> length data = 20 then
        (if send_ok E
         then (st, [LsSend ([1, 1, 0, 0, 0x21, 0x12, 0xA4, 0x42] @ token_bytes (ent E) 0 12) a, LsCloak a])
         else (st, []))
      else if data ! 0 = 1 \<and> length data \<ge> 72 then ls_handshake C E server_priv server_pub st a data
      else
        (case ls_recv_key st of
           None \<Rightarrow> (st, [])
         | Some rk \<Rightarrow> if length data \<ge> 56 then ls_data C st a data rk else (st, [])))"

section \<open>Auditor against listener\<close>

definition same_token :: "probe \<Rightarrow> listener \<Rightarrow> bool" where
  "same_token p st \<longleftrightarrow> ls_raw_kid st = pb_raw_kid p \<and> ls_master_key st = pb_master_key p \<and>
     ls_mask_key st = pb_mask_key p \<and> length (pb_raw_kid p) = 8 \<and> length (pb_mask_key p) = 32"

lemma same_token_init: "crypto_ok C \<Longrightarrow> same_token (probe_init C dest tok) (listener_init (probe_init C dest tok))"
  by (simp add: same_token_def probe_init_def listener_init_def Let_def p_hkdf_expand_def length_hkdf length_sha256)

lemma le_bytes4: "le_bytes 4 v = [of_nat v, of_nat (v div 256), of_nat (v div 256 div 256), of_nat (v div 256 div 256 div 256)]"
proof -
  have "(4 :: nat) = Suc (Suc (Suc (Suc 0)))" by simp
  then show ?thesis by (simp only: le_bytes.simps)
qed

lemma raw_config_ip: "take 4 raw_config = [10, 8, 0, 2]"
  by (simp add: raw_config_def le_bytes4)

lemma inet_ntoa_config: "inet_ntoa (take 4 raw_config) = Inr (ustr ''10.8.0.2'')"
  by (simp add: raw_config_ip inet_ntoa_def str_nat_def ustr_def dec_digits.simps [of 10] dec_digits.simps [of 8]
      dec_digits.simps [of "Suc 0"] dec_digits.simps [of 0] dec_digits.simps [of 2])

lemma raw_config_mtu: "slice raw_config 4 6 = le_bytes 2 1400"
  by (simp add: raw_config_def slice_def length_le_bytes)

lemma run_server_init:
  "length d = 72 \<Longrightarrow> d ! 0 = 1 \<Longrightarrow> run_server C E priv pub st a d = ls_handshake C E priv pub st a d"
  by (auto simp: run_server_def)

text \<open>C36: The auditor and the listener of the same script agree: with the same token the initiation of phase 3 is
  answered, the answer passes every check of the auditor, the two directions get the same keys on
  both sides, and the log says that address 10.8.0.2 was assigned.\<close>
theorem probe_handshake_agreement:
  assumes "crypto_ok C" "same_token p st" "server_pub = x25519_public C server_priv" "send_ok E" "send_ok E2"
  shows "\<exists>st' reply p'. run_server C E server_priv server_pub st a
        (p_init_packet p (x25519_public C cpriv) (now_us E2 div 1000)) = (st', [LsSend reply a, LsHandshakeOk a]) \<and>
      phase_3 C E2 cpriv (Some reply) p =
        (True, p', [(p_init_packet p (x25519_public C cpriv) (now_us E2 div 1000), pb_dest p)]) \<and>
      pb_send_key p' = ls_recv_key st' \<and> pb_recv_key p' = ls_send_key st' \<and>
      pb_audit p' = pb_audit p @ [(''3.1'', PASS, MutualHandshake (ustr ''10.8.0.2'') 1400)]"
proof -
  let ?cpub = "x25519_public C cpriv" and ?now = "now_us E2 div 1000"
  obtain sh where sh: "x25519_exchange C server_priv ?cpub = Some sh" "x25519_exchange C cpriv server_pub = Some sh"
    using x25519_defined [OF assms(1), of server_priv cpriv] x25519_commute [OF assms(1), of server_priv cpriv] assms(3) by auto
  have k: "ls_raw_kid st = pb_raw_kid p" "ls_master_key st = pb_master_key p" "length (pb_raw_kid p) = 8"
    using assms(2) by (simp_all add: same_token_def)
  note I = raw_init_parts [OF k(3) length_x25519_public [OF assms(1)], of cpriv ?now "pb_master_key p"]
  define sk where "sk = p_hkdf_extract_and_expand C sh (pb_master_key p) (bstr ''aegs-s2c'') 32"
  define rk where "rk = p_hkdf_extract_and_expand C sh (pb_master_key p) (bstr ''aegs-c2s'') 32"
  have lsk: "length sk = 32" by (simp add: sk_def p_hkdf_extract_and_expand_def length_hkdf [OF assms(1)])
  have lpub: "length server_pub = 32" by (simp add: assms(3) length_x25519_public [OF assms(1)])
  note R = raw_reply_parts [OF assms(1) lsk length_token_bytes lpub, of "ent E" 0]
  let ?hdr = "[2] @ replicate 7 0 @ token_bytes (ent E) 0 8 @ server_pub"
  let ?reply = "?hdr @ aead_encrypt C sk (replicate 12 0) raw_config (Some ?hdr)"
  let ?body = "[1] @ replicate 7 0 @ pb_raw_kid p @ ?cpub @ be_bytes 8 ?now"
  have pkt: "p_init_packet p ?cpub ?now = ?body @ take 16 (hmac_sha256 (pb_master_key p) ?body)"
    by (simp add: p_init_packet_def Let_def)
  have h: "ls_handshake C E server_priv server_pub st a (p_init_packet p ?cpub ?now) =
      (st\<lparr>ls_recv_key := Some rk, ls_send_key := Some sk\<rparr>, [LsSend ?reply a, LsHandshakeOk a])"
    unfolding pkt ls_handshake_def Let_def k I sh(1) option.case raw_config_def [symmetric]
    using assms(4) by (simp add: sk_def rk_def)
  have "length (p_init_packet p ?cpub ?now) = 72" "p_init_packet p ?cpub ?now ! 0 = 1"
    unfolding pkt by (fact I)+
  note srv = run_server_init [OF this, of C E server_priv server_pub st a, unfolded h]
  have ans: "p_handshake_answer C cpriv (take 4096 ?reply) p =
     (True, log_step ''3.1'' PASS (MutualHandshake (ustr ''10.8.0.2'') 1400)
        (p\<lparr>pb_session_id := Some (token_bytes (ent E) 0 8), pb_send_key := Some rk, pb_recv_key := Some sk,
           pb_assigned_ip := Some (ustr ''10.8.0.2'')\<rparr>))"
  proof -
    have t: "take 4096 ?reply = ?reply" using R(1) by simp
    show ?thesis
      unfolding t p_handshake_answer_def Let_def R(2-5) sh(2) option.case sk_def [symmetric] rk_def [symmetric]
        inet_ntoa_config raw_config_mtu
      using R(1) by (simp add: length_le_bytes le_val_le_bytes)
  qed
  have "phase_3 C E2 cpriv (Some ?reply) p = (True,
      log_step ''3.1'' PASS (MutualHandshake (ustr ''10.8.0.2'') 1400)
        (p\<lparr>pb_session_id := Some (token_bytes (ent E) 0 8), pb_send_key := Some rk, pb_recv_key := Some sk,
           pb_assigned_ip := Some (ustr ''10.8.0.2'')\<rparr>), [(p_init_packet p ?cpub ?now, pb_dest p)])"
    unfolding phase_3_def Let_def option.case ans using assms(5) by simp
  with srv show ?thesis by (intro exI conjI) (assumption | simp add: log_step_def)+
qed

definition sample_probe :: probe where
  "sample_probe = \<lparr>pb_dest = (ustr ''10.0.0.1'', 50001), pb_raw_kid = replicate 8 5, pb_kid_hex = [],
     pb_master_key = replicate 32 1, pb_mask_key = replicate 32 2, pb_payload_key = replicate 32 3,
     pb_session_id = None, pb_assigned_ip = None, pb_send_key = None, pb_recv_key = None, pb_tx_seq = 0, pb_audit = []\<rparr>"

lemma sample_token: "same_token sample_probe (listener_init sample_probe)"
  by (simp add: same_token_def listener_init_def sample_probe_def)

theorem probe_handshake_agreement_witness:
  "\<exists>reply p'. phase_3 toy_crypto sample_env [8] (Some reply) sample_probe =
     (True, p', [(p_init_packet sample_probe (x25519_public toy_crypto [8]) (now_us sample_env div 1000), pb_dest sample_probe)])"
proof -
  have ok: "send_ok sample_env" by (simp add: sample_env_def)
  show ?thesis
    using probe_handshake_agreement [OF toy_crypto_ok sample_token refl ok ok, where server_priv = "[7]" and cpriv = "[8]"]
    by blast
qed

lemma p_mask_12: "length iv = 12 \<Longrightarrow> p_mask_unmask_header C d k iv = q_mask_unmask_header C d k iv"
  by (simp add: p_mask_unmask_header_def q_mask_unmask_header_def)

text \<open>An unaltered packet of the auditor, taken apart by the listener.\<close>

lemma p_packet_parts:
  fixes payload :: bytes and e :: entropy
  assumes "crypto_ok C" "length (pb_raw_kid p) = 8" "length (pb_mask_key p) = 32" "length key = 32" "junk < 65536" "seq < 2 ^ 64"
  defines "pkt \<equiv> p_packet C e p key seq junk 0 payload" and "off \<equiv> 28 + junk"
  shows "p_mask_unmask_header C (slice pkt 12 28) (pb_mask_key p) (slice pkt 0 12) = plain_header (pb_raw_kid p) junk 0 \<and>
    length pkt = 56 + junk + length payload \<and> pkt ! 0 = of_nat (e 36) \<and>
    le_val (take 8 (slice pkt off (off + 12))) = seq \<and>
    aead_decrypt C key (slice pkt off (off + 12)) (drop (off + 12) pkt) (Some (take off pkt)) = Some payload"
proof -
  let ?iv = "token_bytes e 36 12" and ?junk = "token_bytes e 48 junk" and ?nonce = "p_nonce e seq"
  let ?m = "q_mask_unmask_header C (plain_header (pb_raw_kid p) junk 0) (pb_mask_key p) ?iv"
  let ?hdr = "?iv @ ?m @ ?junk"
  let ?ct = "aead_encrypt C key ?nonce payload (Some ?hdr)"
  have liv: "length ?iv = 12" "length ?junk = junk" by (simp_all add: length_token_bytes)
  have lm: "length ?m = 16" by (rule length_q_header [OF assms(1,2)])
  have ln: "length ?nonce = 12" by (simp add: p_nonce_def pybytes)
  have pkt: "pkt = (?iv @ ?m @ ?junk) @ ?nonce @ ?ct"
    by (simp add: pkt_def p_packet_def Let_def p_mask_12 [OF liv(1)])
  have s: "slice pkt 12 28 = ?m" "slice pkt 0 12 = ?iv" "slice pkt off (off + 12) = ?nonce" "drop (off + 12) pkt = ?ct"
    "take off pkt = ?hdr"
    using liv lm ln by (simp_all add: pkt slice_def off_def)
  have "p_mask_unmask_header C (slice pkt 12 28) (pb_mask_key p) (slice pkt 0 12) = plain_header (pb_raw_kid p) junk 0"
    unfolding s p_mask_12 [OF liv(1)] using liv by (simp add: q_mask_unmask_header_def chacha20_involution [OF assms(1,3)])
  moreover have "length pkt = 56 + junk + length payload"
    using liv lm ln length_aead [OF assms(1,4) ln, of payload "Some ?hdr"] by (simp add: pkt)
  moreover have "pkt ! 0 = of_nat (e 36)"
    by (simp add: pkt token_bytes_def nth_append)
  moreover have "le_val (take 8 ?nonce) = seq"
    using le_val_le_bytes [of seq 8] assms(6) by (simp add: p_nonce_def length_le_bytes)
  ultimately show ?thesis
    using aead_roundtrip [OF assms(1,4) ln, of payload "Some ?hdr"] unfolding s by blast
qed

lemma listener_packet:
  assumes "crypto_ok C" "same_token p st" "length key = 32" "junk < 65536" "seq < 2 ^ 64"
    and "ls_recv_key st = Some key" "of_nat (e 36) \<noteq> (1 :: byte)" "2 \<le> length payload"
  shows "run_server C E priv pub st a (p_packet C e p key seq junk 0 payload) =
    (if seq \<in> ls_seen st then (st, [LsReplayDrop seq a])
     else (st\<lparr>ls_seen := insert seq (ls_seen st)\<rparr>,
           [LsDataOk seq (utf8_decode_replace (slice payload 2 (2 + be_val (slice payload 0 2)))) a]))"
proof -
  let ?pkt = "p_packet C e p key seq junk 0 payload"
  have k: "length (pb_raw_kid p) = 8" "length (pb_mask_key p) = 32" "ls_raw_kid st = pb_raw_kid p" "ls_mask_key st = pb_mask_key p"
    using assms(2) by (simp_all add: same_token_def)
  note P = p_packet_parts [OF assms(1) k(1,2) assms(3-5), of e payload]
  note F = plain_header_fields [OF k(1) assms(4), of 0]
  have data: "ls_data C st a ?pkt key =
      (if seq \<in> ls_seen st then (st, [LsReplayDrop seq a])
       else (st\<lparr>ls_seen := insert seq (ls_seen st)\<rparr>,
             [LsDataOk seq (utf8_decode_replace (slice payload 2 (2 + be_val (slice payload 0 2)))) a]))"
    using P F k(3,4) assms(8) by (simp add: ls_data_def Let_def ls_seen_check_def)
  have "56 \<le> length ?pkt" "?pkt ! 0 \<noteq> 1" using P assms(7) by simp_all
  then show ?thesis using data assms(6) by (auto simp: run_server_def)
qed

text \<open>What phase 5 claims holds for the listener: the packet is accepted with its text the first time, and the
  identical copy is dropped as a replay; but the auditor does not look, it logs its verdict as
  soon as both sends succeed.\<close>
theorem probe_replay_blocked:
  assumes "crypto_ok C" "same_token p st" "ls_recv_key st = Some key" "length key = 32" "send_ok E"
    and "pb_tx_seq p + 1 \<notin> ls_seen st" "pb_tx_seq p + 1 < 2 ^ 64" "of_nat (ent E 36) \<noteq> (1 :: byte)"
  shows "\<exists>p' pkt st'. phase_5 C E True key p = (p', [(pkt, pb_dest p), (pkt, pb_dest p)]) \<and>
    pb_audit p' = pb_audit p @ [(''5.1'', PASS, ReplayBlocked)] \<and>
    run_server C E1 priv pub st a pkt = (st', [LsDataOk (pb_tx_seq p + 1) (ustr ''REPLAY_TEST'') a]) \<and>
    run_server C E2 priv pub st' a pkt = (st', [LsReplayDrop (pb_tx_seq p + 1) a])"
proof -
  let ?p1 = "p\<lparr>pb_tx_seq := pb_tx_seq p + 1\<rparr>" and ?seq = "pb_tx_seq p + 1"
  let ?payload = "be_bytes 2 11 @ bstr ''REPLAY_TEST'' @ token_bytes (ent E) 4 32"
  let ?pkt = "p_packet C (ent E) ?p1 key ?seq 0 0 ?payload"
  let ?st = "st\<lparr>ls_seen := insert ?seq (ls_seen st)\<rparr>"
  have t: "same_token ?p1 st" "same_token ?p1 ?st" using assms(2) by (simp_all add: same_token_def)
  have l: "(0 :: nat) < 65536" "2 \<le> length ?payload" by (simp_all add: length_be_bytes)
  have len: "length (bstr ''REPLAY_TEST'') = 11" by (simp add: length_bstr)
  have "be_val (slice ?payload 0 2) = 11" "slice ?payload 2 13 = bstr ''REPLAY_TEST''"
    using len by (simp_all add: slice_def length_be_bytes be_val_be_bytes)
  moreover have "utf8_decode_replace (bstr ''REPLAY_TEST'') = ustr ''REPLAY_TEST''"
    using utf8_replace_ascii [of "ustr ''REPLAY_TEST''"] by (simp add: ustr_def bstr_def ascii_def)
  ultimately have word: "utf8_decode_replace (slice ?payload 2 (2 + be_val (slice ?payload 0 2))) = ustr ''REPLAY_TEST''"
    by simp
  have "run_server C E1 priv pub st a ?pkt = (?st, [LsDataOk ?seq (ustr ''REPLAY_TEST'') a])"
    using listener_packet [where e = "ent E", OF assms(1) t(1) assms(4) l(1) assms(7,3,8) l(2), of E1 priv pub a] assms(6)
    by (simp only: word if_False)
  moreover have "run_server C E2 priv pub ?st a ?pkt = (?st, [LsReplayDrop ?seq a])"
    using listener_packet [where e = "ent E", OF assms(1) t(2) assms(4) l(1) assms(7) _ assms(8) l(2), of E2 priv pub a] assms(3)
    by simp
  moreover have "phase_5 C E True key p = (log_step ''5.1'' PASS ReplayBlocked ?p1, [(?pkt, pb_dest p), (?pkt, pb_dest p)])"
    using assms(5) by (simp add: phase_5_def Let_def)
  ultimately show ?thesis by (intro exI conjI) (assumption | simp add: log_step_def)+
qed

theorem probe_replay_blocked_witness:
  "\<exists>pkt st'. run_server toy_crypto sample_env [7] [] ((listener_init sample_probe)\<lparr>ls_recv_key := Some (replicate 32 4)\<rparr>)
      (ustr ''10.0.0.2'', 4000) pkt = (st', [LsDataOk 1 (ustr ''REPLAY_TEST'') (ustr ''10.0.0.2'', 4000)]) \<and>
    run_server toy_crypto sample_env [7] [] st' (ustr ''10.0.0.2'', 4000) pkt =
      (st', [LsReplayDrop 1 (ustr ''10.0.0.2'', 4000)])"
proof -
  let ?st = "(listener_init sample_probe)\<lparr>ls_recv_key := Some (replicate 32 4)\<rparr>"
  have t: "same_token sample_probe ?st" using sample_token by (simp add: same_token_def)
  have h: "ls_recv_key ?st = Some (replicate 32 4)" "length (replicate 32 (4 :: byte)) = 32" "send_ok sample_env"
    "pb_tx_seq sample_probe + 1 \<notin> ls_seen ?st" "pb_tx_seq sample_probe + 1 < 2 ^ 64" "of_nat (ent sample_env 36) \<noteq> (1 :: byte)"
    by (simp_all add: listener_init_def sample_probe_def sample_env_def)
  have "pb_tx_seq sample_probe + 1 = 1" by (simp add: sample_probe_def)
  with probe_replay_blocked [OF toy_crypto_ok t h, of sample_env "[7]" "[]" "(ustr ''10.0.0.2'', 4000)" sample_env]
  show ?thesis by (auto simp del: One_nat_def)
qed

text \<open>Any number of datagrams, from anybody, and the numbers that the listener reports as data.\<close>

fun listener_run :: "crypto \<Rightarrow> bytes \<Rightarrow> bytes \<Rightarrow> listener \<Rightarrow> (env \<times> addr \<times> bytes) list \<Rightarrow> ls_out list" where
  "listener_run C priv pub st [] = []"
| "listener_run C priv pub st ((E, a, d) # ds) =
     (case run_server C E priv pub st a d of (st', outs) \<Rightarrow> outs @ listener_run C priv pub st' ds)"

definition data_seqs :: "ls_out list \<Rightarrow> nat list" where
  "data_seqs outs = concat (map (\<lambda>x. case x of LsDataOk q _ _ \<Rightarrow> [q] | _ \<Rightarrow> []) outs)"

interpretation ls: replay_guard ls_seen_check "\<lambda>s q. q \<in> s" "\<lambda>_. True"
  by unfold_locales (auto simp: ls_seen_check_def)

lemma run_server_seen:
  assumes "run_server C E priv pub st a d = (st', outs)"
  shows "ls_seen st \<subseteq> ls_seen st' \<and> (data_seqs outs = [] \<or>
    (\<exists>q. data_seqs outs = [q] \<and> q \<notin> ls_seen st \<and> q \<in> ls_seen st'))"
  using assms
  by (auto simp: run_server_def ls_handshake_def ls_data_def ls_seen_check_def data_seqs_def Let_def
      split: if_splits option.splits)

text \<open>The listener reports no sequence number twice as received data, whatever datagrams arrive from whomever
  and whatever handshakes come between them.\<close>
theorem listener_reports_once: "distinct (data_seqs (listener_run C priv pub st ds))"
proof -
  have "distinct (data_seqs (listener_run C priv pub st ds)) \<and> set (data_seqs (listener_run C priv pub st ds)) \<inter> ls_seen st = {}"
  proof (induction C priv pub st ds rule: listener_run.induct)
    case (2 C priv pub st E a d ds)
    obtain st' outs where r: "run_server C E priv pub st a d = (st', outs)" by fastforce
    have app: "data_seqs (xs @ ys) = data_seqs xs @ data_seqs ys" for xs ys by (simp add: data_seqs_def)
    show ?case using 2 [OF r [symmetric]] run_server_seen [OF r] r by (auto simp: app)
  qed (simp add: data_seqs_def)
  then show ?thesis by blast
qed

end
