(* ===== verification/Attack.thy ===== *)
theory Attack
  imports Probe
begin

text \<open>
  aegs_attack_probe.py: seven attacks on a server and the verdicts that the script prints. The keys
  are derived as in remote_security_probe.py. Per attack the model takes what arrives on the
  socket and whether sends succeed; an attack that does not guard its send ends the script.
\<close>

record tester =
  at_dest :: addr
  at_raw_kid :: bytes
  at_master_key :: bytes
  at_mask_key :: bytes
  at_payload_key :: bytes
  at_results :: "(nat \<times> bool) list"

definition tester_init :: "crypto \<Rightarrow> addr \<Rightarrow> bytes \<Rightarrow> tester" where
  "tester_init C dest tok =
     (let raw_kid = take 8 (sha256 tok); mk = p_pbkdf2_sha256 tok (hex_of raw_kid)
      in \<lparr>at_dest = dest, at_raw_kid = raw_kid, at_master_key = mk,
          at_mask_key = p_hkdf_expand C mk (bstr ''aegis-v2-header-mask'') 32,
          at_payload_key = p_hkdf_expand C mk (bstr ''aegis-v2-payload-key'') 32, at_results = []\<rparr>)"

type_synonym attack_res = "tester \<times> (bytes \<times> addr) list \<times> pyexn option"

definition log_attack :: "nat \<Rightarrow> bool \<Rightarrow> tester \<Rightarrow> tester" where
  "log_attack n defended t = t\<lparr>at_results := at_results t @ [(n, defended)]\<rparr>"

text \<open>What the network does during the script: per send its success, per wait the datagram.\<close>

record attack_world =
  aw_send_ok :: "nat \<Rightarrow> nat \<Rightarrow> bool"
  aw_arrival :: "nat \<Rightarrow> nat \<Rightarrow> bytes option"
  aw_ent :: "nat \<Rightarrow> entropy"
  aw_priv :: "nat \<Rightarrow> bytes"
  aw_now_ms :: nat

definition small_probes :: "bytes list" where
  "small_probes = [bstr ''A'', bstr ''PING'', replicate 19 0]"

definition attack_amplification_reflection :: "attack_world \<Rightarrow> tester \<Rightarrow> attack_res" where
  "attack_amplification_reflection W t =
     (let sent = filter (aw_send_ok W 1) [0..<3];
          reflected = sum_list (map (\<lambda>i. case aw_arrival W 1 i of None \<Rightarrow> 0 | Some d \<Rightarrow> length (take 4096 d)) sent)
      in (log_attack 1 (reflected = 0) t, map (\<lambda>i. (small_probes ! i, at_dest t)) sent, None))"

definition at_init_body :: "tester \<Rightarrow> bytes \<Rightarrow> nat \<Rightarrow> bytes" where
  "at_init_body t pub now_ms = [1] @ replicate 7 0 @ at_raw_kid t @ pub @ be_bytes 8 now_ms"

text \<open>Whether the tester detects the answer in which it has flipped a bit of the server's key.\<close>

definition mitm_detected :: "crypto \<Rightarrow> bytes \<Rightarrow> tester \<Rightarrow> bytes \<Rightarrow> bool" where
  "mitm_detected C priv t resp =
     (if length resp \<le> 16 then True
      else
        (let tampered = resp[16 := resp ! 16 XOR 1]; epk = slice tampered 16 48 in
         if length epk \<noteq> 32 then True
         else (case x25519_exchange C priv epk of
             None \<Rightarrow> True
           | Some shared \<Rightarrow>
               aead_decrypt C (p_hkdf_extract_and_expand C shared (at_master_key t) (bstr ''aegs-s2c'') 32)
                 (replicate 12 0) (drop 48 tampered) (Some (take 48 tampered)) = None)))"

definition attack_handshake_mitm :: "crypto \<Rightarrow> attack_world \<Rightarrow> tester \<Rightarrow> attack_res" where
  "attack_handshake_mitm C W t =
     (let body = at_init_body t (x25519_public C (aw_priv W 2)) (aw_now_ms W);
          pkt = body @ take 16 (hmac_sha256 (at_master_key t) body)
      in if \<not> aw_send_ok W 2 0 then (log_attack 2 True t, [], None)
         else (case aw_arrival W 2 0 of
             None \<Rightarrow> (log_attack 2 True t, [(pkt, at_dest t)], None)
           | Some resp \<Rightarrow>
               (log_attack 2 (mitm_detected C (aw_priv W 2) t (take 4096 resp)) t, [(pkt, at_dest t)], None)))"

text \<open>One unguarded send, and the verdict that nothing comes back.\<close>

definition silent_attack :: "nat \<Rightarrow> attack_world \<Rightarrow> bytes \<Rightarrow> tester \<Rightarrow> attack_res" where
  "silent_attack n W pkt t =
     (if \<not> aw_send_ok W n 0 then (t, [], Some OSError)
      else (log_attack n (aw_arrival W n 0 = None) t, [(pkt, at_dest t)], None))"

definition attack_forged_handshake :: "crypto \<Rightarrow> attack_world \<Rightarrow> tester \<Rightarrow> attack_res" where
  "attack_forged_handshake C W t =
     silent_attack 3 W (at_init_body t (x25519_public C (aw_priv W 3)) (aw_now_ms W) @ bstr ''WRONG_ATTACK_MAC'') t"

text \<open>A data packet under the static payload key: header IV, masked header, nonce, ciphertext.\<close>

definition at_parts :: "crypto \<Rightarrow> entropy \<Rightarrow> tester \<Rightarrow> nat \<Rightarrow> bytes \<Rightarrow> bytes \<times> bytes \<times> bytes \<times> bytes" where
  "at_parts C e t seq text =
     (let nonce = le_bytes 8 seq @ token_bytes e 0 4;
          hdr_iv = token_bytes e 4 12;
          masked_hdr = p_mask_unmask_header C (plain_header (at_raw_kid t) 0 0) (at_mask_key t) hdr_iv;
          ct = aead_encrypt C (at_payload_key t) nonce (be_bytes 4 1 @ [2] @ text) (Some (hdr_iv @ masked_hdr))
      in (hdr_iv, masked_hdr, nonce, ct))"

definition attack_chaff_bit_flip :: "crypto \<Rightarrow> attack_world \<Rightarrow> tester \<Rightarrow> attack_res" where
  "attack_chaff_bit_flip C W t =
     (case at_parts C (aw_ent W 4) t 100 (bstr ''TEST_DATA_PAYLOAD'') of
        (iv, hdr, nonce, ct) \<Rightarrow> silent_attack 4 W (iv @ hdr[10 := hdr ! 10 XOR 0x80] @ nonce @ ct) t)"

definition attack_iv_bit_flip :: "crypto \<Rightarrow> attack_world \<Rightarrow> tester \<Rightarrow> attack_res" where
  "attack_iv_bit_flip C W t =
     (case at_parts C (aw_ent W 5) t 101 (bstr ''TEST_IV_ATTACK'') of
        (iv, hdr, nonce, ct) \<Rightarrow> silent_attack 5 W (iv[0 := iv ! 0 XOR 0xFF] @ hdr @ nonce @ ct) t)"

definition attack_replay :: "crypto \<Rightarrow> attack_world \<Rightarrow> tester \<Rightarrow> attack_res" where
  "attack_replay C W t =
     (case at_parts C (aw_ent W 6) t 102 (bstr ''REPLAY_PACKET'') of
        (iv, hdr, nonce, ct) \<Rightarrow>
          (let pkt = (iv @ hdr @ nonce @ ct, at_dest t) in
           if \<not> aw_send_ok W 6 0 then (t, [], Some OSError)
           else if \<not> aw_send_ok W 6 1 then (t, [pkt], Some OSError)
           else (log_attack 6 True t, [pkt, pkt], None)))"

definition fuzz_packets :: "entropy \<Rightarrow> bytes list" where
  "fuzz_packets e = [token_bytes e 0 56, bstr ''AG2'' @ [1] @ token_bytes e 56 60, replicate 1200 0xFF, token_bytes e 116 1500]"

definition attack_malformed_fuzz :: "attack_world \<Rightarrow> tester \<Rightarrow> attack_res" where
  "attack_malformed_fuzz W t =
     (let sent = filter (aw_send_ok W 7) [0..<4] in
      (log_attack 7 (length sent = 4) t, map (\<lambda>i. (fuzz_packets (aw_ent W 7) ! i, at_dest t)) sent, None))"

fun run_attacks :: "(tester \<Rightarrow> attack_res) list \<Rightarrow> tester \<Rightarrow> attack_res" where
  "run_attacks [] t = (t, [], None)"
| "run_attacks (f # fs) t =
     (case f t of
        (t1, s1, Some ex) \<Rightarrow> (t1, s1, Some ex)
      | (t1, s1, None) \<Rightarrow> (case run_attacks fs t1 of (t2, s2, ex) \<Rightarrow> (t2, s1 @ s2, ex)))"

definition run_tester :: "crypto \<Rightarrow> attack_world \<Rightarrow> tester \<Rightarrow> attack_res" where
  "run_tester C W = run_attacks
     [attack_amplification_reflection W, attack_handshake_mitm C W, attack_forged_handshake C W,
      attack_chaff_bit_flip C W, attack_iv_bit_flip C W, attack_replay C W, attack_malformed_fuzz W]"

text \<open>Passed and total, as printed at the end.\<close>

definition summary :: "tester \<Rightarrow> nat \<times> nat" where
  "summary t = (length (filter snd (at_results t)), length (at_results t))"

text \<open>What the tester's seven verdicts depend on when its sends succeed: five of them only on whether an answer
  arrived, or on what was answered to the initiation; the replay and the fuzzing verdict are always
  positive. So a host that never answers, such as one that is switched off, repels all seven attacks.\<close>
theorem attack_verdicts:
  assumes "\<And>n i. aw_send_ok W n i"
  shows "\<exists>t' sent. run_tester C W t = (t', sent, None) \<and>
    at_results t' = at_results t @
      [(1, sum_list (map (\<lambda>i. case aw_arrival W 1 i of None \<Rightarrow> 0 | Some d \<Rightarrow> length (take 4096 d)) [0..<3]) = 0),
       (2, case aw_arrival W 2 0 of None \<Rightarrow> True | Some r \<Rightarrow> mitm_detected C (aw_priv W 2) t (take 4096 r)),
       (3, aw_arrival W 3 0 = None), (4, aw_arrival W 4 0 = None), (5, aw_arrival W 5 0 = None), (6, True), (7, True)] \<and>
    ((\<forall>n i. aw_arrival W n i = None) \<and> at_results t = [] \<longrightarrow> summary t' = (7, 7))"
proof -
  have m: "mitm_detected C priv (log_attack n b t) r = mitm_detected C priv t r" for n b r priv
  proof -
    have "at_master_key (log_attack n b t) = at_master_key t" by (simp add: log_attack_def)
    then show ?thesis by (simp only: mitm_detected_def)
  qed
  have f: "filter (aw_send_ok W n) xs = xs" for n xs using assms by simp
  show ?thesis
    using assms
    by (simp add: run_tester_def attack_amplification_reflection_def attack_handshake_mitm_def f m
        attack_forged_handshake_def silent_attack_def attack_chaff_bit_flip_def attack_iv_bit_flip_def
        attack_replay_def attack_malformed_fuzz_def at_parts_def Let_def split: option.split)
      (auto simp: log_attack_def summary_def)
qed

theorem attack_verdicts_witness:
  "\<exists>t' sent. run_tester toy_crypto \<lparr>aw_send_ok = \<lambda>_ _. True, aw_arrival = \<lambda>_ _. None, aw_ent = \<lambda>_ _. 0, aw_priv = \<lambda>_. [7], aw_now_ms = 0\<rparr>
      \<lparr>at_dest = (ustr ''10.0.0.1'', 50001), at_raw_kid = replicate 8 5, at_master_key = replicate 32 1,
       at_mask_key = replicate 32 2, at_payload_key = replicate 32 3, at_results = []\<rparr> = (t', sent, None) \<and> summary t' = (7, 7)"
  using attack_verdicts [of "\<lparr>aw_send_ok = \<lambda>_ _. True, aw_arrival = \<lambda>_ _. None, aw_ent = \<lambda>_ _. 0, aw_priv = \<lambda>_. [7], aw_now_ms = 0\<rparr>"
      toy_crypto "\<lparr>at_dest = (ustr ''10.0.0.1'', 50001), at_raw_kid = replicate 8 5, at_master_key = replicate 32 1,
       at_mask_key = replicate 32 2, at_payload_key = replicate 32 3, at_results = []\<rparr>"] by auto

end
