(* ===== verification/Monitor.thy ===== *)
theory Monitor
  imports Tunnel
begin

text \<open>
  The server behind other front ends. tools/aegs_server.py is an older copy of the server that does
  not follow the address of a client, and aegs_server_gui.py replaces two methods of a server object
  by wrappers that write into the log of its window. Both differ from \<open>aegs_server.py\<close> in what
  happens to one opened frame, so the way from a datagram to the frame is defined once more with
  that step as an argument; with the server's own step it is the server.
\<close>

section \<open>A datagram with the handling of frames as an argument\<close>

type_synonym 'l opener = "env \<Rightarrow> server \<Rightarrow> addr \<Rightarrow> bytes \<Rightarrow> bytes \<Rightarrow> bool \<Rightarrow> nat \<Rightarrow> srv_res \<times> 'l list"

definition data_frame_with :: "'l opener \<Rightarrow> crypto \<Rightarrow> env \<Rightarrow> server \<Rightarrow> addr \<Rightarrow> bytes \<Rightarrow> srv_res \<times> 'l list" where
  "data_frame_with OF C E st a data =
     (case sv_recv_key st of
        None \<Rightarrow> ((st, [], None), [])
      | Some rk \<Rightarrow>
          (case frame_fields C st data of
             None \<Rightarrow> ((st, [], None), [])
           | Some (is_chaff, off) \<Rightarrow>
               (case check_and_update (sv_replay st) (frame_seq data off) of
                  (Inl e, f) \<Rightarrow> ((st\<lparr>sv_replay := f\<rparr>, [], Some e), [])
                | (Inr dropped, f) \<Rightarrow>
                    if dropped
                    then ((st\<lparr>sv_replay := f\<rparr>, [Log (LogReplayDrop (frame_seq data off) (fst a))], None), [])
                    else OF E (st\<lparr>sv_replay := f\<rparr>) a data rk is_chaff off)))"

definition process_packet_with ::
  "'l opener \<Rightarrow> crypto \<Rightarrow> env \<Rightarrow> server \<Rightarrow> addr \<Rightarrow> bytes \<Rightarrow> bytes \<Rightarrow> bytes \<Rightarrow> srv_res \<times> 'l list" where
  "process_packet_with OF C E st a data server_priv server_pub =
     (if length data < 20 then ((st, [], None), [])
      else if take 2 data = [0, 1] \<and> length data = 20 then
        ((if send_ok E
          then (st, [SendTo (stun_decoy (ent E)) a, Log (LogStun a)], None)
          else (st, [], Some OSError)), [])
      else
        (case masked_handshake C E st a data server_priv server_pub of
           (st1, outs, True) \<Rightarrow> ((st1, outs, None), [])
         | (st1, outs, False) \<Rightarrow>
             if data ! 0 = 1 \<and> length data \<ge> 72 then
               (case raw_handshake C E st1 a data server_priv server_pub of (st2, outs2) \<Rightarrow> ((st2, outs2, None), []))
             else if data ! 0 = 4 \<and> length data \<ge> 97 then
               (case resume_session C st1 a data of (st2, outs2) \<Rightarrow> ((st2, outs2, None), []))
             else data_frame_with OF C E st1 a data))"

definition on_datagram_with ::
  "'l opener \<Rightarrow> crypto \<Rightarrow> env \<Rightarrow> server \<Rightarrow> addr \<Rightarrow> bytes \<Rightarrow> bytes \<Rightarrow> bytes \<Rightarrow> (server \<times> srv_out list) \<times> 'l list" where
  "on_datagram_with OF C E st a data server_priv server_pub =
     (if data = [] then ((st, []), [])
      else
        (case process_packet_with OF C E
                (st\<lparr>sv_packets_rx := sv_packets_rx st + 1, sv_bytes_rx := sv_bytes_rx st + length data\<rparr>)
                a data server_priv server_pub of
           ((st', outs, _), log) \<Rightarrow> ((st', outs), log)))"

text \<open>Whatever relation the results of two ways to open a frame have, those of a datagram have it.\<close>

lemma on_datagram_with_rel:
  assumes "\<And>st rk c off. R (OF E st a data rk c off) (open_frame C E st a data rk c off)"
    and "\<And>res. R (res, []) res"
  shows "\<exists>r1 r2. R r1 r2 \<and> on_datagram_with OF C E st a data priv pub =
      (case r1 of ((st', outs, _), log) \<Rightarrow> ((st', outs), log)) \<and>
    on_datagram C E st a data priv pub = (case r2 of (st', outs, _) \<Rightarrow> (st', outs))"
proof -
  have frame: "R (data_frame_with OF C E s a data) (data_frame C E s a data)" for s
    using assms(1,2)
    by (auto simp: data_frame_with_def data_frame_def split: option.split prod.split sum.split)
  have pkt: "R (process_packet_with OF C E s a data priv pub) (process_packet C E s a data priv pub)" for s
    using assms(2) frame
    by (auto simp: process_packet_with_def process_packet_def split: option.split prod.split bool.split)
  show ?thesis
  proof (cases "data = []")
    case True
    then show ?thesis using assms(2) [of "(st, [], None)"]
      by (intro exI [of _ "((st, [], None), [])"] exI [of _ "(st, [], None)"])
        (simp add: on_datagram_with_def on_datagram_def)
  next
    case False
    let ?st = "st\<lparr>sv_packets_rx := sv_packets_rx st + 1, sv_bytes_rx := sv_bytes_rx st + length data\<rparr>"
    show ?thesis using pkt [of ?st] False
      by (intro exI [of _ "process_packet_with OF C E ?st a data priv pub"] exI [of _ "process_packet C E ?st a data priv pub"])
        (simp add: on_datagram_with_def on_datagram_def)
  qed
qed

section \<open>The older server\<close>

definition tools_open_frame ::
  "crypto \<Rightarrow> env \<Rightarrow> server \<Rightarrow> addr \<Rightarrow> bytes \<Rightarrow> bytes \<Rightarrow> bool \<Rightarrow> nat \<Rightarrow> srv_res \<times> unit list" where
  "tools_open_frame C E st a data rk is_chaff off =
     (case aead_decrypt C rk (frame_nonce data off) (drop (off + 12) data) (Some (slice data 0 off)) of
        None \<Rightarrow> ((st, [Log (LogTamperDrop (fst a))], None), [])
      | Some pt \<Rightarrow>
          ((if is_chaff then (st, [Log (LogChaff (fst a) (length data))], None)
            else handle_client_payload E st pt a), []))"

definition tools_on_datagram ::
  "crypto \<Rightarrow> env \<Rightarrow> server \<Rightarrow> addr \<Rightarrow> bytes \<Rightarrow> bytes \<Rightarrow> bytes \<Rightarrow> server \<times> srv_out list" where
  "tools_on_datagram C E st a data server_priv server_pub =
     fst (on_datagram_with (tools_open_frame C) C E st a data server_priv server_pub)"

section \<open>The window\<close>

datatype gui_line =
    FriendConnected ustr addr hs_mode
  | Traffic ustr ustr ustr nat
  | ServerStarted ustr
  | ServerStopped ustr

text \<open>\<open>gui_handle\<close>: a line for a connect request, then the server's own method.\<close>

definition gui_handle :: "env \<Rightarrow> server \<Rightarrow> bytes \<Rightarrow> addr \<Rightarrow> srv_res \<times> gui_line list" where
  "gui_handle E st pt a =
     (if length pt \<ge> 5 \<and> pt ! 4 = 1 then
        (case py_get pt 5 of
           Inl e \<Rightarrow> ((st, [], Some e), [])
         | Inr hl \<Rightarrow>
             (let host_len = unat hl;
                  host = utf8_decode_replace (slice pt 6 (6 + host_len));
                  port = be_val (slice pt (6 + host_len) (8 + host_len))
              in (handle_client_payload E st pt a, [Traffic (clock_str E) (fst a) host port])))
      else (handle_client_payload E st pt a, []))"

definition gui_open_frame ::
  "crypto \<Rightarrow> env \<Rightarrow> server \<Rightarrow> addr \<Rightarrow> bytes \<Rightarrow> bytes \<Rightarrow> bool \<Rightarrow> nat \<Rightarrow> srv_res \<times> gui_line list" where
  "gui_open_frame C E st a data rk is_chaff off =
     (case aead_decrypt C rk (frame_nonce data off) (drop (off + 12) data) (Some (slice data 0 off)) of
        None \<Rightarrow> ((st, [Log (LogTamperDrop (fst a))], None), [])
      | Some pt \<Rightarrow>
          (let st1 = (if sv_client_addr st \<noteq> Some a then st\<lparr>sv_client_addr := Some a\<rparr> else st)
           in if is_chaff
              then ((st1, [Log (LogChaff (fst a) (length data))], None), [])
              else gui_handle E st1 pt a))"

text \<open>\<open>gui_banner\<close>: a line for every banner that the server prints.\<close>

definition gui_banner :: "env \<Rightarrow> srv_out list \<Rightarrow> gui_line list" where
  "gui_banner E outs = concat (map (\<lambda>x. case x of Log (LogConnected a m) \<Rightarrow> [FriendConnected (clock_str E) a m] | _ \<Rightarrow> []) outs)"

definition gui_on_datagram ::
  "crypto \<Rightarrow> env \<Rightarrow> server \<Rightarrow> addr \<Rightarrow> bytes \<Rightarrow> bytes \<Rightarrow> bytes \<Rightarrow> (server \<times> srv_out list) \<times> gui_line list" where
  "gui_on_datagram C E st a data server_priv server_pub =
     (case on_datagram_with (gui_open_frame C) C E st a data server_priv server_pub of
        ((st', outs), log) \<Rightarrow> ((st', outs), gui_banner E outs @ log))"

record gui_row =
  gr_ip :: ustr
  gr_port :: ustr
  gr_time :: ustr

record gui =
  gu_server :: "server option"
  gu_closed :: bool
  gu_running :: bool
  gu_queue :: "gui_line list"
  gu_text :: "gui_line list"
  gu_rows :: "gui_row list"
  gu_count :: nat
  gu_online :: bool
  gu_start_enabled :: bool
  gu_stop_enabled :: bool

definition gui_init :: gui where
  "gui_init = \<lparr>gu_server = None, gu_closed = False, gu_running = False, gu_queue = [], gu_text = [], gu_rows = [],
     gu_count = 0, gu_online = False, gu_start_enabled = True, gu_stop_enabled = False\<rparr>"

definition gui_log :: "gui_line \<Rightarrow> gui \<Rightarrow> gui" where
  "gui_log l g = g\<lparr>gu_queue := gu_queue g @ [l]\<rparr>"

text \<open>
  The periodic call: the queue is shown; \<open>clients\<close> is \<open>list(active_clients.values())\<close>, in the order of
  insertion. The addresses already shown are read before the loop, so two new clients with
  one address get two rows.
\<close>

definition process_log_queue :: "client_info list \<Rightarrow> gui \<Rightarrow> gui" where
  "process_log_queue clients g =
     (let g1 = g\<lparr>gu_text := gu_text g @ gu_queue g, gu_queue := []\<rparr> in
      case gu_server g of
        None \<Rightarrow> g1
      | Some _ \<Rightarrow>
          (let existing = map gr_ip (gu_rows g);
               fresh = filter (\<lambda>c. fst (ci_addr c) \<notin> set existing) clients
           in g1\<lparr>gu_count := length clients,
                 gu_rows := gu_rows g @ map (\<lambda>c. \<lparr>gr_ip = fst (ci_addr c), gr_port = str_nat (snd (ci_addr c)),
                     gr_time = ci_connected_at c\<rparr>) fresh\<rparr>))"

text \<open>\<open>AegsServer(base_port=50001, port_count=5)\<close> with the default token; it does not raise.\<close>

definition default_token :: ustr where
  "default_token = ustr ''aegs-super-secret-user-token-for-auditing-2026''"

definition start_server :: "crypto \<Rightarrow> ustr \<Rightarrow> gui \<Rightarrow> gui" where
  "start_server C now g =
     (if gu_running g then g
      else
        (case server_init C 50001 default_token 5 of
           Inl _ \<Rightarrow> g\<lparr>gu_running := True\<rparr>
         | Inr sv \<Rightarrow>
             gui_log (ServerStarted now) (g\<lparr>gu_running := True, gu_server := Some sv, gu_closed := False,
               gu_online := True, gu_start_enabled := False, gu_stop_enabled := True\<rparr>)))"

definition stop_server :: "ustr \<Rightarrow> gui \<Rightarrow> gui" where
  "stop_server now g =
     (if \<not> gu_running g then g
      else gui_log (ServerStopped now) (g\<lparr>gu_running := False, gu_closed := True,
        gu_online := False, gu_start_enabled := True, gu_stop_enabled := False\<rparr>))"

definition clear_log :: "gui \<Rightarrow> gui" where
  "clear_log g = g\<lparr>gu_text := []\<rparr>"

text \<open>
  What happens to the window: a datagram reaches the thread of the current server, a timer runs, a
  button that is enabled is pressed. With its sockets closed, every turn of the thread raises in
  \<open>select\<close> and is caught, so no datagram is handled.
\<close>

datatype gui_event =
    Datagram env addr bytes bytes bytes
  | Timer "client_info list"
  | AutoStart ustr
  | PressStart ustr
  | PressStop ustr
  | PressClear

definition gui_event_step :: "crypto \<Rightarrow> gui_event \<Rightarrow> gui \<Rightarrow> gui \<times> srv_out list" where
  "gui_event_step C ev g =
     (case ev of
        Datagram E a d priv pub \<Rightarrow>
          (case gu_server g of
             None \<Rightarrow> (g, [])
           | Some sv \<Rightarrow>
               if gu_closed g then (g, [])
               else (case gui_on_datagram C E sv a d priv pub of
                   ((sv', outs), log) \<Rightarrow> (g\<lparr>gu_server := Some sv', gu_queue := gu_queue g @ log\<rparr>, outs)))
      | Timer clients \<Rightarrow> (process_log_queue clients g, [])
      | AutoStart now \<Rightarrow> (start_server C now g, [])
      | PressStart now \<Rightarrow> (if gu_start_enabled g then start_server C now g else g, [])
      | PressStop now \<Rightarrow> (if gu_stop_enabled g then stop_server now g else g, [])
      | PressClear \<Rightarrow> (clear_log g, []))"

fun gui_events :: "crypto \<Rightarrow> gui_event list \<Rightarrow> gui \<Rightarrow> gui \<times> srv_out list" where
  "gui_events C [] g = (g, [])"
| "gui_events C (ev # evs) g =
     (case gui_event_step C ev g of
        (g1, outs) \<Rightarrow> (case gui_events C evs g1 of (g2, outs2) \<Rightarrow> (g2, outs @ outs2)))"

section \<open>Properties\<close>

text \<open>The wrapper raises only where the wrapped method raises, and the same.\<close>

lemma gui_handle_transparent: "fst (gui_handle E st pt a) = handle_client_payload E st pt a"
proof (cases "length pt \<ge> 5 \<and> pt ! 4 = 1")
  case True
  then show ?thesis
    by (auto simp: gui_handle_def handle_client_payload_def cmd_defs Let_def py_get_def split: sum.split)
qed (auto simp: gui_handle_def)

lemma gui_open_frame_transparent: "fst (gui_open_frame C E st a data rk c off) = open_frame C E st a data rk c off"
  by (simp add: gui_open_frame_def open_frame_def gui_handle_transparent Let_def split: option.split)


text \<open>The inner frame is handled without a look at the client's address.\<close>

lemma payload_addr:
  "handle_client_payload E (st\<lparr>sv_client_addr := x\<rparr>) pt a =
     (case handle_client_payload E st pt a of (s, outs, ex) \<Rightarrow> (s\<lparr>sv_client_addr := x\<rparr>, outs, ex))"
  "sv_client_addr (fst (handle_client_payload E st pt a)) = sv_client_addr st"
  by (auto simp: handle_client_payload_def Let_def split: sum.split option.split)

definition addr_apart :: "addr \<Rightarrow> srv_res \<times> unit list \<Rightarrow> srv_res \<Rightarrow> bool" where
  "addr_apart a x y \<longleftrightarrow> (case x of ((s1, o1, e1), _) \<Rightarrow> case y of (s2, o2, e2) \<Rightarrow>
     o1 = o2 \<and> e1 = e2 \<and> s1\<lparr>sv_client_addr := sv_client_addr s2\<rparr> = s2 \<and>
     (sv_client_addr s1 = sv_client_addr s2 \<or> sv_client_addr s2 = Some a))"

lemma tools_open_frame_apart: "addr_apart a (tools_open_frame C E st a data rk c off) (open_frame C E st a data rk c off)"
proof (cases "aead_decrypt C rk (frame_nonce data off) (drop (off + 12) data) (Some (slice data 0 off))")
  case None
  then show ?thesis by (simp add: addr_apart_def tools_open_frame_def open_frame_def)
next
  case (Some pt)
  obtain s outs ex where h: "handle_client_payload E st pt a = (s, outs, ex)" by (metis prod_cases3)
  have "sv_client_addr s = sv_client_addr st" using payload_addr(2) [of E st pt a] h by simp
  with Some h show ?thesis
    by (simp add: addr_apart_def tools_open_frame_def open_frame_def Let_def payload_addr(1))
qed

text \<open>C38: The older server and the current one agree on every datagram up to the client's address: the answers, the
  effects and the rest of the state are the same. The difference is roaming: a frame that opens makes
  the current server send to the address it came from, while the older one keeps the address it had.\<close>
theorem tools_server_agrees:
  "snd (tools_on_datagram C E st a data priv pub) = snd (on_datagram C E st a data priv pub) \<and>
   (fst (tools_on_datagram C E st a data priv pub))
     \<lparr>sv_client_addr := sv_client_addr (fst (on_datagram C E st a data priv pub))\<rparr> =
     fst (on_datagram C E st a data priv pub) \<and>
   sv_client_addr (fst (fst (tools_open_frame C E st a data rk c off))) = sv_client_addr st \<and>
   sv_client_addr (fst (open_frame C E st a data rk c off)) =
     (if aead_decrypt C rk (frame_nonce data off) (drop (off + 12) data) (Some (slice data 0 off)) = None
      then sv_client_addr st else Some a)"
proof -
  have "\<exists>r1 r2. addr_apart a r1 r2 \<and> on_datagram_with (tools_open_frame C) C E st a data priv pub =
      (case r1 of ((st', outs, _), log) \<Rightarrow> ((st', outs), log)) \<and>
    on_datagram C E st a data priv pub = (case r2 of (st', outs, _) \<Rightarrow> (st', outs))"
    by (rule on_datagram_with_rel [where R = "addr_apart a"])
      (simp_all add: tools_open_frame_apart, auto simp: addr_apart_def)
  then have "snd (tools_on_datagram C E st a data priv pub) = snd (on_datagram C E st a data priv pub)"
    "(fst (tools_on_datagram C E st a data priv pub))
     \<lparr>sv_client_addr := sv_client_addr (fst (on_datagram C E st a data priv pub))\<rparr> =
     fst (on_datagram C E st a data priv pub)"
    by (auto simp: tools_on_datagram_def addr_apart_def)
  moreover have "sv_client_addr (fst (fst (tools_open_frame C E st a data rk c off))) = sv_client_addr st"
    by (simp add: tools_open_frame_def payload_addr(2) split: option.split)
  moreover have "sv_client_addr (fst (open_frame C E st a data rk c off)) =
     (if aead_decrypt C rk (frame_nonce data off) (drop (off + 12) data) (Some (slice data 0 off)) = None
      then sv_client_addr st else Some a)"
    by (auto simp: open_frame_def payload_addr(2) Let_def split: option.split)
  ultimately show ?thesis by blast
qed

text \<open>The window's buttons and status agree with the server.\<close>

definition gui_wf :: "gui \<Rightarrow> bool" where
  "gui_wf g \<longleftrightarrow> gu_stop_enabled g = gu_running g \<and> gu_start_enabled g = (\<not> gu_running g) \<and> gu_online g = gu_running g \<and>
     (gu_running g \<longleftrightarrow> gu_server g \<noteq> None \<and> \<not> gu_closed g)"

lemma default_server: "\<exists>sv. server_init C 50001 default_token 5 = Inr sv \<and> sv_recv_key sv = None \<and> sv_active sv = Map.empty"
proof -
  have "ascii default_token" by (simp add: default_token_def ustr_def ascii_def)
  then have "utf8_encode default_token \<noteq> None" by (simp add: utf8_encode_ascii)
  then show ?thesis by (auto simp: server_init_def Let_def)
qed

lemma gui_event_step_wf:
  assumes "gui_wf g"
  shows "gui_wf (fst (gui_event_step C ev g)) \<and>
    (\<exists>rows. gu_rows (fst (gui_event_step C ev g)) = gu_rows g @ rows) \<and>
    (\<not> gu_running g \<longrightarrow> snd (gui_event_step C ev g) = [])"
proof -
  obtain sv where sv: "server_init C 50001 default_token 5 = Inr sv" using default_server by blast
  show ?thesis using assms
    by (cases ev) (auto simp: gui_event_step_def gui_wf_def start_server_def stop_server_def clear_log_def gui_log_def
        process_log_queue_def sv Let_def split: option.splits prod.splits)
qed

text \<open>In every state that the window can reach, whatever datagrams arrive and whatever is pressed, the two
  buttons and the status agree with whether a server is listening; a server that is stopped handles
  nothing; and a row that was shown once stays, also when its client or the whole server is gone.\<close>
theorem gui_reachable_wf:
  "gui_wf (fst (gui_events C evs gui_init)) \<and>
   (\<exists>rows. gu_rows (fst (gui_events C (evs @ evs') gui_init)) = gu_rows (fst (gui_events C evs gui_init)) @ rows) \<and>
   (gu_running (fst (gui_events C evs gui_init)) \<or>
    snd (gui_event_step C ev (fst (gui_events C evs gui_init))) = [])"
proof -
  have run: "gui_wf (fst (gui_events C es g)) \<and> (\<exists>rows. gu_rows (fst (gui_events C es g)) = gu_rows g @ rows)"
    if "gui_wf g" for es g
    using that
  proof (induction C es g rule: gui_events.induct)
    case (2 C ev evs g)
    obtain g1 outs where r: "gui_event_step C ev g = (g1, outs)" by fastforce
    with 2 gui_event_step_wf [OF 2(2), of C ev] show ?case by (auto split: prod.splits)
  qed simp
  have app: "fst (gui_events C (xs @ ys) g) = fst (gui_events C ys (fst (gui_events C xs g)))" for xs ys g
    by (induction C xs g rule: gui_events.induct) (auto split: prod.splits)
  have i: "gui_wf gui_init" by (simp add: gui_wf_def gui_init_def)
  then show ?thesis
    using run [OF i, of evs] run [of "fst (gui_events C evs gui_init)" evs']
      gui_event_step_wf [of "fst (gui_events C evs gui_init)" C ev] by (auto simp: app)
qed

text \<open>Stopping and starting again makes a new server: every session is gone, while the table still shows its
  clients as active.\<close>
theorem restart_forgets_sessions:
  assumes "gui_wf g" "gu_running g"
  shows "\<exists>sv. gu_server (fst (gui_events C [PressStop t, PressStart t'] g)) = Some sv \<and> sv_recv_key sv = None \<and>
    sv_active sv = Map.empty \<and> gu_rows (fst (gui_events C [PressStop t, PressStart t'] g)) = gu_rows g"
  using default_server [of C] assms
  by (auto simp: gui_event_step_def gui_wf_def start_server_def stop_server_def gui_log_def)

theorem restart_forgets_sessions_witness:
  "\<exists>sv. gu_server (fst (gui_events toy_crypto [PressStop [], PressStart []]
      (fst (gui_events toy_crypto [AutoStart []] gui_init)))) = Some sv \<and> sv_recv_key sv = None"
proof -
  obtain sv where "server_init toy_crypto 50001 default_token 5 = Inr sv" using default_server by blast
  then have "gui_wf (fst (gui_events toy_crypto [AutoStart []] gui_init)) \<and> gu_running (fst (gui_events toy_crypto [AutoStart []] gui_init))"
    by (simp add: gui_event_step_def start_server_def gui_init_def gui_log_def gui_wf_def)
  then show ?thesis using restart_forgets_sessions by blast
qed

end
