(* ===== verification/App.thy ===== *)
theory App
  imports Config
begin

text \<open>
  aegs_app.py: the desktop window around the stored profiles. What the widgets show is part of the
  state: the list of servers, the label of the active one, the link for the phone, the check box
  and the text of the exceptions, status, button, ping and speed. Message boxes and saved files are
  appended to lists. Threads and \<open>after\<close> callbacks are pending entries that events run later. The text
  field of the link is created with \<open>wrap="break"\<close>, which is no wrap mode of Tk; the model is that of the
  window once that option is one that Tk takes.
\<close>

section \<open>State\<close>

datatype conn_status = Disconnected | Connecting | Protected

datatype box =
    BoxSelected
  | BoxNeedKey
  | BoxImported ustr int ustr
  | BoxImportError
  | BoxNeedIp
  | BoxAdded
  | BoxLastServer
  | BoxSplitSaved
  | BoxCopied
  | BoxConfSaved ustr
  | BoxConfError
  | BoxNeedServer

datatype callback = OnConnected | UpdateTelemetry nat nat

text \<open>A line of the list: active mark, name, address, port, and whether it is the service.\<close>

type_synonym srv_line = "bool \<times> ustr \<times> ustr \<times> int \<times> bool"

record app =
  ap_storage :: storage
  ap_connected :: bool
  ap_bytes_rx :: nat
  ap_bytes_tx :: nat
  ap_list :: "srv_line list"
  ap_active :: "(ustr \<times> ustr \<times> int) option"
  ap_uri :: ustr
  ap_var_split :: bool
  ap_bypass :: ustr
  ap_status :: conn_status
  ap_button :: conn_status
  ap_enabled :: bool
  ap_ping :: "nat option"
  ap_speed :: "nat \<times> nat \<times> nat"
  ap_clip :: "ustr option"
  ap_boxes :: "box list"
  ap_files :: "(ustr \<times> ustr) list"
  ap_threads :: nat
  ap_after :: "callback list"

type_synonym app_res = "app \<times> pyexn option"

section \<open>Display\<close>

definition line_of :: "profile \<Rightarrow> srv_line" where
  "line_of p = (pf_active p, pf_name p, pf_ip p, pf_port p, pf_mode p = ustr ''service'')"

definition populate_server_list :: "app \<Rightarrow> app" where
  "populate_server_list a = a\<lparr>ap_list := map line_of (sto_profiles (ap_storage a))\<rparr>"

definition refresh_active_display :: "app \<Rightarrow> app" where
  "refresh_active_display a =
     a\<lparr>ap_active := map_option (\<lambda>p. (pf_name p, pf_ip p, pf_port p)) (get_active (ap_storage a))\<rparr>"

text \<open>\<open>to_uri\<close> raises on a lone surrogate; then the old link stays.\<close>

definition refresh_mobile_display :: "app \<Rightarrow> app_res" where
  "refresh_mobile_display a =
     (case get_active (ap_storage a) of
        None \<Rightarrow> (a, None)
      | Some p \<Rightarrow> (case to_uri p of None \<Rightarrow> (a, Some UnicodeError) | Some u \<Rightarrow> (a\<lparr>ap_uri := u\<rparr>, None)))"

definition show_all :: "app \<Rightarrow> app_res" where
  "show_all a = refresh_mobile_display (refresh_active_display (populate_server_list a))"

definition box :: "box \<Rightarrow> app \<Rightarrow> app" where
  "box b a = a\<lparr>ap_boxes := ap_boxes a @ [b]\<rparr>"

definition default_bypass :: ustr where
  "default_bypass = ustr ''sberbank.ru, tbank.ru, gosuslugi.ru, ya.ru, yandex.ru, vk.com, kinopoisk.ru, ozon.ru, wildberries.ru''"

text \<open>
  The constructor: the check box starts checked whatever the profile says; the text is that of the
  active profile.
\<close>

definition app_init :: "storage \<Rightarrow> app_res" where
  "app_init st =
     show_all \<lparr>ap_storage = st, ap_connected = False, ap_bytes_rx = 0, ap_bytes_tx = 0, ap_list = [],
       ap_active = None, ap_uri = [], ap_var_split = True,
       ap_bypass = (case get_active st of
           Some p \<Rightarrow> if pf_bypass p \<noteq> [] then pf_bypass p else default_bypass
         | None \<Rightarrow> default_bypass),
       ap_status = Disconnected, ap_button = Disconnected, ap_enabled = True, ap_ping = None, ap_speed = (0, 0, 0),
       ap_clip = None, ap_boxes = [], ap_files = [], ap_threads = 0, ap_after = []\<rparr>"

section \<open>Servers\<close>

definition select_server :: "write_result \<Rightarrow> nat option \<Rightarrow> app \<Rightarrow> app_res" where
  "select_server w sel a =
     (case sel of
        None \<Rightarrow> (a, None)
      | Some idx \<Rightarrow>
          (case show_all (a\<lparr>ap_storage := set_active w (int idx) (ap_storage a)\<rparr>) of
             (a1, Some ex) \<Rightarrow> (a1, Some ex)
           | (a1, None) \<Rightarrow> (box BoxSelected a1, None)))"

definition has_aegs_clip :: "ustr option \<Rightarrow> bool" where
  "has_aegs_clip clip =
     (case clip of
        None \<Rightarrow> False
      | Some c \<Rightarrow> has_sub (ustr ''aegs://'') (strip_by is_space c) \<or> has_sub (ustr ''token='') (strip_by is_space c))"

text \<open>What the entry of the dialog holds when it opens.\<close>

definition import_prefill :: "ustr option \<Rightarrow> ustr" where
  "import_prefill clip = (if has_aegs_clip clip then strip_by is_space (the clip) else [])"

text \<open>The whole \<open>try\<close> block: a failure after the profile was stored is reported as a failed import.\<close>

definition do_import ::
  "(ustr \<Rightarrow> bool) \<Rightarrow> (ustr \<Rightarrow> json_profile option) \<Rightarrow> write_result \<Rightarrow> ustr \<Rightarrow> ustr \<Rightarrow> app \<Rightarrow> app_res" where
  "do_import netloc_ok decode_json w entry name_entry a =
     (let raw_uri = strip_by is_space entry in
      if raw_uri = [] then (box BoxNeedKey a, None)
      else
        (case from_uri netloc_ok decode_json raw_uri of
           Inl _ \<Rightarrow> (box BoxImportError a, None)
         | Inr prof \<Rightarrow>
             (let custom_name = strip_by is_space name_entry;
                  prof1 = (if custom_name \<noteq> [] then prof\<lparr>pf_name := custom_name\<rparr> else prof)
              in case show_all (a\<lparr>ap_storage := add_profile w prof1 (ap_storage a)\<rparr>) of
                   (a1, Some _) \<Rightarrow> (box BoxImportError a1, None)
                 | (a1, None) \<Rightarrow> (box (BoxImported (pf_ip prof1) (pf_port prof1) (pf_key_id prof1)) a1, None))))"

definition save_srv :: "write_result \<Rightarrow> ustr \<Rightarrow> ustr \<Rightarrow> ustr \<Rightarrow> ustr \<Rightarrow> app \<Rightarrow> app_res" where
  "save_srv w name_e ip_e port_e token_e a =
     (let ip = strip_by is_space ip_e in
      if ip = [] then (box BoxNeedIp a, None)
      else
        (let port = (case py_int (strip_by is_space port_e) of Some n \<Rightarrow> n | None \<Rightarrow> 50001);
             nm = strip_by is_space name_e;
             prof = (new_profile (if nm \<noteq> [] then nm else ustr ''Custom VPS'') ip)
               \<lparr>pf_port := port, pf_token := strip_by is_space token_e, pf_mode := ustr ''custom''\<rparr>
         in case show_all (a\<lparr>ap_storage := add_profile w prof (ap_storage a)\<rparr>) of
              (a1, Some ex) \<Rightarrow> (a1, Some ex)
            | (a1, None) \<Rightarrow> (box BoxAdded a1, None)))"

definition delete_server :: "write_result \<Rightarrow> nat option \<Rightarrow> app \<Rightarrow> app_res" where
  "delete_server w sel a =
     (case sel of
        None \<Rightarrow> (a, None)
      | Some idx \<Rightarrow>
          if length (sto_profiles (ap_storage a)) \<le> 1 then (box BoxLastServer a, None)
          else show_all (a\<lparr>ap_storage := delete_profile w (int idx) (ap_storage a)\<rparr>))"

section \<open>Settings and phone\<close>

text \<open>A change of the object that \<open>get_active\<close> returns.\<close>

fun change_first :: "('a \<Rightarrow> bool) \<Rightarrow> ('a \<Rightarrow> 'a) \<Rightarrow> 'a list \<Rightarrow> 'a list" where
  "change_first P f [] = []"
| "change_first P f (x # xs) = (if P x then f x # xs else x # change_first P f xs)"

definition change_active :: "(profile \<Rightarrow> profile) \<Rightarrow> storage \<Rightarrow> storage" where
  "change_active f st =
     st\<lparr>sto_profiles :=
       (if list_ex pf_active (sto_profiles st) then change_first pf_active f (sto_profiles st)
        else change_first (\<lambda>_. True) f (sto_profiles st))\<rparr>"

definition on_toggle_split :: "write_result \<Rightarrow> bool \<Rightarrow> app \<Rightarrow> app" where
  "on_toggle_split w checked a =
     (let a1 = a\<lparr>ap_var_split := checked\<rparr> in
      case get_active (ap_storage a) of
        None \<Rightarrow> a1
      | Some _ \<Rightarrow> a1\<lparr>ap_storage := save w (change_active (\<lambda>p. p\<lparr>pf_split_tunnel := checked\<rparr>) (ap_storage a))\<rparr>)"

definition save_split_settings :: "write_result \<Rightarrow> app \<Rightarrow> app" where
  "save_split_settings w a =
     (case get_active (ap_storage a) of
        None \<Rightarrow> a
      | Some _ \<Rightarrow>
          box BoxSplitSaved (a\<lparr>ap_storage := save w (change_active
            (\<lambda>p. p\<lparr>pf_split_tunnel := ap_var_split a, pf_bypass := strip_by is_space (ap_bypass a)\<rparr>) (ap_storage a))\<rparr>))"

definition copy_mobile_uri :: "app \<Rightarrow> app" where
  "copy_mobile_uri a =
     (let uri = strip_by is_space (ap_uri a) in
      if uri \<noteq> [] then box BoxCopied (a\<lparr>ap_clip := Some uri\<rparr>) else a)"

definition conf_name :: "profile \<Rightarrow> ustr" where
  "conf_name p = map (\<lambda>c. if c = 32 then 95 else c) (pf_name p) @ ustr ''.conf''"

text \<open>The file is opened before its text is encoded: when that raises, an empty file is left.\<close>

definition save_mobile_conf :: "bool \<Rightarrow> app \<Rightarrow> app" where
  "save_mobile_conf can_open a =
     (case get_active (ap_storage a) of
        None \<Rightarrow> a
      | Some p \<Rightarrow>
          if \<not> can_open then box BoxConfError a
          else if utf8_encode (to_mobile_conf p) = None
          then box BoxConfError (a\<lparr>ap_files := ap_files a @ [(conf_name p, [])]\<rparr>)
          else box (BoxConfSaved (conf_name p)) (a\<lparr>ap_files := ap_files a @ [(conf_name p, to_mobile_conf p)]\<rparr>))"

section \<open>Connection\<close>

definition disconnect :: "app \<Rightarrow> app" where
  "disconnect a = a\<lparr>ap_connected := False, ap_status := Disconnected, ap_button := Disconnected,
     ap_ping := None, ap_speed := (0, 0, 0)\<rparr>"

text \<open>A press on the button, which the window ignores while it is disabled.\<close>

definition toggle_connect :: "app \<Rightarrow> app" where
  "toggle_connect a =
     (if \<not> ap_connected a then
        (case get_active (ap_storage a) of
           None \<Rightarrow> box BoxNeedServer a
         | Some _ \<Rightarrow> a\<lparr>ap_status := Connecting, ap_button := Connecting, ap_enabled := False,
             ap_threads := ap_threads a + 1\<rparr>)
      else disconnect a)"

text \<open>The thread of the connection wakes after 0.8 seconds; that is all it does.\<close>

definition run_connection :: "app \<Rightarrow> app" where
  "run_connection a =
     (if ap_threads a = 0 then a
      else a\<lparr>ap_threads := ap_threads a - 1, ap_connected := True, ap_after := ap_after a @ [OnConnected]\<rparr>)"

definition on_connected :: "app \<Rightarrow> app" where
  "on_connected a = a\<lparr>ap_status := Protected, ap_button := Protected, ap_enabled := True, ap_ping := Some 22\<rparr>"

definition telemetry_tick :: "nat \<Rightarrow> nat \<Rightarrow> nat \<Rightarrow> app \<Rightarrow> app" where
  "telemetry_tick rx_draw tx_draw ping_draw a =
     (if ap_connected a then
        (let rx_inc = 1200000 + rx_draw mod 2300001; tx_inc = 80000 + tx_draw mod 270001; ping = 21 + ping_draw mod 6
         in a\<lparr>ap_bytes_rx := ap_bytes_rx a + rx_inc, ap_bytes_tx := ap_bytes_tx a + tx_inc,
              ap_after := ap_after a @ [UpdateTelemetry (rx_inc * 8) ping]\<rparr>)
      else a)"

definition update_telemetry_ui :: "nat \<Rightarrow> nat \<Rightarrow> app \<Rightarrow> app" where
  "update_telemetry_ui speed ping a =
     (if ap_connected a
      then a\<lparr>ap_speed := (speed, ap_bytes_rx a, ap_bytes_tx a), ap_ping := Some ping\<rparr> else a)"

definition run_after :: "app \<Rightarrow> app" where
  "run_after a =
     (case ap_after a of
        [] \<Rightarrow> a
      | OnConnected # cs \<Rightarrow> on_connected (a\<lparr>ap_after := cs\<rparr>)
      | UpdateTelemetry s p # cs \<Rightarrow> update_telemetry_ui s p (a\<lparr>ap_after := cs\<rparr>))"

section \<open>Events\<close>

datatype app_event =
    Select write_result "nat option"
  | Import write_result ustr ustr
  | AddServer write_result ustr ustr ustr ustr
  | DeleteServer write_result "nat option"
  | ToggleSplit write_result bool
  | EditBypass ustr
  | SaveSplit write_result
  | CopyUri
  | SaveConf bool
  | PressConnect
  | ThreadWakes
  | AfterRuns
  | Telemetry nat nat nat

definition app_step :: "(ustr \<Rightarrow> bool) \<Rightarrow> (ustr \<Rightarrow> json_profile option) \<Rightarrow> app_event \<Rightarrow> app \<Rightarrow> app" where
  "app_step netloc_ok decode_json ev a =
     (case ev of
        Select w sel \<Rightarrow> fst (select_server w sel a)
      | Import w entry nm \<Rightarrow> fst (do_import netloc_ok decode_json w entry nm a)
      | AddServer w nm ip port tok \<Rightarrow> fst (save_srv w nm ip port tok a)
      | DeleteServer w sel \<Rightarrow> fst (delete_server w sel a)
      | ToggleSplit w c \<Rightarrow> on_toggle_split w c a
      | EditBypass t \<Rightarrow> a\<lparr>ap_bypass := t\<rparr>
      | SaveSplit w \<Rightarrow> save_split_settings w a
      | CopyUri \<Rightarrow> copy_mobile_uri a
      | SaveConf ok \<Rightarrow> save_mobile_conf ok a
      | PressConnect \<Rightarrow> (if ap_enabled a then toggle_connect a else a)
      | ThreadWakes \<Rightarrow> run_connection a
      | AfterRuns \<Rightarrow> run_after a
      | Telemetry rx tx ping \<Rightarrow> telemetry_tick rx tx ping a)"

fun app_run :: "(ustr \<Rightarrow> bool) \<Rightarrow> (ustr \<Rightarrow> json_profile option) \<Rightarrow> app_event list \<Rightarrow> app \<Rightarrow> app" where
  "app_run n d [] a = a"
| "app_run n d (ev # evs) a = app_run n d evs (app_step n d ev a)"

section \<open>Properties\<close>

definition shown :: "app \<Rightarrow> bool" where
  "shown a \<longleftrightarrow> ap_list a = map line_of (sto_profiles (ap_storage a)) \<and>
     ap_active a = map_option (\<lambda>p. (pf_name p, pf_ip p, pf_port p)) (get_active (ap_storage a)) \<and>
     (case get_active (ap_storage a) of None \<Rightarrow> True | Some p \<Rightarrow> to_uri p \<in> {None, Some (ap_uri a)})"

lemma shown_show_all: "shown (fst (show_all a)) \<and> ap_storage (fst (show_all a)) = ap_storage a"
  by (auto simp: shown_def show_all_def refresh_mobile_display_def refresh_active_display_def populate_server_list_def
      split: option.split)

lemma shown_cong:
  "ap_storage a' = ap_storage a \<Longrightarrow> ap_list a' = ap_list a \<Longrightarrow> ap_active a' = ap_active a \<Longrightarrow> ap_uri a' = ap_uri a \<Longrightarrow>
   shown a' = shown a"
  by (simp only: shown_def)

text \<open>A change of settings that no display shows.\<close>

definition quiet_change :: "(profile \<Rightarrow> profile) \<Rightarrow> bool" where
  "quiet_change f \<longleftrightarrow> (\<forall>p. line_of (f p) = line_of p \<and> to_uri (f p) = to_uri p)"

lemma quiet_changes:
  "quiet_change (\<lambda>p. p\<lparr>pf_split_tunnel := b\<rparr>)" "quiet_change (\<lambda>p. p\<lparr>pf_split_tunnel := b, pf_bypass := t\<rparr>)"
  by (simp_all add: quiet_change_def line_of_def to_uri_def)

lemma change_first_map: "\<forall>x. g (f x) = g x \<Longrightarrow> map g (change_first P f xs) = map g xs"
  by (induction xs) auto

lemma change_first_filter: "\<forall>x. P (f x) = P x \<Longrightarrow>
  filter P (change_first P f xs) = (case filter P xs of [] \<Rightarrow> [] | y # ys \<Rightarrow> f y # ys)"
  by (induction xs) auto

lemma get_active_change:
  assumes "quiet_change f"
  shows "get_active (change_active f st) = map_option f (get_active st)"
proof (cases "list_ex pf_active (sto_profiles st)")
  case True
  have q: "\<forall>p. pf_active (f p) = pf_active p" using assms by (simp add: quiet_change_def line_of_def)
  have "filter pf_active (sto_profiles st) \<noteq> []" using True by (auto simp: filter_empty_conv list_ex_iff)
  then show ?thesis using True by (auto simp: get_active_def change_active_def change_first_filter [OF q] split: list.split)
next
  case False
  then have n: "filter pf_active (sto_profiles st) = []" by (auto simp: filter_empty_conv list_ex_iff)
  have q: "\<forall>p. pf_active (f p) = pf_active p" using assms by (simp add: quiet_change_def line_of_def)
  have c: "change_first (\<lambda>_. True) f xs = (case xs of [] \<Rightarrow> [] | y # ys \<Rightarrow> f y # ys)" for xs by (cases xs) auto
  show ?thesis using False n q by (cases "sto_profiles st") (auto simp: get_active_def change_active_def c)
qed

lemma get_active_save [simp]: "get_active (save w st) = get_active st"
  by (simp only: get_active_def save_profiles)

lemma shown_change:
  assumes "quiet_change f" "shown a" "ap_storage a' = save w (change_active f (ap_storage a))"
    and "ap_list a' = ap_list a" "ap_active a' = ap_active a" "ap_uri a' = ap_uri a"
  shows "shown a'"
proof -
  have "map line_of (sto_profiles (change_active f (ap_storage a))) = map line_of (sto_profiles (ap_storage a))"
    using assms(1) by (simp add: change_active_def change_first_map quiet_change_def)
  moreover have "get_active (ap_storage a') = map_option f (get_active (ap_storage a))"
    using assms(3) by (simp add: get_active_change [OF assms(1)])
  ultimately show ?thesis using assms
    by (cases "get_active (ap_storage a)") (auto simp: shown_def quiet_change_def line_of_def)
qed

lemma app_step_shown:
  assumes "shown a"
  shows "shown (app_step n d ev a)"
proof -
  have sc: "shown (fst (case show_all b of (a1, Some ex) \<Rightarrow> (a1, Some ex) | (a1, None) \<Rightarrow> (box x a1, None)))"
    "shown (fst (case show_all b of (a1, Some _) \<Rightarrow> (box y a1, None) | (a1, None) \<Rightarrow> (box x a1, None)))" for b x y
    using shown_show_all [of b] by (auto simp: box_def shown_def split: prod.split option.split)
  have bx: "shown (box x b) = shown b" for x b by (rule shown_cong) (simp_all add: box_def)
  show ?thesis
  proof (cases ev)
    case (ToggleSplit w c)
    have "shown (on_toggle_split w c a)"
    proof (cases "get_active (ap_storage a)")
      case None
      then show ?thesis using assms by (simp add: on_toggle_split_def shown_def)
    next
      case (Some p)
      show ?thesis by (rule shown_change [OF quiet_changes(1) assms]) (simp_all add: on_toggle_split_def Some Let_def)
    qed
    then show ?thesis by (simp add: app_step_def ToggleSplit)
  next
    case (SaveSplit w)
    have "shown (save_split_settings w a)"
    proof (cases "get_active (ap_storage a)")
      case (Some p)
      show ?thesis by (rule shown_change [OF quiet_changes(2) assms]) (simp_all add: save_split_settings_def Some box_def)
    qed (simp add: save_split_settings_def assms)
    then show ?thesis by (simp add: app_step_def SaveSplit)
  next
    case (Select w sel)
    then show ?thesis using assms sc(1) by (auto simp: app_step_def select_server_def split: option.split)
  next
    case (Import w entry nm)
    then show ?thesis using assms sc(2) by (auto simp: app_step_def do_import_def bx Let_def split: sum.split)
  next
    case (AddServer w nm ip port tok)
    then show ?thesis using assms sc(1) by (auto simp: app_step_def save_srv_def bx Let_def)
  next
    case (DeleteServer w sel)
    then show ?thesis using assms shown_show_all by (auto simp: app_step_def delete_server_def bx split: option.split)
  qed (use assms in \<open>auto simp: app_step_def copy_mobile_uri_def save_mobile_conf_def toggle_connect_def disconnect_def
      run_connection_def on_connected_def run_after_def update_telemetry_ui_def telemetry_tick_def box_def shown_def Let_def
      split: option.split list.split callback.split\<close>)
qed


text \<open>The four phases of the connection button.\<close>

definition conn_phase :: "app \<Rightarrow> bool" where
  "conn_phase a \<longleftrightarrow>
     (\<not> ap_connected a \<and> ap_status a = Disconnected \<and> ap_enabled a \<and> ap_threads a = 0 \<and> OnConnected \<notin> set (ap_after a)) \<or>
     (\<not> ap_connected a \<and> ap_status a = Connecting \<and> \<not> ap_enabled a \<and> ap_threads a = 1 \<and> OnConnected \<notin> set (ap_after a)) \<or>
     (ap_connected a \<and> ap_status a = Connecting \<and> \<not> ap_enabled a \<and> ap_threads a = 0 \<and>
        length (filter ((=) OnConnected) (ap_after a)) = 1) \<or>
     (ap_connected a \<and> ap_status a = Protected \<and> ap_enabled a \<and> ap_threads a = 0 \<and> OnConnected \<notin> set (ap_after a))"

lemma conn_phase_cong:
  "ap_connected a' = ap_connected a \<Longrightarrow> ap_status a' = ap_status a \<Longrightarrow> ap_enabled a' = ap_enabled a \<Longrightarrow>
   ap_threads a' = ap_threads a \<Longrightarrow> ap_after a' = ap_after a \<Longrightarrow> conn_phase a' = conn_phase a"
  by (simp only: conn_phase_def)

lemma show_all_conn: "conn_phase (fst (show_all a)) = conn_phase a"
  by (rule conn_phase_cong)
    (simp_all add: show_all_def refresh_mobile_display_def refresh_active_display_def populate_server_list_def split: option.split)

lemma box_conn: "conn_phase (box x a) = conn_phase a"
  by (rule conn_phase_cong) (simp_all add: box_def)

lemma storage_conn: "conn_phase (a\<lparr>ap_storage := st\<rparr>) = conn_phase a"
  by (rule conn_phase_cong) simp_all

lemma shown_box_conn:
  "conn_phase (fst (case show_all b of (a1, Some ex) \<Rightarrow> (a1, Some ex) | (a1, None) \<Rightarrow> (box x a1, None))) = conn_phase b"
  "conn_phase (fst (case show_all b of (a1, Some _) \<Rightarrow> (box y a1, None) | (a1, None) \<Rightarrow> (box x a1, None))) = conn_phase b"
  using show_all_conn [of b] by (auto simp: box_conn split: prod.split option.split)

lemma app_step_conn:
  assumes "conn_phase a"
  shows "conn_phase (app_step n d ev a)"
proof (cases ev)
  case PressConnect
  show ?thesis using assms
    by (auto simp: PressConnect app_step_def toggle_connect_def disconnect_def conn_phase_def box_def split: option.split)
next
  case ThreadWakes
  show ?thesis using assms
    by (auto simp: ThreadWakes app_step_def run_connection_def conn_phase_def filter_empty_conv)
next
  case AfterRuns
  show ?thesis using assms
    by (auto simp: AfterRuns app_step_def run_after_def on_connected_def update_telemetry_ui_def conn_phase_def filter_empty_conv
        split: list.split callback.split)
next
  case (Telemetry r t p)
  show ?thesis using assms by (auto simp: Telemetry app_step_def telemetry_tick_def conn_phase_def Let_def)
qed (use assms in \<open>auto simp: app_step_def select_server_def do_import_def save_srv_def delete_server_def on_toggle_split_def
    save_split_settings_def copy_mobile_uri_def save_mobile_conf_def box_conn storage_conn show_all_conn shown_box_conn Let_def
    split: option.split sum.split cong: conn_phase_cong\<close>)


lemma show_all_keeps:
  "ap_connected (fst (show_all a)) = ap_connected a" "ap_threads (fst (show_all a)) = ap_threads a"
  "ap_after (fst (show_all a)) = ap_after a"
  by (simp_all add: show_all_def refresh_mobile_display_def refresh_active_display_def populate_server_list_def
      split: option.split)

lemma app_init_idle:
  "\<not> ap_connected (fst (app_init st)) \<and> ap_threads (fst (app_init st)) = 0 \<and> ap_after (fst (app_init st)) = [] \<and>
   ap_storage (fst (app_init st)) = st"
  using shown_show_all by (simp add: app_init_def show_all_keeps)

definition bogus_store :: storage where
  "bogus_store = \<lparr>sto_profiles = [new_profile [65] (ustr ''256.256.256.256'')], sto_file = NoFile\<rparr>"


lemma change_first_nth:
  "i < length xs \<Longrightarrow> \<forall>j < length xs. P (xs ! j) \<longleftrightarrow> j = i \<Longrightarrow> change_first P f xs = xs[i := f (xs ! i)]"
proof (induction xs arbitrary: i)
  case (Cons x xs)
  show ?case
  proof (cases i)
    case 0
    then show ?thesis using Cons.prems(2) by auto
  next
    case (Suc k)
    have "\<not> P x" using Cons.prems(2) Suc by force
    moreover have "\<forall>j < length xs. P (xs ! j) \<longleftrightarrow> j = k" using Cons.prems(2) Suc by force
    ultimately show ?thesis using Cons.IH [of k] Cons.prems(1) Suc by simp
  qed
qed simp

text \<open>The settings tab is not refreshed: saving it after another server was selected gives that server the check
  box and the list of exceptions of the former one.\<close>
theorem settings_follow_display:
  assumes "idx < length (sto_profiles (ap_storage a))"
    and "a' = app_run n d [Select w (Some idx), SaveSplit w'] a"
  shows "pf_bypass (sto_profiles (ap_storage a') ! idx) = strip_by is_space (ap_bypass a) \<and>
    pf_split_tunnel (sto_profiles (ap_storage a') ! idx) = ap_var_split a"
proof -
  let ?st = "set_active w (int idx) (ap_storage a)"
  obtain a1 where a1: "a1 = fst (select_server w (Some idx) a)" by simp
  have s: "ap_storage a1 = ?st \<and> ap_bypass a1 = ap_bypass a \<and> ap_var_split a1 = ap_var_split a"
    by (auto simp: a1 select_server_def show_all_def refresh_mobile_display_def refresh_active_display_def
        populate_server_list_def box_def split: option.split prod.split)
  have len: "idx < length (sto_profiles ?st)" using assms(1) by (simp add: length_set_active)
  have act: "\<forall>j < length (sto_profiles ?st). pf_active (sto_profiles ?st ! j) \<longleftrightarrow> j = idx"
    using set_active_nth [of _ "ap_storage a" w "int idx"] by (auto simp: length_set_active)
  have ex: "list_ex pf_active (sto_profiles ?st)" using len act by (auto simp: list_ex_length)
  have ga: "get_active ?st \<noteq> None" using len by (auto simp: get_active_def split: list.split)
  show ?thesis
    using len ga s
    by (auto simp: assms(2) app_step_def a1 [symmetric] save_split_settings_def box_def change_active_def ex
        change_first_nth [OF len act])
qed

end
