(* ===== verification/ToolsApp.thy ===== *)
theory ToolsApp
  imports App
begin

text \<open>
  tools/aegs_app.py: the older window, over the older profiles of tools/aegs_config.py. It has the state
  and most methods of \<open>aegs_app.py\<close>; here are those that differ: no import, no refresh after a server was
  added, no question whether there is a server, and no guard around the file of the phone.
\<close>

section \<open>Methods that differ\<close>

text \<open>The JSON link never fails to encode.\<close>

definition tools_refresh_mobile :: "(ustr \<Rightarrow> json_profile \<Rightarrow> ustr) \<Rightarrow> app \<Rightarrow> app" where
  "tools_refresh_mobile encode_json a =
     (case get_active (ap_storage a) of
        None \<Rightarrow> a
      | Some p \<Rightarrow> a\<lparr>ap_uri := tools_to_uri encode_json p\<rparr>)"

definition tools_show_all :: "(ustr \<Rightarrow> json_profile \<Rightarrow> ustr) \<Rightarrow> app \<Rightarrow> app" where
  "tools_show_all encode_json a = tools_refresh_mobile encode_json (refresh_active_display (populate_server_list a))"

definition tools_app_init :: "(ustr \<Rightarrow> json_profile \<Rightarrow> ustr) \<Rightarrow> storage \<Rightarrow> app" where
  "tools_app_init encode_json st =
     tools_show_all encode_json
      \<lparr>ap_storage = st, ap_connected = False, ap_bytes_rx = 0, ap_bytes_tx = 0, ap_list = [],
       ap_active = None, ap_uri = [], ap_var_split = True,
       ap_bypass = (case get_active st of Some p \<Rightarrow> pf_bypass p | None \<Rightarrow> []),
       ap_status = Disconnected, ap_button = Disconnected, ap_enabled = True, ap_ping = None, ap_speed = (0, 0, 0),
       ap_clip = None, ap_boxes = [], ap_files = [], ap_threads = 0, ap_after = []\<rparr>"

definition tools_select_server :: "(ustr \<Rightarrow> json_profile \<Rightarrow> ustr) \<Rightarrow> write_result \<Rightarrow> nat option \<Rightarrow> app \<Rightarrow> app" where
  "tools_select_server encode_json w sel a =
     (case sel of
        None \<Rightarrow> a
      | Some idx \<Rightarrow>
          box BoxSelected (tools_show_all encode_json (a\<lparr>ap_storage := set_active w (int idx) (ap_storage a)\<rparr>)))"

definition tools_save_srv :: "write_result \<Rightarrow> ustr \<Rightarrow> ustr \<Rightarrow> ustr \<Rightarrow> ustr \<Rightarrow> app \<Rightarrow> app" where
  "tools_save_srv w name_e ip_e port_e token_e a =
     (let ip = strip_by is_space ip_e in
      if ip = [] then box BoxNeedIp a
      else
        (let port = (case py_int (strip_by is_space port_e) of Some n \<Rightarrow> n | None \<Rightarrow> 50001);
             nm = strip_by is_space name_e;
             prof = (new_profile (if nm \<noteq> [] then nm else ustr ''Custom VPS'') ip)
               \<lparr>pf_port := port, pf_token := strip_by is_space token_e, pf_mode := ustr ''custom''\<rparr>
         in box BoxAdded (populate_server_list (a\<lparr>ap_storage := tools_add_profile w prof (ap_storage a)\<rparr>))))"

definition tools_delete_server :: "(ustr \<Rightarrow> json_profile \<Rightarrow> ustr) \<Rightarrow> write_result \<Rightarrow> nat option \<Rightarrow> app \<Rightarrow> app" where
  "tools_delete_server encode_json w sel a =
     (case sel of
        None \<Rightarrow> a
      | Some idx \<Rightarrow>
          if length (sto_profiles (ap_storage a)) \<le> 1 then box BoxLastServer a
          else tools_show_all encode_json (a\<lparr>ap_storage := tools_delete_profile w (int idx) (ap_storage a)\<rparr>))"

text \<open>What raises goes to the callback handler of Tk, which only prints it.\<close>

definition tools_save_mobile_conf :: "bool \<Rightarrow> app \<Rightarrow> app_res" where
  "tools_save_mobile_conf can_open a =
     (case get_active (ap_storage a) of
        None \<Rightarrow> (a, None)
      | Some p \<Rightarrow>
          if \<not> can_open then (a, Some OSError)
          else if utf8_encode (to_mobile_conf p) = None
          then (a\<lparr>ap_files := ap_files a @ [(conf_name p, [])]\<rparr>, Some UnicodeError)
          else (box (BoxConfSaved (conf_name p)) (a\<lparr>ap_files := ap_files a @ [(conf_name p, to_mobile_conf p)]\<rparr>), None))"

definition tools_toggle_connect :: "app \<Rightarrow> app" where
  "tools_toggle_connect a =
     (if \<not> ap_connected a
      then a\<lparr>ap_status := Connecting, ap_button := Connecting, ap_enabled := False, ap_threads := ap_threads a + 1\<rparr>
      else disconnect a)"

text \<open>The events are those of the current window; there is no import dialog.\<close>

definition tools_app_step :: "(ustr \<Rightarrow> json_profile \<Rightarrow> ustr) \<Rightarrow> app_event \<Rightarrow> app \<Rightarrow> app" where
  "tools_app_step ej ev a =
     (case ev of
        Select w sel \<Rightarrow> tools_select_server ej w sel a
      | Import w entry nm \<Rightarrow> a
      | AddServer w nm ip port tok \<Rightarrow> tools_save_srv w nm ip port tok a
      | DeleteServer w sel \<Rightarrow> tools_delete_server ej w sel a
      | ToggleSplit w c \<Rightarrow> on_toggle_split w c a
      | EditBypass t \<Rightarrow> a\<lparr>ap_bypass := t\<rparr>
      | SaveSplit w \<Rightarrow> save_split_settings w a
      | CopyUri \<Rightarrow> copy_mobile_uri a
      | SaveConf ok \<Rightarrow> fst (tools_save_mobile_conf ok a)
      | PressConnect \<Rightarrow> (if ap_enabled a then tools_toggle_connect a else a)
      | ThreadWakes \<Rightarrow> run_connection a
      | AfterRuns \<Rightarrow> run_after a
      | Telemetry rx tx ping \<Rightarrow> telemetry_tick rx tx ping a)"

fun tools_app_run :: "(ustr \<Rightarrow> json_profile \<Rightarrow> ustr) \<Rightarrow> app_event list \<Rightarrow> app \<Rightarrow> app" where
  "tools_app_run ej [] a = a"
| "tools_app_run ej (ev # evs) a = tools_app_run ej evs (tools_app_step ej ev a)"

section \<open>Properties\<close>

definition tools_shown :: "(ustr \<Rightarrow> json_profile \<Rightarrow> ustr) \<Rightarrow> app \<Rightarrow> bool" where
  "tools_shown ej a \<longleftrightarrow> sto_profiles (ap_storage a) \<noteq> [] \<and>
     ap_list a = map line_of (sto_profiles (ap_storage a)) \<and>
     (\<exists>p b. get_active (ap_storage a) = Some p \<and> ap_active a = Some (pf_name p, pf_ip p, pf_port p) \<and>
       ap_uri a = tools_to_uri ej (p\<lparr>pf_split_tunnel := b\<rparr>))"

lemma get_active_some: "get_active st \<noteq> None \<longleftrightarrow> sto_profiles st \<noteq> []"
  by (auto simp: get_active_def split: list.split)

lemma tools_shown_cong:
  "ap_storage a' = ap_storage a \<Longrightarrow> ap_list a' = ap_list a \<Longrightarrow> ap_active a' = ap_active a \<Longrightarrow> ap_uri a' = ap_uri a \<Longrightarrow>
   tools_shown ej a' = tools_shown ej a"
  by (simp only: tools_shown_def)

lemma tools_shown_show_all:
  assumes "sto_profiles (ap_storage a) \<noteq> []"
  shows "tools_shown ej (tools_show_all ej a)"
proof -
  obtain p where p: "get_active (ap_storage a) = Some p" using assms get_active_some by blast
  have "p = p\<lparr>pf_split_tunnel := pf_split_tunnel p\<rparr>" by simp
  then have "\<exists>b. tools_to_uri ej p = tools_to_uri ej (p\<lparr>pf_split_tunnel := b\<rparr>)" by metis
  with p assms show ?thesis
    by (simp add: tools_shown_def tools_show_all_def tools_refresh_mobile_def refresh_active_display_def
        populate_server_list_def)
qed

text \<open>A profile that is added at the end does not become the active one.\<close>

lemma get_active_add:
  assumes "sto_profiles st \<noteq> []" "\<not> pf_active p"
  shows "get_active (tools_add_profile w p st) = get_active st"
proof -
  have f: "filter pf_active (sto_profiles st @ [p]) = filter pf_active (sto_profiles st)" using assms(2) by simp
  have "get_active (save w (st\<lparr>sto_profiles := sto_profiles st @ [p]\<rparr>)) = get_active st"
    unfolding get_active_save
    by (simp only: get_active_def f storage.simps storage.surjective storage.update_convs storage.select_convs)
      (use assms in \<open>auto split: list.split\<close>)
  then show ?thesis by (simp only: tools_add_profile_def)
qed

lemma tools_save_srv_active:
  assumes "sto_profiles (ap_storage a) \<noteq> []"
  shows "get_active (ap_storage (tools_save_srv w nm ip port tok a)) = get_active (ap_storage a)"
  using assms
  by (auto simp: tools_save_srv_def box_def populate_server_list_def get_active_add new_profile_def Let_def)

lemma tools_shown_change:
  assumes "f = (\<lambda>p. p\<lparr>pf_split_tunnel := c\<rparr>) \<or> f = (\<lambda>p. p\<lparr>pf_split_tunnel := c, pf_bypass := t\<rparr>)"
    and "tools_shown ej a" "ap_storage a' = save w (change_active f (ap_storage a))"
    and "ap_list a' = ap_list a" "ap_active a' = ap_active a" "ap_uri a' = ap_uri a"
  shows "tools_shown ej a'"
proof -
  have q: "quiet_change f" using assms(1) quiet_changes by blast
  obtain p b where p: "get_active (ap_storage a) = Some p" "ap_active a = Some (pf_name p, pf_ip p, pf_port p)"
    "ap_uri a = tools_to_uri ej (p\<lparr>pf_split_tunnel := b\<rparr>)" using assms(2) by (auto simp: tools_shown_def)
  have l: "map line_of (sto_profiles (change_active f (ap_storage a))) = map line_of (sto_profiles (ap_storage a))"
    using q by (simp add: change_active_def change_first_map quiet_change_def)
  have "get_active (ap_storage a') = Some (f p)" using assms(3) p(1) by (simp add: get_active_change [OF q])
  moreover have "tools_to_uri ej ((f p)\<lparr>pf_split_tunnel := b\<rparr>) = tools_to_uri ej (p\<lparr>pf_split_tunnel := b\<rparr>)"
    "pf_name (f p) = pf_name p \<and> pf_ip (f p) = pf_ip p \<and> pf_port (f p) = pf_port p"
    using assms(1) by (auto simp: tools_to_uri_def)
  moreover have "sto_profiles (ap_storage a') \<noteq> []"
    using l assms(2,3) by (metis save_profiles map_is_Nil_conv tools_shown_def)
  ultimately show ?thesis using assms(2-) p l unfolding tools_shown_def by (metis save_profiles)
qed

lemma tools_app_step_shown:
  assumes "tools_shown ej a"
  shows "tools_shown ej (tools_app_step ej ev a)"
proof -
  have ne: "sto_profiles (ap_storage a) \<noteq> []" using assms by (simp add: tools_shown_def)
  have bx: "tools_shown ej (box x b) = tools_shown ej b" for x b by (rule tools_shown_cong) (simp_all add: box_def)
  obtain p where act: "get_active (ap_storage a) = Some p" using ne get_active_some by blast
  show ?thesis
  proof (cases ev)
    case (Select w sel)
    have "sto_profiles (set_active w i (ap_storage a)) \<noteq> []" for i
      using ne length_set_active [of w i "ap_storage a"] by fastforce
    then show ?thesis using assms
      by (auto simp: Select tools_app_step_def tools_select_server_def bx tools_shown_show_all split: option.split)
  next
    case (AddServer w nm ip port tok)
    have g: "get_active (ap_storage (tools_save_srv w nm ip port tok a)) = get_active (ap_storage a)"
      by (rule tools_save_srv_active [OF ne])
    have "ap_active (tools_save_srv w nm ip port tok a) = ap_active a \<and> ap_uri (tools_save_srv w nm ip port tok a) = ap_uri a \<and>
        ap_list (tools_save_srv w nm ip port tok a) = map line_of (sto_profiles (ap_storage (tools_save_srv w nm ip port tok a)))"
      using assms by (simp add: tools_save_srv_def box_def populate_server_list_def tools_shown_def Let_def)
    then show ?thesis using g act assms get_active_some
      unfolding AddServer tools_app_step_def tools_shown_def app_event.case by (metis option.distinct(1))
  next
    case (DeleteServer w sel)
    have "sto_profiles (tools_delete_profile w (int i) (ap_storage a)) \<noteq> []"
      if "\<not> length (sto_profiles (ap_storage a)) \<le> 1" for i
      using that ne by (auto simp: tools_delete_profile_def save_profiles remove_nth_def)
    then show ?thesis using assms
      by (auto simp: DeleteServer tools_app_step_def tools_delete_server_def bx tools_shown_show_all split: option.split)
  next
    case (ToggleSplit w c)
    have "tools_shown ej (on_toggle_split w c a)"
      by (rule tools_shown_change [OF disjI1, OF refl assms]) (simp_all add: on_toggle_split_def act Let_def)
    then show ?thesis by (simp add: ToggleSplit tools_app_step_def)
  next
    case (SaveSplit w)
    have "tools_shown ej (save_split_settings w a)"
      by (rule tools_shown_change [OF disjI2, OF refl assms]) (simp_all add: save_split_settings_def act box_def)
    then show ?thesis by (simp add: SaveSplit tools_app_step_def)
  next
    case (EditBypass t)
    have "tools_shown ej (a\<lparr>ap_bypass := t\<rparr>) = tools_shown ej a" by (rule tools_shown_cong) simp_all
    then show ?thesis using assms by (simp add: EditBypass tools_app_step_def)
  qed (use assms in \<open>auto simp: tools_app_step_def copy_mobile_uri_def tools_save_mobile_conf_def tools_toggle_connect_def
      disconnect_def run_connection_def on_connected_def run_after_def update_telemetry_ui_def telemetry_tick_def
      box_def tools_shown_def Let_def split: option.split list.split callback.split\<close>)
qed

text \<open>The older window shows the stored list and the active server after any events, once there is a profile,
  although it refreshes less: a server that is added does not become the active one. The link for the
  phone is that of the active profile but for the split flag, which it does not follow.\<close>
theorem tools_app_shows_store:
  assumes "sto_profiles st \<noteq> []" and "a = tools_app_run ej evs (tools_app_init ej st)"
  shows "tools_shown ej a \<and> get_active (ap_storage (tools_save_srv w nm ip port tok a)) = get_active (ap_storage a)"
proof -
  have "tools_shown ej a \<Longrightarrow> tools_shown ej (tools_app_run ej evs a)" for a
    by (induction ej evs a rule: tools_app_run.induct) (simp_all add: tools_app_step_shown)
  moreover have "tools_shown ej (tools_app_init ej st)"
    using assms(1) by (simp add: tools_app_init_def tools_shown_show_all)
  ultimately have "tools_shown ej a" using assms(2) by blast
  then show ?thesis using tools_save_srv_active by (simp add: tools_shown_def)
qed

theorem tools_app_shows_store_witness:
  "tools_shown (\<lambda>_ _. []) (tools_app_init (\<lambda>_ _. []) (tools_storage_load Written NoFile))"
  by (rule tools_app_shows_store [where evs = "[]", THEN conjunct1])
    (simp_all add: tools_storage_load_def tools_starter_profiles_def save_profiles)

end
