(* ===== verification/Race.thy ===== *)
theory Race
  imports Tunnel
begin

text \<open>
  Threads of the client inside \<open>send_raw_packet\<close>. Every local connection and the chaffing loop call it,
  and no lock guards \<open>self.tx_seq += 1\<close> and the read in \<open>struct.pack\<close> after it, so Python does not promise that
  they happen at once. Here one call is split where it touches the counter: the checks and the frame,
  the load, the store, the read for the nonce, and sealing with sending. A schedule says which thread
  does its next part. \<open>send_aegs_frame\<close> of the server increments and reads its counter in the same two lines.
\<close>

section \<open>One call in parts\<close>

record send_call =
  sc_env :: env
  sc_sid :: nat
  sc_cmd :: nat
  sc_payload :: bytes
  sc_chaff :: bool

datatype send_pc = Enter | Load | Store nat | Pack | Seal nat | Finished "pyexn option"

definition send_micro :: "crypto \<Rightarrow> send_call \<Rightarrow> client \<Rightarrow> send_pc \<Rightarrow> client \<times> send_pc \<times> cl_out list" where
  "send_micro C sc cl pc =
     (case pc of
        Enter \<Rightarrow>
          (if cl_send_key cl = None then (cl, Finished None, [])
           else if pack_be 4 (int (sc_sid sc)) = None \<or> pack_be 1 (int (sc_cmd sc)) = None
           then (cl, Finished (Some StructError), [])
           else (cl, Load, []))
      | Load \<Rightarrow> (cl, Store (cl_tx_seq cl), [])
      | Store v \<Rightarrow> (cl\<lparr>cl_tx_seq := v + 1\<rparr>, Pack, [])
      | Pack \<Rightarrow>
          (if cl_tx_seq cl < 2 ^ 64 then (cl, Seal (cl_tx_seq cl), []) else (cl, Finished (Some StructError), []))
      | Seal n \<Rightarrow>
          (case cl_send_key cl of
             None \<Rightarrow> (cl, Finished (Some TypeError), [])
           | Some sk \<Rightarrow>
               (let frame = be_bytes 4 (sc_sid sc) @ be_bytes 1 (sc_cmd sc) @ sc_payload sc;
                    pkt = raw_packet C (ent (sc_env sc)) cl sk n frame (sc_chaff sc)
                in case get_current_port (sc_env sc) cl of
                     Inl _ \<Rightarrow> (cl, Finished None, [])
                   | Inr p \<Rightarrow> (cl, Finished None,
                       if send_ok (sc_env sc) then [UdpSend pkt (cl_server_host cl, p)] else [])))
      | Finished ex \<Rightarrow> (cl, Finished ex, []))"

text \<open>The client, where each call is, and what was sent by which call.\<close>

type_synonym race_state = "client \<times> send_pc list \<times> (nat \<times> cl_out) list"

definition race_step :: "crypto \<Rightarrow> send_call list \<Rightarrow> nat \<Rightarrow> race_state \<Rightarrow> race_state" where
  "race_step C calls i s =
     (case s of (cl, pcs, outs) \<Rightarrow>
        if i < length pcs
        then (case send_micro C (calls ! i) cl (pcs ! i) of
                (cl', pc', o1) \<Rightarrow> (cl', pcs[i := pc'], outs @ map (Pair i) o1))
        else s)"

fun race_run :: "crypto \<Rightarrow> send_call list \<Rightarrow> nat list \<Rightarrow> race_state \<Rightarrow> race_state" where
  "race_run C calls [] s = s"
| "race_run C calls (i # sched) s = race_run C calls sched (race_step C calls i s)"

definition send_of :: "crypto \<Rightarrow> client \<Rightarrow> send_call \<Rightarrow> cl_res" where
  "send_of C cl sc = send_raw_packet C (sc_env sc) cl (sc_sid sc) (sc_cmd sc) (sc_payload sc) (sc_chaff sc)"

section \<open>Lemmas\<close>

text \<open>What the header and the seal of a packet read of the client does not change while it sends.\<close>

lemma raw_packet_counter: "raw_packet C e (cl\<lparr>cl_tx_seq := n\<rparr>) k q frame ch = raw_packet C e cl k q frame ch"
  by (simp add: raw_packet_def)

lemma current_port_counter: "get_current_port E (cl\<lparr>cl_tx_seq := n\<rparr>) = get_current_port E cl"
  by (simp add: get_current_port_def)

lemma pack_be_nat: "pack_be n (int v) = None \<or> pack_be n (int v) = Some (be_bytes n v)"
  by (simp add: pack_be_def)

text \<open>A call that sends: its parts one by one, for whatever number it gets.\<close>

lemma sending_call:
  assumes "send_of C cl sc = (cl', [o1], None)"
  obtains sk p where "cl_send_key cl = Some sk" "get_current_port (sc_env sc) cl = Inr p" "send_ok (sc_env sc)"
    "sc_sid sc < 2 ^ 32" "sc_cmd sc < 256" "cl_tx_seq cl + 1 < 2 ^ 64" "cl' = cl\<lparr>cl_tx_seq := cl_tx_seq cl + 1\<rparr>"
    "o1 = UdpSend (raw_packet C (ent (sc_env sc)) cl sk (cl_tx_seq cl + 1)
       (be_bytes 4 (sc_sid sc) @ be_bytes 1 (sc_cmd sc) @ sc_payload sc) (sc_chaff sc)) (cl_server_host cl, p)"
  using assms
  by (auto simp: send_of_def send_raw_packet_def pack_be_def Let_def raw_packet_counter current_port_counter
      split: option.splits sum.splits if_splits)

section \<open>Properties\<close>

text \<open>A call that is not interrupted is \<open>send_raw_packet\<close>: its five parts in a row have the same effect on the
  client, send the same datagram and end in the same way, also where it raises or has no key.\<close>
theorem alone_is_atomic:
  "race_run C [sc] (replicate 5 0) (cl, [Enter], []) =
     (case send_of C cl sc of (cl', outs, ex) \<Rightarrow> (cl', [Finished ex], map (Pair 0) outs))"
proof -
  have five: "replicate 5 (0 :: nat) = [0, 0, 0, 0, 0]" by (simp add: numeral_eq_Suc)
  consider (nokey) "cl_send_key cl = None" | (nopack) sk where "cl_send_key cl = Some sk"
      "pack_be 4 (int (sc_sid sc)) = None \<or> pack_be 1 (int (sc_cmd sc)) = None"
    | (ok) sk where "cl_send_key cl = Some sk" "pack_be 4 (int (sc_sid sc)) = Some (be_bytes 4 (sc_sid sc))"
      "pack_be 1 (int (sc_cmd sc)) = Some (be_bytes 1 (sc_cmd sc))"
    using pack_be_nat by blast
  then show ?thesis
  proof cases
    case nokey
    then show ?thesis by (simp add: five race_step_def send_micro_def send_of_def send_raw_packet_def)
  next
    case nopack
    then show ?thesis
      by (auto simp: five race_step_def send_micro_def send_of_def send_raw_packet_def split: option.splits)
  next
    case ok
    then show ?thesis
      by (simp add: five race_step_def send_micro_def send_of_def send_raw_packet_def Let_def current_port_counter
          raw_packet_counter split: sum.split)
  qed
qed

text \<open>The schedule in which both load the counter before either stores it.\<close>

definition crossing :: "nat list" where
  "crossing = [0, 0, 1, 1, 0, 1, 0, 1, 0, 1]"

lemma crossing_run:
  assumes "send_of C cl a = (ca, [oa], None)" "send_of C cl b = (cb, [ob], None)"
  shows "race_run C [a, b] crossing (cl, [Enter, Enter], []) =
    (cl\<lparr>cl_tx_seq := cl_tx_seq cl + 1\<rparr>, [Finished None, Finished None], [(0, oa), (1, ob)])"
proof -
  obtain ka pa where A: "cl_send_key cl = Some ka" "get_current_port (sc_env a) cl = Inr pa" "send_ok (sc_env a)"
    "sc_sid a < 2 ^ 32" "sc_cmd a < 256" "cl_tx_seq cl + 1 < 2 ^ 64"
    "oa = UdpSend (raw_packet C (ent (sc_env a)) cl ka (cl_tx_seq cl + 1)
       (be_bytes 4 (sc_sid a) @ be_bytes 1 (sc_cmd a) @ sc_payload a) (sc_chaff a)) (cl_server_host cl, pa)"
    using assms(1) by (rule sending_call)
  obtain kb pb where B: "cl_send_key cl = Some kb" "get_current_port (sc_env b) cl = Inr pb" "send_ok (sc_env b)"
    "sc_sid b < 2 ^ 32" "sc_cmd b < 256"
    "ob = UdpSend (raw_packet C (ent (sc_env b)) cl kb (cl_tx_seq cl + 1)
       (be_bytes 4 (sc_sid b) @ be_bytes 1 (sc_cmd b) @ sc_payload b) (sc_chaff b)) (cl_server_host cl, pb)"
    using assms(2) by (rule sending_call)
  have pk: "pack_be 4 (int (sc_sid x)) \<noteq> None \<and> pack_be 1 (int (sc_cmd x)) \<noteq> None" if "sc_sid x < 2 ^ 32" "sc_cmd x < 256" for x
    using that by (simp add: pack_be_def)
  note pks = pk [OF A(4,5)] pk [OF B(4,5)]
  show ?thesis
    using A(1-3,6) B(1-3) pks
    by (simp add: crossing_def race_step_def send_micro_def raw_packet_counter current_port_counter A(7) B(6) Let_def)
qed

text \<open>The server at a frame whose number it has seen.\<close>

lemma client_frame_dropped:
  assumes ok: "crypto_ok C" "client_wf cl" "server_wf st" "peers cl st"
    and k: "cl_send_key cl = sv_recv_key st"
    and sent: "send_raw_packet C E cl sid cmd payload ch = (cl', [UdpSend pkt dest], ex)"
    and hs: "opens_with C (hs_key C st) pkt (header_offset C st pkt) = None"
    and first: "pkt ! 0 \<noteq> 1" "pkt ! 0 \<noteq> 4"
    and seen: "check_and_update (sv_replay st) (cl_tx_seq cl + 1) = (Inr True, f)"
  shows "snd (on_datagram C Es st a pkt priv pub) = [Log (LogReplayDrop (cl_tx_seq cl + 1) (fst a))]"
proof -
  let ?flag = "if ch then 0x80 else 0 :: byte"
  obtain key where s: "cl_send_key cl = Some key" "cl_tx_seq cl + 1 < 2 ^ 64"
    "pkt = raw_packet C (ent E) cl key (cl_tx_seq cl + 1) (be_bytes 4 sid @ be_bytes 1 cmd @ payload) ch"
    using sent by (rule udp_sent_cases)
  let ?nonce = "le_bytes 8 (cl_tx_seq cl + 1) @ token_bytes (ent E) 2000 4"
  let ?outer = "outer_header C (sv_mask_key st) (sv_raw_kid st) (token_bytes (ent E) 2006 12) ?flag (client_junk (ent E))"
  let ?ct = "aead_encrypt C key ?nonce (client_plain (ent E) sid cmd payload) (Some ?outer)"
  let ?off = "28 + length (client_junk (ent E))"
  have sp: "sealed_packet C (sv_mask_key st) (sv_raw_kid st) (token_bytes (ent E) 2006 12) ?flag (client_junk (ent E)) ?nonce ?ct pkt"
    using raw_packet_sealed [OF ok(1,2,4), of "ent E" ch "cl_tx_seq cl + 1" key sid cmd payload] s(3) by simp
  let ?st = "st\<lparr>sv_packets_rx := sv_packets_rx st + 1, sv_bytes_rx := sv_bytes_rx st + length pkt\<rparr>"
  have rk: "sv_recv_key st = Some key" and kl: "length key = 32" using k s(1) ok(3) by (auto simp: server_wf_def)
  have ct: "16 \<le> length ?ct" using length_aead [OF ok(1) kl] by (simp add: pybytes)
  have ff: "frame_fields C ?st pkt = Some (ch, ?off)"
    using sealed_server_fields [OF sp ct] frame_fields_counters by (cases ch) simp_all
  have sq: "frame_seq pkt ?off = cl_tx_seq cl + 1" by (rule frame_seq_sealed [OF sp s(2)])
  have len: "28 \<le> length pkt" using sealed_parts(4) [OF sp] by simp
  have "data_frame C Es ?st a pkt = (?st\<lparr>sv_replay := f\<rparr>, [Log (LogReplayDrop (cl_tx_seq cl + 1) (fst a))], None)"
    using rk ff sq seen by (simp add: data_frame_def)
  with on_datagram_dispatch [OF hs len, of Es a priv pub] first show ?thesis by (simp add: Let_def)
qed

text \<open>C12: Two threads of the client that send at the same time can send two datagrams with the same number, each the
  one that it would have sent alone, and the counter advances by one only. The server then forwards
  the first and drops the second as a replay: the data of that stream is lost, and nothing sends it
  again.\<close>
theorem concurrent_sends_lose_data:
  assumes "crypto_ok C" "client_wf cl" "server_wf st" "peers cl st" "cl_send_key cl = sv_recv_key st"
    and "send_of C cl a = (ca, [UdpSend pa da], None)" "send_of C cl b = (cb, [UdpSend pb db], None)"
    and "sc_cmd a = CMD_DATA" "\<not> sc_chaff a"
    and "opens_with C (hs_key C st) pa (header_offset C st pa) = None" "pa ! 0 \<noteq> 1" "pa ! 0 \<noteq> 4"
    and "opens_with C (hs_key C st) pb (header_offset C st pb) = None" "pb ! 0 \<noteq> 1" "pb ! 0 \<noteq> 4"
    and "check_and_update (sv_replay st) (cl_tx_seq cl + 1) = (Inr False, f)"
    and "sv_streams st (sc_sid a) = Some s" "stream_ok Es s"
    and "on_datagram C Es st addr pa priv pub = (st1, outs1)"
  shows "race_run C [a, b] crossing (cl, [Enter, Enter], []) =
      (cl\<lparr>cl_tx_seq := cl_tx_seq cl + 1\<rparr>, [Finished None, Finished None], [(0, UdpSend pa da), (1, UdpSend pb db)]) \<and>
    (\<exists>pad. outs1 = [StreamSend s (sc_payload a @ pad)]) \<and>
    snd (on_datagram C Es st1 addr pb priv pub) = [Log (LogReplayDrop (cl_tx_seq cl + 1) (fst addr))]"
proof -
  have sa: "send_raw_packet C (sc_env a) cl (sc_sid a) CMD_DATA (sc_payload a) False = (ca, [UdpSend pa da], None)"
    using assms(6,8,9) by (simp add: send_of_def)
  have sb: "send_raw_packet C (sc_env b) cl (sc_sid b) (sc_cmd b) (sc_payload b) (sc_chaff b) = (cb, [UdpSend pb db], None)"
    using assms(7) by (simp add: send_of_def)
  have bnd: "sc_sid a < 2 ^ 32" "CMD_DATA < 256" using sa by (auto elim: udp_sent_cases)
  let ?st1 = "st\<lparr>sv_packets_rx := sv_packets_rx st + 1, sv_bytes_rx := sv_bytes_rx st + length pa,
                  sv_replay := f, sv_client_addr := Some addr\<rparr>"
  let ?pt = "client_plain (ent (sc_env a)) (sc_sid a) CMD_DATA (sc_payload a)"
  have "\<exists>m. handle_client_payload Es ?st1 ?pt addr = (?st1\<lparr>sv_bytes_tx := m\<rparr>, [StreamSend s (drop 5 ?pt)], None)"
    using client_plain_fields [OF bnd, of "ent (sc_env a)" "sc_payload a"] assms(17,18)
    by (auto simp: handle_client_payload_def cmd_defs Let_def)
  then obtain m where handled:
    "handle_client_payload Es ?st1 ?pt addr = (?st1\<lparr>sv_bytes_tx := m\<rparr>, [StreamSend s (drop 5 ?pt)], None)" by blast
  then have r1: "st1 = ?st1\<lparr>sv_bytes_tx := m\<rparr>" "outs1 = [StreamSend s (drop 5 ?pt)]"
    using client_frame_opened [OF assms(1-5) sa assms(10-12,16), of Es addr priv pub] assms(19) by (simp_all add: Let_def)
  have wf1: "server_wf st1" by (rule on_datagram_wf [OF assms(1,3,19)])
  have same: "peers cl st1" "cl_send_key cl = sv_recv_key st1" "hs_key C st1 = hs_key C st"
    "header_offset C st1 pb = header_offset C st pb"
    using assms(4,5) by (simp_all add: r1(1) peers_def hs_key_def header_offset_def)
  have "filter_wf (sv_replay st)" using assms(3) by (simp add: server_wf_def)
  then have "check_and_update (sv_replay st1) (cl_tx_seq cl + 1) = (Inr True, f)"
    using accepted_then_dropped assms(16) by (simp add: r1(1))
  then have "snd (on_datagram C Es st1 addr pb priv pub) = [Log (LogReplayDrop (cl_tx_seq cl + 1) (fst addr))]"
    using client_frame_dropped [OF assms(1,2) wf1 same(1,2) sb] assms(13-15) same(3,4) by simp
  moreover have "\<exists>pad. outs1 = [StreamSend s (sc_payload a @ pad)]"
    using client_plain_fields(4) [OF bnd] r1(2) by blast
  ultimately show ?thesis using crossing_run [OF assms(6,7)] by blast
qed

theorem concurrent_sends_lose_data_witness:
  "\<exists>pa pb st1. snd (on_datagram toy_crypto sample_env sample_server sample_addr pa [] []) \<noteq> [] \<and>
     on_datagram toy_crypto sample_env sample_server sample_addr pa [] [] = (st1, snd (on_datagram toy_crypto sample_env sample_server sample_addr pa [] [])) \<and>
     snd (on_datagram toy_crypto sample_env st1 sample_addr pb [] []) = [Log (LogReplayDrop 1 (fst sample_addr))]"
proof -
  have c: "CMD_DATA < 256" by (simp add: CMD_DATA_def)
  define call where "call x = \<lparr>sc_env = sample_env, sc_sid = 101, sc_cmd = CMD_DATA, sc_payload = [x], sc_chaff = False\<rparr>" for x
  have sent: "send_of toy_crypto sample_client (call x) =
      (sample_client\<lparr>cl_tx_seq := 1\<rparr>, [UdpSend (sample_packet CMD_DATA [x]) (ustr ''10.0.0.1'', 50006)], None)" for x
    using sample_sent [OF c] by (simp add: send_of_def call_def)
  have f: "sample_packet CMD_DATA [x] ! 0 \<noteq> 1" "sample_packet CMD_DATA [x] ! 0 \<noteq> 4" for x
    by (simp_all add: sample_packet_first)
  have cc: "sc_cmd (call x) = CMD_DATA" "\<not> sc_chaff (call x)" for x by (simp_all add: call_def)
  have s: "sv_streams sample_server (sc_sid (call 72)) = Some 7" "stream_ok sample_env 7"
    by (simp_all add: sample_server_sel sample_env_def call_def)
  obtain st1 outs1 where r: "on_datagram toy_crypto sample_env sample_server sample_addr
      (sample_packet CMD_DATA [72]) [] [] = (st1, outs1)" by fastforce
  from concurrent_sends_lose_data [OF sample_link sample_keys(1) sent [of 72] sent [of 73] cc sample_packet_other_key f
      sample_packet_other_key f sample_fresh s r] r
  show ?thesis
    by (intro exI [of _ "sample_packet CMD_DATA [72]"] exI [of _ "sample_packet CMD_DATA [73]"] exI [of _ st1])
      (auto simp: sample_client_def)
qed

end
