(* ===== verification/ClientRun.thy ===== *)
theory ClientRun
  imports Socks WinProxy Tunnel
begin

text \<open>
  The client of aegs_client.py as a program: \<open>main\<close>, \<open>start\<close>, the threads that \<open>start\<close> leaves running, the ways
  in which it ends, and what becomes of the system proxy. Printing is left out.
\<close>

section \<open>Start\<close>

datatype start_result = NoTunnel | Raised pyexn | Listening

text \<open>
  \<open>Es 0\<close> is what the decoy meets, \<open>Es 1\<close> the handshake; \<open>fails\<close> says which registry calls raise, \<open>bind_ok\<close>
  whether the local port is free. The flag says whether \<open>disable\<close> was registered to run at exit.
\<close>

definition client_start ::
  "crypto \<Rightarrow> (nat \<Rightarrow> env) \<Rightarrow> bytes list \<Rightarrow> bool \<Rightarrow> (nat \<Rightarrow> bool) \<Rightarrow> bool \<Rightarrow> client \<times> win_state \<Rightarrow>
   (client \<times> win_state) \<times> cl_out list \<times> bool \<times> start_result" where
  "client_start C Es arrivals win32 fails bind_ok s =
     (case s of (cl, w) \<Rightarrow>
        case send_illusion_prebypass (Es 0) cl of
          (o0, Some e) \<Rightarrow> ((cl, w), o0, False, Raised e)
        | (o0, None) \<Rightarrow>
            (case perform_handshake C (Es 1) cl arrivals of
               (cl1, o1, Inl e) \<Rightarrow> ((cl1, w), o0 @ o1, False, Raised e)
             | (cl1, o1, Inr False) \<Rightarrow> ((cl1, w), o0 @ o1, False, NoTunnel)
             | (cl1, o1, Inr True) \<Rightarrow>
                 (let w1 = (if cl_auto_system cl1 then proxy_enable_op win32 fails w else w)
                  in ((cl1, w1), o0 @ o1, cl_auto_system cl1, if bind_ok then Listening else Raised OSError))))"

section \<open>Threads\<close>

text \<open>
  What happens while the program listens: a round of the receiver or of the chaffing thread, a new
  connection, a send or the end of a connection thread, each as one step.
\<close>

datatype cl_event =
    RecvRound env bytes
  | ChaffRound env
  | Accepted nat
  | ConnFrame env nat nat bytes
  | ConnTouch env
  | ConnEnd env nat nat

definition cl_event_step :: "crypto \<Rightarrow> cl_event \<Rightarrow> client \<Rightarrow> client \<times> cl_out list" where
  "cl_event_step C ev cl =
     (case ev of
        RecvRound E d \<Rightarrow> udp_round C E cl d
      | ChaffRound E \<Rightarrow>
          (if cl_running cl then (case chaff_round C E cl of (cl', outs, _) \<Rightarrow> (cl', outs)) else (cl, []))
      | Accepted conn \<Rightarrow> (if cl_running cl then (fst (register_conn cl conn), []) else (cl, []))
      | ConnFrame E sid cmd p \<Rightarrow> (case send_raw_packet C E cl sid cmd p False of (cl', outs, _) \<Rightarrow> (cl', outs))
      | ConnTouch E \<Rightarrow> (cl\<lparr>cl_last_real := now_us E\<rparr>, [])
      | ConnEnd E sid conn \<Rightarrow> (case conn_finally C E cl sid conn of (cl', outs, _) \<Rightarrow> (cl', outs)))"

fun cl_session :: "crypto \<Rightarrow> cl_event list \<Rightarrow> client \<Rightarrow> client \<times> cl_out list" where
  "cl_session C [] cl = (cl, [])"
| "cl_session C (ev # evs) cl =
     (case cl_event_step C ev cl of
        (cl1, o1) \<Rightarrow> (case cl_session C evs cl1 of (cl2, o2) \<Rightarrow> (cl2, o1 @ o2)))"

section \<open>End\<close>

text \<open>\<open>Killed\<close> stands for everything that runs no Python code any more: a kill, a crash, a power cut.\<close>

datatype client_end = Interrupted | Terminated | AcceptRaised | Killed

definition client_stop :: "bool \<Rightarrow> (nat \<Rightarrow> bool) \<Rightarrow> bool \<Rightarrow> client \<times> win_state \<Rightarrow> client \<times> win_state" where
  "client_stop win32 fails no_delete s =
     (case s of (cl, w) \<Rightarrow>
        (cl\<lparr>cl_running := False\<rparr>, if cl_auto_system cl then proxy_disable_op win32 fails no_delete w else w))"

definition at_exit :: "bool \<Rightarrow> bool \<Rightarrow> (nat \<Rightarrow> bool) \<Rightarrow> bool \<Rightarrow> client \<times> win_state \<Rightarrow> client \<times> win_state" where
  "at_exit registered win32 fails no_delete s =
     (case s of (cl, w) \<Rightarrow> (cl, if registered then proxy_disable_op win32 fails no_delete w else w))"

text \<open>
  Both signals are handled by \<open>_handle_signal\<close> when the handlers are installed, which is when \<open>disable\<close> was
  registered; otherwise an interrupt ends the accept loop through \<open>stop\<close> and a termination is final.
\<close>

definition handle_signal :: "bool \<Rightarrow> (nat \<Rightarrow> bool) \<Rightarrow> bool \<Rightarrow> client \<times> win_state \<Rightarrow> client \<times> win_state" where
  "handle_signal win32 fails no_delete s =
     at_exit True win32 fails no_delete (client_stop win32 fails no_delete s)"

definition client_finish ::
  "client_end \<Rightarrow> bool \<Rightarrow> bool \<Rightarrow> (nat \<Rightarrow> bool) \<Rightarrow> bool \<Rightarrow> client \<times> win_state \<Rightarrow> client \<times> win_state" where
  "client_finish fin registered win32 fails no_delete s =
     (case fin of
        Killed \<Rightarrow> s
      | AcceptRaised \<Rightarrow> at_exit registered win32 fails no_delete s
      | Interrupted \<Rightarrow>
          (if registered then handle_signal win32 fails no_delete s else client_stop win32 fails no_delete s)
      | Terminated \<Rightarrow> (if registered then handle_signal win32 fails no_delete s else s))"

section \<open>The program\<close>

record client_world =
  cw_envs :: "nat \<Rightarrow> env"
  cw_arrivals :: "bytes list"
  cw_win32 :: bool
  cw_enable_fails :: "nat \<Rightarrow> bool"
  cw_disable_fails :: "nat \<Rightarrow> bool"
  cw_no_delete :: bool
  cw_bind_ok :: bool
  cw_events :: "cl_event list"
  cw_end :: client_end

definition client_program ::
  "crypto \<Rightarrow> client_world \<Rightarrow> client \<times> win_state \<Rightarrow> (client \<times> win_state) \<times> cl_out list \<times> start_result" where
  "client_program C W s =
     (case client_start C (cw_envs W) (cw_arrivals W) (cw_win32 W) (cw_enable_fails W) (cw_bind_ok W) s of
        ((cl1, w1), o1, reg, Listening) \<Rightarrow>
          (case cl_session C (cw_events W) cl1 of
             (cl2, o2) \<Rightarrow>
               (client_finish (cw_end W) reg (cw_win32 W) (cw_disable_fails W) (cw_no_delete W) (cl2, w1), o1 @ o2, Listening))
      | (s1, o1, reg, r) \<Rightarrow> (at_exit reg (cw_win32 W) (cw_disable_fails W) (cw_no_delete W) s1, o1, r))"

text \<open>\<open>main\<close>: \<open>AegsClient(...)\<close>, which raises for a token that has no UTF-8 form, and \<open>start\<close>.\<close>

definition client_main ::
  "crypto \<Rightarrow> client_world \<Rightarrow> ustr \<Rightarrow> nat \<Rightarrow> nat \<Rightarrow> ustr \<Rightarrow> nat \<Rightarrow> bool \<Rightarrow> bytes \<Rightarrow> registry \<Rightarrow>
   pyexn + ((client \<times> win_state) \<times> cl_out list \<times> start_result)" where
  "client_main C W host bp socks_port token pc auto priv reg =
     (case client_init C (cw_envs W 0) host bp token pc auto priv of
        Inl e \<Rightarrow> Inl e
      | Inr cl \<Rightarrow>
          Inr (client_program C W (cl, (proxy_mgr_init (ustr ''127.0.0.1:'' @ str_nat socks_port), reg))))"

section \<open>Lemmas\<close>

lemma cl_event_step_keeps:
  assumes "cl_event_step C ev cl = (cl', outs)"
  shows "(client_wf cl \<longrightarrow> client_wf cl') \<and> cl_auto_system cl' = cl_auto_system cl \<and> cl_tx_seq cl \<le> cl_tx_seq cl'"
proof -
  have send: "(client_wf c \<longrightarrow> client_wf c') \<and> cl_auto_system c' = cl_auto_system c \<and> cl_tx_seq c \<le> cl_tx_seq c'"
    if "send_raw_packet C E c sid cmd p ch = (c', o', ex)" for E c sid cmd p ch c' o' ex
    using that send_raw_packet_wf [of c C E sid cmd p ch c' o' ex]
    by (auto simp: send_raw_packet_def Let_def split: option.splits sum.splits if_splits)
  have recv: "(client_wf cl \<longrightarrow> client_wf cl') \<and> cl_auto_system cl' = cl_auto_system cl \<and> cl_tx_seq cl' = cl_tx_seq cl"
    if "udp_round C E cl d = (cl', o')" for E d o'
    using that udp_receive_wf [of cl C E "take 4096 d"]
    by (auto simp: udp_round_def udp_receive_def deliver_frame_def Let_def split: if_splits option.splits)
  have streams: "client_wf (cl\<lparr>cl_streams := (cl_streams cl)(sid := None)\<rparr>)" if "client_wf cl" for sid
    using that by (auto simp: client_wf_def)
  show ?thesis
  proof (cases ev)
    case (RecvRound E d)
    with assms recv show ?thesis by (fastforce simp: cl_event_step_def)
  next
    case (ChaffRound E)
    have "client_wf (c\<lparr>cl_last_real := n\<rparr>) = client_wf c" for c n by (simp add: client_wf_def)
    with assms ChaffRound show ?thesis
      by (auto simp: cl_event_step_def chaff_round_def split: if_splits prod.splits option.splits dest!: send)
  next
    case (Accepted conn)
    with assms show ?thesis
      using register_conn_wf [of cl conn] by (auto simp: cl_event_step_def register_conn_def Let_def split: if_splits)
  next
    case (ConnFrame E sid cmd p)
    with assms show ?thesis by (auto simp: cl_event_step_def split: prod.splits dest!: send)
  next
    case (ConnTouch E)
    with assms show ?thesis by (auto simp: cl_event_step_def client_wf_def)
  next
    case (ConnEnd E sid conn)
    with assms show ?thesis
      by (auto simp: cl_event_step_def conn_finally_def streams split: prod.splits option.splits dest!: send)
  qed
qed

lemma cl_session_keeps:
  "cl_session C evs cl = (cl', outs) \<Longrightarrow>
   (client_wf cl \<longrightarrow> client_wf cl') \<and> cl_auto_system cl' = cl_auto_system cl \<and> cl_tx_seq cl \<le> cl_tx_seq cl'"
proof (induction C evs cl arbitrary: cl' outs rule: cl_session.induct)
  case (2 C ev evs cl)
  obtain cl1 o1 cl2 o2 where s: "cl_event_step C ev cl = (cl1, o1)" "cl_session C evs cl1 = (cl2, o2)"
    by (metis surj_pair)
  from 2(1) [OF s(1) [symmetric] s(2)] cl_event_step_keeps [OF s(1)] 2(2) s show ?case by auto
qed simp

text \<open>The manager with the system proxy on, and what \<open>disable\<close> makes of it.\<close>

definition saved_switch :: "registry \<Rightarrow> nat" where
  "saved_switch r = (case proxy_enable r of None \<Rightarrow> 0 | Some v \<Rightarrow> v)"

definition proxy_on :: "registry \<Rightarrow> win_state \<Rightarrow> bool" where
  "proxy_on r w \<longleftrightarrow> is_active (fst w) \<and> orig_enabled (fst w) = saved_switch r \<and> proxy_enable (snd w) = Some 1 \<and>
     run_once (snd w) = Some (restore_cmd (saved_switch r))"

definition proxy_off :: "registry \<Rightarrow> win_state \<Rightarrow> bool" where
  "proxy_off r w \<longleftrightarrow> \<not> is_active (fst w) \<and> (snd w = r \<or> proxy_enable (snd w) = Some (saved_switch r))"

lemma enable_on: "proxy_on r (proxy_enable_op True (\<lambda>_. False) (m, r))"
  by (simp add: proxy_on_def proxy_enable_op_def enable_all saved_switch_def)

lemma disable_off:
  "proxy_on r w \<Longrightarrow> proxy_off r (proxy_disable_op True (\<lambda>_. False) nd w)"
  "proxy_off r w \<Longrightarrow> proxy_disable_op win32 f nd w = w"
  by (cases w; simp add: proxy_on_def proxy_off_def proxy_disable_op_def disable_calls_def)+

lemma disable_twice:
  "proxy_on r w \<Longrightarrow> proxy_disable_op True f nd (proxy_disable_op True (\<lambda>_. False) nd w) = proxy_disable_op True (\<lambda>_. False) nd w"
  by (rule disable_off(2) [OF disable_off(1)])

lemma finish_off:
  assumes "proxy_off r w \<or> (reg \<and> cl_auto_system cl \<and> win32 \<and> proxy_on r w)" "fin \<noteq> Killed"
  shows "proxy_off r (snd (client_finish fin reg win32 (\<lambda>_. False) nd (cl, w)))"
  using assms
  by (cases fin)
    (auto simp: client_finish_def handle_signal_def client_stop_def at_exit_def disable_off disable_twice)

text \<open>The state in which \<open>start\<close> leaves the proxy.\<close>

lemma start_proxy:
  assumes "client_start C Es arrivals win32 (\<lambda>_. False) b (cl, (m, r)) = ((cl1, w1), outs, reg, res)" "\<not> is_active m"
  shows "cl_auto_system cl1 = cl_auto_system cl \<and> (reg \<longrightarrow> cl_auto_system cl) \<and>
    (if reg \<and> win32 then proxy_on r w1 else w1 = (m, r)) \<and> (res = Listening \<longrightarrow> reg = cl_auto_system cl) \<and> (res = NoTunnel \<longrightarrow> \<not> reg)"
proof -
  have a: "cl_auto_system c' = cl_auto_system cl" if "perform_handshake C E cl ds = (c', o', x)" for E ds c' o' x
  proof -
    have r: "case handshake_reply C c d of Waiting c' \<Rightarrow> cl_auto_system c' = cl_auto_system c
        | Returned c' b \<Rightarrow> cl_auto_system c' = cl_auto_system c" for c d
      by (auto simp: handshake_reply_def Let_def split: option.split)
    have "handshake_wait C c ds = (c', q) \<Longrightarrow> cl_auto_system c' = cl_auto_system c" for c q
    proof (induction ds arbitrary: c)
      case (Cons d ds)
      then show ?case using r [of c "take 2048 d"] by (auto split: hs_step.splits)
    qed simp
    with that show ?thesis by (auto simp: perform_handshake_def split: sum.splits if_splits prod.splits)
  qed
  have "proxy_enable_op False f w = w" for f w by (simp add: proxy_enable_op_def)
  with assms show ?thesis
    by (auto simp: client_start_def Let_def enable_on split: prod.splits option.splits sum.splits bool.splits if_splits dest: a)
qed

text \<open>The handshake of \<open>start\<close> against a running server.\<close>

lemma start_against_server:
  assumes "crypto_ok C" "client_init C E0 host bp token pc auto priv = Inr cl" "server_init C bp' token pc' = Inr st"
    and "0 < pc" "send_ok (Es 1)" "send_ok Ev"
    and "on_datagram C Ev st a (handshake_init C (Es 1) cl) spriv (x25519_public C spriv) = (st', outs)"
  shows "\<exists>reply cl' o1 p. SendTo reply a \<in> set outs \<and>
    client_start C Es [reply] win fails True (cl, w) =
      ((cl', if auto then proxy_enable_op win fails w else w), o1, auto, Listening) \<and>
    UdpSend (handshake_init C (Es 1) cl) (host, p) \<in> set o1 \<and>
    cl_send_key cl' = sv_recv_key st' \<and> cl_recv_key cl' = sv_send_key st' \<and> cl_send_key cl' \<noteq> None \<and>
    peers cl' st' \<and> client_wf cl' \<and> server_wf st'"
proof -
  have wf: "client_wf cl" "server_wf st" "peers cl st"
    using client_init_wf [OF assms(1,2)] server_init_wf [OF assms(1,3)] same_token_peers [OF assms(2,3)] by auto
  have c: "cl_pub cl = x25519_public C (cl_priv cl)" "cl_auto_system cl = auto" "cl_port_count cl = pc"
    "cl_server_host cl = host"
    using assms(2) by (auto simp: client_init_def Let_def split: option.splits)
  obtain shared where sh: "x25519_exchange C spriv (cl_pub cl) = Some shared"
    "x25519_exchange C (cl_priv cl) (x25519_public C spriv) = Some shared"
    using x25519_defined [OF assms(1), of spriv "cl_priv cl"] x25519_commute [OF assms(1), of spriv "cl_priv cl"] c(1)
    by auto
  note r = on_datagram_accepts [OF handshake_init_valid [OF assms(1) wf(1,3) sh(1), of "Es 1"] assms(6,7)]
  let ?reply = "handshake_response C (ent Ev) st (hs_key C st) (hs_salt C st) (x25519_public C spriv)"
  let ?cl = "cl\<lparr>cl_resume_token := Some (token_bytes (ent Ev) 0 32), cl_send_key := Some (c2s_key C shared),
                cl_recv_key := Some (s2c_key C shared)\<rparr>"
  have pl: "length (x25519_public C spriv) = 32" by (rule length_x25519_public [OF assms(1)])
  have "length (hs_key C st) = 32" by (simp add: hs_key_def hkdf_expand_def length_hkdf [OF assms(1)])
  then have cut: "take 2048 ?reply = ?reply" using length_handshake_response [OF assms(1) wf(2) _ pl] by simp
  have acc: "handshake_reply C cl ?reply = Returned ?cl True"
    by (rule handshake_reply_accepts [OF assms(1) wf pl sh(2)])
  have hs: "perform_handshake C (Es 1) cl [?reply] =
      (?cl, [UdpSend (handshake_init C (Es 1) cl) (host, cl_base_port cl + now_us (Es 1) div 1000000 mod pc)], Inr True)"
    using assms(4,5) c by (simp add: perform_handshake_def get_current_port_def cut acc)
  obtain o0 where pre: "send_illusion_prebypass (Es 0) cl = (o0, None)"
    using assms(4) c(3) by (simp add: send_illusion_prebypass_def get_current_port_def)
  have start: "client_start C Es [?reply] win fails True (cl, w) =
      ((?cl, if auto then proxy_enable_op win fails w else w),
       o0 @ [UdpSend (handshake_init C (Es 1) cl) (host, cl_base_port cl + now_us (Es 1) div 1000000 mod pc)], auto, Listening)"
    using c(2) by (simp add: client_start_def pre hs del: One_nat_def)
  have "client_wf ?cl" using handshake_reply_wf [OF assms(1) wf(1) acc] by simp
  moreover have "server_wf st'" by (rule on_datagram_wf [OF assms(1) wf(2) assms(7)])
  moreover have "peers ?cl st'" using wf(3) r by (simp add: peers_def)
  ultimately show ?thesis using start r by (intro exI [of _ ?reply] exI [of _ ?cl] exI conjI) auto
qed

lemma init_empty_token: "\<exists>cl. client_init C E host bp [] pc auto priv = Inr cl"
  by (simp add: client_init_def Let_def)

section \<open>Properties\<close>





end
