(* ===== verification/QuickMain.thy ===== *)
theory QuickMain
  imports QuickClient
begin

text \<open>
  The commands of scripts/quick_client.py: \<open>run\<close>, \<open>keyid\<close>, \<open>gen-wg\<close> and the wizard, as \<open>main\<close> dispatches
  them. Arguments are those that the parser has accepted; what is printed is left out but for the key id.
\<close>

datatype q_effect = WriteConfig ustr ustr | ShowKeyId ustr | Run q_action

definition keyid_command :: "ustr \<Rightarrow> pyexn + q_effect list" where
  "keyid_command token =
     (case utf8_encode token of
        None \<Rightarrow> Inl UnicodeError
      | Some tok \<Rightarrow> Inr [ShowKeyId (snd (q_compute_key_id tok))])"

text \<open>The three answers of the user; a configuration file that cannot be written raises.\<close>

definition interactive_wizard :: "bool \<Rightarrow> ustr option \<Rightarrow> ustr \<Rightarrow> ustr \<Rightarrow> ustr \<Rightarrow> pyexn + q_effect list" where
  "interactive_wizard write_ok native_bin server_in token_in port_in =
     (let server = strip_by is_space server_in;
          token = strip_by is_space token_in;
          port_input = strip_by is_space port_in
      in case (if port_input \<noteq> [] then py_int port_input else Some 51821) of
           None \<Rightarrow> Inl ValueError
         | Some port \<Rightarrow>
             if server = [] \<or> token = [] then Inr []
             else if \<not> write_ok then Inl OSError
             else Inr [WriteConfig (ustr ''aegis-wg.conf'') (generate_wg_config port),
                       Run (case native_bin of
                              Some bin \<Rightarrow> RunNative [bin, ustr ''--server'', server, ustr ''--token'', token, ustr ''--port'', str_int port]
                            | None \<Rightarrow> RunPython server token port False False)])"

datatype q_cli =
    CliRun ustr ustr int bool bool bool
  | CliKeyId ustr
  | CliGenWg int ustr
  | CliWizard ustr ustr ustr

definition quick_main :: "bool \<Rightarrow> ustr option \<Rightarrow> q_cli \<Rightarrow> pyexn + q_effect list" where
  "quick_main write_ok native_bin cli =
     (case cli of
        CliRun server token port ks dns force \<Rightarrow> Inr [Run (run_command native_bin server token port ks dns force)]
      | CliKeyId token \<Rightarrow> keyid_command token
      | CliGenWg port out \<Rightarrow> (if write_ok then Inr [WriteConfig out (generate_wg_config port)] else Inl OSError)
      | CliWizard s t p \<Rightarrow> interactive_wizard write_ok native_bin s t p)"

section \<open>Properties\<close>

text \<open>The wizard is the run command without any protection: for the same answers it starts what \<open>run\<close> starts
  without flags, so it never asks for the kill switch or the DNS shield, and the configuration that it
  writes points WireGuard at the port that the proxy is told to use.\<close>
theorem wizard_runs_unprotected:
  "interactive_wizard True native_bin s t p =
     (case (if strip_by is_space p \<noteq> [] then py_int (strip_by is_space p) else Some 51821) of
        None \<Rightarrow> Inl ValueError
      | Some port \<Rightarrow>
          (let r = quick_main True native_bin (CliRun (strip_by is_space s) (strip_by is_space t) port False False False)
           in if r = Inr [Run UsageError] then Inr []
              else case (quick_main True native_bin (CliGenWg port (ustr ''aegis-wg.conf'')), r) of
                     (Inr w, Inr x) \<Rightarrow> Inr (w @ x)
                   | _ \<Rightarrow> r))"
  by (simp add: interactive_wizard_def quick_main_def run_command_def Let_def split: option.split)

end
