(* ===== verification/ServerRun.thy ===== *)
theory ServerRun
  imports ServerAuth
begin

text \<open>
  The server of aegs_server.py as a program: \<open>main\<close>, the ports that \<open>start\<close> binds, its receive loop with one
  \<open>select\<close> per turn, the proxy threads and the heartbeat. Printing is left out but for what the heartbeat
  counts.
\<close>

section \<open>The receive loop\<close>

text \<open>A ready socket: \<open>recvfrom\<close> raises or gives a datagram.\<close>

datatype sock_read = ReadFails | Read env addr bytes

text \<open>
  The sockets that \<open>select\<close> reports, in order. An exception ends the turn; the sockets behind it stay
  ready and are reported again by the next one.
\<close>

fun server_turn :: "crypto \<Rightarrow> bytes \<Rightarrow> bytes \<Rightarrow> sock_read list \<Rightarrow> server \<Rightarrow> server \<times> srv_out list" where
  "server_turn C priv pub [] st = (st, [])"
| "server_turn C priv pub (ReadFails # rs) st = (st, [])"
| "server_turn C priv pub (Read E a d # rs) st =
     (if d = [] then server_turn C priv pub rs st
      else
        (case process_packet C E
                (st\<lparr>sv_packets_rx := sv_packets_rx st + 1, sv_bytes_rx := sv_bytes_rx st + length d\<rparr>) a d priv pub of
           (st1, o1, Some e) \<Rightarrow> (st1, o1)
         | (st1, o1, None) \<Rightarrow>
             (case server_turn C priv pub rs st1 of (st2, o2) \<Rightarrow> (st2, o1 @ o2))))"

section \<open>The threads\<close>

text \<open>Clients, streams, packets, bytes in and out; printed only when a client is known.\<close>

definition heartbeat :: "server \<Rightarrow> (nat \<times> nat \<times> nat \<times> nat \<times> nat) option" where
  "heartbeat st =
     (let num_clients = card (dom (sv_active st)) in
      if num_clients > 0
      then Some (num_clients, card (dom (sv_streams st)), sv_packets_rx st, sv_bytes_rx st, sv_bytes_tx st)
      else None)"

datatype srv_event =
    Turn "sock_read list"
  | WorkerConnected nat nat
  | WorkerChunk env nat bytes
  | WorkerEnds env nat "nat option"

definition srv_event_step :: "crypto \<Rightarrow> bytes \<Rightarrow> bytes \<Rightarrow> srv_event \<Rightarrow> server \<Rightarrow> server \<times> srv_out list" where
  "srv_event_step C priv pub ev st =
     (case ev of
        Turn rs \<Rightarrow> server_turn C priv pub rs st
      | WorkerConnected sid sock \<Rightarrow> (proxy_connected st sid sock, [])
      | WorkerChunk E sid chunk \<Rightarrow> (case proxy_chunk C E st sid chunk of (st', outs, _) \<Rightarrow> (st', outs))
      | WorkerEnds E sid sock \<Rightarrow> (case proxy_finally C E st sid sock of (st', outs, _) \<Rightarrow> (st', outs)))"

fun server_loop :: "crypto \<Rightarrow> bytes \<Rightarrow> bytes \<Rightarrow> srv_event list \<Rightarrow> server \<Rightarrow> server \<times> srv_out list" where
  "server_loop C priv pub [] st = (st, [])"
| "server_loop C priv pub (ev # evs) st =
     (case srv_event_step C priv pub ev st of
        (st1, o1) \<Rightarrow> (case server_loop C priv pub evs st1 of (st2, o2) \<Rightarrow> (st2, o1 @ o2)))"

section \<open>The program\<close>

text \<open>\<open>start\<close>: without a free port it returns before the key pair is drawn; \<open>priv\<close> is that draw.\<close>

definition server_start ::
  "crypto \<Rightarrow> (nat \<Rightarrow> bool) \<Rightarrow> bytes \<Rightarrow> srv_event list \<Rightarrow> server \<Rightarrow> nat list option \<times> server \<times> srv_out list" where
  "server_start C can_bind priv evs st =
     (case bound_ports st can_bind of
        None \<Rightarrow> (None, st, [])
      | Some ps \<Rightarrow> (Some ps, server_loop C priv (x25519_public C priv) evs st))"

definition server_main ::
  "crypto \<Rightarrow> nat \<Rightarrow> ustr \<Rightarrow> nat \<Rightarrow> (nat \<Rightarrow> bool) \<Rightarrow> bytes \<Rightarrow> srv_event list \<Rightarrow>
   pyexn + nat list option \<times> server \<times> srv_out list" where
  "server_main C bp token pc can_bind priv evs =
     (case server_init C bp token pc of
        Inl e \<Rightarrow> Inl e
      | Inr st \<Rightarrow> Inr (server_start C can_bind priv evs st))"

section \<open>Every state of the program is a state of the transition system\<close>

lemma srv_run_trans: "srv_run C priv pub st1 qs st2 \<Longrightarrow> srv_run C priv pub st ps st1 \<Longrightarrow> srv_run C priv pub st (ps @ qs) st2"
proof (induction rule: srv_run.induct)
  case (step qs s1 rs s2)
  then show ?case using srv_run.step [OF step.IH [OF step.prems] step.hyps(2)] by simp
qed simp

lemma srv_run_one: "srv_step C priv pub st ps st' \<Longrightarrow> srv_run C priv pub st ps st'"
  using srv_run.step [OF srv_run.start] by fastforce

lemma server_turn_run: "server_turn C priv pub rs st = (st', outs) \<Longrightarrow> \<exists>ps. srv_run C priv pub st ps st'"
proof (induction C priv pub rs st arbitrary: st' outs rule: server_turn.induct)
  case (3 C priv pub E a d rs st)
  show ?case
  proof (cases "d = []")
    case True
    with 3 show ?thesis by simp
  next
    case False
    obtain st1 o1 ex where p: "process_packet C E
        (st\<lparr>sv_packets_rx := sv_packets_rx st + 1, sv_bytes_rx := sv_bytes_rx st + length d\<rparr>) a d priv pub = (st1, o1, ex)"
      by (rule prod_cases3)
    have one: "srv_run C priv pub st [] st1"
      by (rule srv_run_one, rule srv_step.datagram [of C E st a d priv pub st1 o1]) (simp only: on_datagram_def False if_False p prod.case)
    show ?thesis
    proof (cases ex)
      case None
      obtain st2 o2 where t: "server_turn C priv pub rs st1 = (st2, o2)" by fastforce
      with 3(2) [OF False p [symmetric] refl None t] 3(3) False p None one show ?thesis
        by (auto dest: srv_run_trans [OF _ one])
    qed (use 3(3) False p one in auto)
  qed
qed (auto intro: srv_run.start)

lemma srv_event_run: "srv_event_step C priv pub ev st = (st', outs) \<Longrightarrow> \<exists>ps. srv_run C priv pub st ps st'"
  by (cases ev)
    (auto simp: srv_event_step_def split: prod.splits intro: server_turn_run srv_run_one srv_step.intros)

lemma server_loop_run: "server_loop C priv pub evs st = (st', outs) \<Longrightarrow> \<exists>ps. srv_run C priv pub st ps st'"
proof (induction C priv pub evs st arbitrary: st' outs rule: server_loop.induct)
  case (2 C priv pub ev evs st)
  obtain st1 o1 where e: "srv_event_step C priv pub ev st = (st1, o1)" by fastforce
  obtain st2 o2 where l: "server_loop C priv pub evs st1 = (st2, o2)" by fastforce
  show ?case using srv_event_run [OF e] 2(1) [OF e [symmetric] l] 2(2) e l by (auto dest: srv_run_trans)
qed (auto intro: srv_run.start)

section \<open>What a datagram shows of the token\<close>

text \<open>\<open>K\<close> is any state of the server with the same long-term keys, say the one that the constructor made.\<close>

definition knows_token :: "crypto \<Rightarrow> server \<Rightarrow> bytes \<Rightarrow> bool" where
  "knows_token C K d \<longleftrightarrow> auth_init C K d \<or> auth_raw K d \<or> auth_resume C K d"

definition same_secrets :: "server \<Rightarrow> server \<Rightarrow> bool" where
  "same_secrets K st \<longleftrightarrow> sv_master_key st = sv_master_key K \<and> sv_mask_key st = sv_mask_key K \<and>
     sv_raw_kid st = sv_raw_kid K \<and> sv_rkey st = sv_rkey K"

lemma knows_token_cong: "same_secrets K st \<Longrightarrow> knows_token C st d = knows_token C K d"
  by (simp add: knows_token_def same_secrets_def auth_init_def auth_raw_def auth_resume_def header_ok_def
      header_offset_def cong: option.case_cong)

definition ev_datagrams :: "srv_event \<Rightarrow> bytes set" where
  "ev_datagrams ev = (case ev of Turn rs \<Rightarrow> {d. \<exists>E a. Read E a d \<in> set rs} | _ \<Rightarrow> {})"

text \<open>What the server may show to somebody who has proved nothing.\<close>

definition harmless :: "srv_out \<Rightarrow> bool" where
  "harmless x \<longleftrightarrow> (case x of SendTo p a \<Rightarrow> length p = 20 | StartProxy _ _ _ \<Rightarrow> False | StreamSend _ _ \<Rightarrow> False | _ \<Rightarrow> True)"

definition no_session :: "server \<Rightarrow> server \<Rightarrow> bool" where
  "no_session K st \<longleftrightarrow> same_secrets K st \<and> sv_recv_key st = None \<and> sv_send_key st = None \<and>
     sv_client_addr st = None \<and> sv_active st = Map.empty"

lemma process_packet_no_session:
  assumes "process_packet C E st a d priv pub = (st', outs, ex)" "no_session K st" "\<not> knows_token C K d"
  shows "no_session K st' \<and> (\<forall>x \<in> set outs. harmless x)"
proof -
  have "\<not> authenticated C st d"
    using assms(2,3) knows_token_cong [of K st C d]
    by (auto simp: authenticated_def knows_token_def no_session_def auth_data_def)
  from process_packet_inert [OF assms(1) this] have r: "replay_only st st'"
    "log_only outs \<or> outs = [SendTo (stun_decoy (ent E)) a, Log (LogStun a)]" by auto
  have "st = st'\<lparr>sv_replay := sv_replay st\<rparr>" using r(1) by (simp add: replay_only_def)
  moreover have "no_session K (s\<lparr>sv_replay := f\<rparr>) = no_session K s" for s f
    by (simp add: no_session_def same_secrets_def)
  ultimately have "no_session K st'" using assms(2) by metis
  moreover have "\<forall>x \<in> set outs. harmless x"
    using r(2) by (auto simp: log_only_def harmless_def length_stun_decoy)
  ultimately show ?thesis by blast
qed

lemma server_turn_no_session:
  assumes "server_turn C priv pub rs st = (st', outs)" "no_session K st" "\<forall>d \<in> ev_datagrams (Turn rs). \<not> knows_token C K d"
  shows "no_session K st' \<and> (\<forall>x \<in> set outs. harmless x)"
  using assms
proof (induction C priv pub rs st arbitrary: st' outs rule: server_turn.induct)
  case (3 C priv pub E a d rs st)
  have "d \<in> ev_datagrams (Turn (Read E a d # rs))" "ev_datagrams (Turn rs) \<subseteq> ev_datagrams (Turn (Read E a d # rs))"
    unfolding ev_datagrams_def srv_event.case by (metis (mono_tags) list.set_intros(1) mem_Collect_eq) auto
  then have rs: "\<forall>x \<in> ev_datagrams (Turn rs). \<not> knows_token C K x" "\<not> knows_token C K d"
    using 3(5) by blast+
  show ?case
  proof (cases "d = []")
    case True
    with 3 rs show ?thesis by simp
  next
    case False
    let ?st = "st\<lparr>sv_packets_rx := sv_packets_rx st + 1, sv_bytes_rx := sv_bytes_rx st + length d\<rparr>"
    obtain st1 o1 ex where p: "process_packet C E ?st a d priv pub = (st1, o1, ex)" by (rule prod_cases3)
    have "no_session K ?st" using 3(4) by (simp add: no_session_def same_secrets_def)
    note one = process_packet_no_session [OF p this rs(2)]
    show ?thesis
    proof (cases ex)
      case None
      obtain st2 o2 where t: "server_turn C priv pub rs st1 = (st2, o2)" by fastforce
      have "(st', outs) = (st2, o1 @ o2)"
        using 3(3) unfolding server_turn.simps if_not_P [OF False] p None t prod.case option.case by simp
      with 3(2) [OF False p [symmetric] refl None t _ rs(1)] one show ?thesis by auto
    next
      case (Some e)
      have "(st', outs) = (st1, o1)"
        using 3(3) unfolding server_turn.simps if_not_P [OF False] p Some prod.case option.case by simp
      with one show ?thesis by simp
    qed
  qed
qed auto

lemma srv_event_no_session:
  assumes "srv_event_step C priv pub ev st = (st', outs)" "no_session K st" "\<forall>d \<in> ev_datagrams ev. \<not> knows_token C K d"
  shows "no_session K st' \<and> (\<forall>x \<in> set outs. harmless x)"
proof (cases ev)
  case (Turn rs)
  with assms server_turn_no_session show ?thesis by (simp add: srv_event_step_def)
qed (use assms in \<open>auto simp: srv_event_step_def proxy_connected_def proxy_chunk_def proxy_finally_def
      send_aegs_frame_def no_session_def same_secrets_def harmless_def split: option.splits\<close>)

lemma server_loop_no_session:
  assumes "server_loop C priv pub evs st = (st', outs)" "no_session K st"
    and "\<forall>ev \<in> set evs. \<forall>d \<in> ev_datagrams ev. \<not> knows_token C K d"
  shows "no_session K st' \<and> (\<forall>x \<in> set outs. harmless x)"
  using assms
proof (induction C priv pub evs st arbitrary: st' outs rule: server_loop.induct)
  case (2 C priv pub ev evs st)
  obtain st1 o1 where e: "srv_event_step C priv pub ev st = (st1, o1)" by fastforce
  obtain st2 o2 where l: "server_loop C priv pub evs st1 = (st2, o2)" by fastforce
  have "no_session K st1 \<and> (\<forall>x \<in> set o1. harmless x)" by (rule srv_event_no_session [OF e 2(3)]) (use 2(4) in simp)
  with 2(1) [OF e [symmetric] l] 2(2,4) e l show ?case by auto
qed auto

section \<open>Properties\<close>

text \<open>C9: Through any turns and any interleaving of proxy threads the program stays in well-formed states, listens
  on free ports of its range only, and does nothing at all when none is free.\<close>
theorem server_main_wf:
  assumes "crypto_ok C" "server_main C bp token pc can_bind priv evs = Inr (ports, st, outs)"
  shows "server_wf st \<and>
    (case ports of None \<Rightarrow> outs = [] \<and> (\<forall>p. bp \<le> p \<and> p < bp + pc \<longrightarrow> \<not> can_bind p)
     | Some ps \<Rightarrow> ps \<noteq> [] \<and> (\<forall>p \<in> set ps. can_bind p \<and> bp \<le> p \<and> p < bp + pc))"
proof -
  obtain K where i: "server_init C bp token pc = Inr K" and s: "server_start C can_bind priv evs K = (ports, st, outs)"
    using assms(2) by (auto simp: server_main_def split: sum.splits)
  have rg: "sv_base_port K = bp" "sv_port_count K = pc" using i by (auto simp: server_init_def Let_def split: option.splits)
  note wf = server_init_wf [OF assms(1) i]
  show ?thesis
  proof (cases "bound_ports K can_bind")
    case None
    with s wf rg show ?thesis by (auto simp: server_start_def bound_ports_def filter_empty_conv Let_def split: if_splits)
  next
    case (Some ps)
    with s have l: "ports = Some ps" "server_loop C priv (x25519_public C priv) evs K = (st, outs)"
      by (auto simp: server_start_def)
    then obtain qs where "srv_run C priv (x25519_public C priv) K qs st" using server_loop_run by blast
    then have "server_wf st" using srv_run_wf assms(1) wf by blast
    with l(1) Some rg show ?thesis by (auto simp: bound_ports_def Let_def split: if_splits)
  qed
qed

theorem server_main_wf_witness:
  "\<exists>st outs. server_main toy_crypto 50001 [] 2 (\<lambda>p. p = 50002) [7] [] = Inr (Some [50002], st, outs) \<and> server_wf st"
proof -
  obtain K where i: "server_init toy_crypto 50001 [] 2 = Inr K" using server_init_empty by blast
  have rg: "sv_base_port K = 50001" "sv_port_count K = 2" using i by (auto simp: server_init_def Let_def split: option.splits)
  have "bound_ports K (\<lambda>p. p = 50002) = Some [50002]"
    by (simp add: bound_ports_def rg upt_rec)
  then have m: "server_main toy_crypto 50001 [] 2 (\<lambda>p. p = 50002) [7] [] = Inr (Some [50002], K, [])"
    by (simp add: server_main_def i server_start_def)
  from server_main_wf [OF toy_crypto_ok m] m show ?thesis by blast
qed

text \<open>C3: Without the token the server is a black hole for as long as it runs: if no datagram of any turn proves
  the token, in whatever order datagrams arrive and threads act, no session ever exists, no client is
  ever shown, no connection is opened, no byte is written to one, and nothing is sent but decoys of
  20 bytes.\<close>
theorem nothing_without_token:
  assumes "server_main C bp token pc can_bind priv evs = Inr (ports, st, outs)" "server_init C bp token pc = Inr K"
    and "\<forall>ev \<in> set evs. \<forall>d \<in> ev_datagrams ev. \<not> knows_token C K d"
  shows "sv_recv_key st = None \<and> sv_send_key st = None \<and> sv_client_addr st = None \<and> sv_active st = Map.empty \<and>
    (\<forall>x \<in> set outs. harmless x)"
proof -
  have n: "no_session K K"
    using assms(2) by (auto simp: server_init_def no_session_def same_secrets_def Let_def split: option.splits)
  have "no_session K st \<and> (\<forall>x \<in> set outs. harmless x)"
  proof (cases "bound_ports K can_bind")
    case None
    with assms(1,2) n show ?thesis by (auto simp: server_main_def server_start_def)
  next
    case (Some ps)
    with assms(1,2) have "server_loop C priv (x25519_public C priv) evs K = (st, outs)"
      by (auto simp: server_main_def server_start_def)
    from server_loop_no_session [OF this n assms(3)] show ?thesis .
  qed
  then show ?thesis by (simp add: no_session_def)
qed

lemma short_shows_nothing:
  assumes "length d < 28"
  shows "\<not> knows_token toy_crypto K d"
proof -
  have t: "aead_decrypt toy_crypto k n [] a = None" for k n a by (simp add: toy_crypto_def)
  have s: "aead_decrypt toy_crypto k n c a = None" if "length c < 16" for k n c a
    using that by (simp add: toy_crypto_def Let_def)
  have "drop (header_offset toy_crypto K d + 12) d = []" using assms by (simp add: header_offset_def)
  moreover have "length (slice (slice d 1 97) 12 64) < 16" using assms by (simp add: slice_def)
  moreover have "slice d 56 72 \<noteq> take 16 (hmac_sha256 (sv_master_key K) (slice d 0 56))"
  proof -
    have "length (slice d 56 72) = 0" using assms by (simp add: slice_def)
    moreover have "length (take 16 (hmac_sha256 (sv_master_key K) (slice d 0 56))) = 16" by (simp add: length_hmac_sha256)
    ultimately show ?thesis by (auto simp del: length_take)
  qed
  ultimately show ?thesis using t s by (simp add: knows_token_def auth_init_def auth_raw_def auth_resume_def opens_with_def)
qed

theorem nothing_without_token_witness:
  "\<exists>st outs. server_main toy_crypto 50001 [] 2 (\<lambda>p. True) [7]
     [Turn [Read sample_env sample_addr ([0, 1] @ replicate 18 0)], WorkerChunk sample_env 101 [1]] =
       Inr (Some [50001, 50002], st, outs) \<and> sv_recv_key st = None"
proof -
  let ?evs = "[Turn [Read sample_env sample_addr ([0, 1] @ replicate 18 0)], WorkerChunk sample_env 101 [1]]"
  obtain K where i: "server_init toy_crypto 50001 [] 2 = Inr K" using server_init_empty by blast
  have rg: "sv_base_port K = 50001" "sv_port_count K = 2" using i by (auto simp: server_init_def Let_def split: option.splits)
  have b: "bound_ports K (\<lambda>p. True) = Some [50001, 50002]" by (simp add: bound_ports_def rg upt_rec)
  obtain st outs where m: "server_main toy_crypto 50001 [] 2 (\<lambda>p. True) [7] ?evs = Inr (Some [50001, 50002], st, outs)"
    unfolding server_main_def i sum.case server_start_def b option.case by (metis surj_pair)
  have "\<forall>ev \<in> set ?evs. \<forall>d \<in> ev_datagrams ev. \<not> knows_token toy_crypto K d"
    by (auto simp: ev_datagrams_def intro!: short_shows_nothing)
  from nothing_without_token [OF m i this] m show ?thesis by blast
qed

text \<open>A client that was once shown is counted for ever: nothing removes an entry of the monitor's table.\<close>
theorem clients_never_leave:
  assumes "server_loop C priv pub evs st = (st', outs)"
  shows "dom (sv_active st) \<subseteq> dom (sv_active st')"
proof -
  have m: "masked_handshake C E s a d priv pub = (s', o', r) \<Longrightarrow> dom (sv_active s) \<subseteq> dom (sv_active s')" for E s a d s' o' r
    by (auto simp: masked_handshake_def accept_masked_init_def print_client_connected_banner_def Let_def
        split: if_splits option.splits)
  have r: "raw_handshake C E s a d priv pub = (s', o') \<Longrightarrow> dom (sv_active s) \<subseteq> dom (sv_active s')" for E s a d s' o'
    by (auto simp: raw_handshake_def print_client_connected_banner_def Let_def split: if_splits option.splits)
  have h: "sv_active (fst (handle_client_payload E s pt a)) = sv_active s" for E s pt a
    by (auto simp: handle_client_payload_def Let_def split: option.split sum.split)
  have f: "sv_active (fst (data_frame C E s a d)) = sv_active s" for E s a d
    by (auto simp: data_frame_def open_frame_def h Let_def split: option.split prod.split sum.split)
  have g: "sv_active (fst (resume_session C s a d)) = sv_active s" for s a d
    by (auto simp: resume_session_def Let_def split: option.split)
  have p: "dom (sv_active s) \<subseteq> dom (sv_active s')" if "process_packet C E s a d priv pub = (s', o', x)" for E s a d s' o' x
  proof -
    obtain s1 o1 b where m1: "masked_handshake C E s a d priv pub = (s1, o1, b)" by (rule prod_cases3)
    have "dom (sv_active s1) \<subseteq> dom (sv_active (fst (raw_handshake C E s1 a d priv pub)))"
      using r by (metis prod.collapse)
    with that m1 m [OF m1] show ?thesis
      using f [of E s1 a d] g [of s1 a d]
      by (auto simp: process_packet_def split: if_splits bool.splits prod.splits)
  qed
  have st: "dom (sv_active s) \<subseteq> dom (sv_active s')" if "srv_step C priv pub s ps s'" for s ps s'
    using that
  proof (cases rule: srv_step.cases)
    case (datagram E a d outs)
    then show ?thesis using p by (fastforce simp: on_datagram_def split: if_splits prod.splits)
  qed (auto simp: proxy_connected_def proxy_chunk_def proxy_finally_def send_aegs_frame_def Let_def
      split: option.splits prod.splits if_splits)
  have "dom (sv_active s) \<subseteq> dom (sv_active s')" if "srv_run C priv pub s ps s'" for s ps s'
    using that by (induction rule: srv_run.induct) (use st in blast)+
  then show ?thesis using server_loop_run [OF assms] by blast
qed

end
