(* ===== verification/Session.thy ===== *)
theory Session
  imports ServerRun
begin

text \<open>
  An abstract specification of the server: it holds at most one session, a peer with two keys, and a table
  of streams. A datagram may be ignored or answered by a decoy; one that proves the token may admit its
  sender; one that opens under the session's key moves the session to its sender and is carried out.
  Nothing is said of counters, windows, padding and the order of the checks. The definitions of theory
  Server implement it.
\<close>

section \<open>Specification\<close>

record session =
  ss_peer :: "(addr \<times> bytes \<times> bytes) option"    \<comment> \<open>address, receive key, send key\<close>
  ss_streams :: "nat \<rightharpoonup> nat"

text \<open>What a datagram contains for the holder of a session key.\<close>

definition frame_content :: "crypto \<Rightarrow> server \<Rightarrow> bytes \<Rightarrow> bytes \<Rightarrow> bytes option" where
  "frame_content C K rk d = (if header_ok C K d then opens_with C rk d (header_offset C K d) else None)"

inductive sess_input :: "crypto \<Rightarrow> server \<Rightarrow> addr \<Rightarrow> bytes \<Rightarrow> session \<Rightarrow> srv_out list \<Rightarrow> session \<Rightarrow> bool"
  for C K a d where
  ignored: "sess_input C K a d s [] s"
| decoy: "length d = 20 \<Longrightarrow> length x = 20 \<Longrightarrow> sess_input C K a d s [SendTo x a] s"
| admit: "knows_token C K d \<Longrightarrow> outs = [] \<or> (\<exists>x. outs = [SendTo x a]) \<Longrightarrow>
    sess_input C K a d s outs (s\<lparr>ss_peer := Some (a, rk, sk)\<rparr>)"
| roam: "ss_peer s = Some (p, rk, sk) \<Longrightarrow> frame_content C K rk d = Some pt \<Longrightarrow>
    sess_input C K a d s [] (s\<lparr>ss_peer := Some (a, rk, sk)\<rparr>)"
| connect: "ss_peer s = Some (p, rk, sk) \<Longrightarrow> frame_content C K rk d = Some pt \<Longrightarrow> unat (pt ! 4) = CMD_CONNECT \<Longrightarrow>
    hl = unat (pt ! 5) \<Longrightarrow>
    sess_input C K a d s
      [StartProxy (be_val (slice pt 0 4)) (utf8_decode_replace (slice pt 6 (6 + hl))) (be_val (slice pt (6 + hl) (8 + hl)))]
      (s\<lparr>ss_peer := Some (a, rk, sk)\<rparr>)"
| data: "ss_peer s = Some (p, rk, sk) \<Longrightarrow> frame_content C K rk d = Some pt \<Longrightarrow> unat (pt ! 4) = CMD_DATA \<Longrightarrow>
    ss_streams s (be_val (slice pt 0 4)) = Some sock \<Longrightarrow>
    sess_input C K a d s [StreamSend sock (drop 5 pt)] (s\<lparr>ss_peer := Some (a, rk, sk)\<rparr>)"
| close: "ss_peer s = Some (p, rk, sk) \<Longrightarrow> frame_content C K rk d = Some pt \<Longrightarrow> unat (pt ! 4) = CMD_CLOSE \<Longrightarrow>
    ss_streams s (be_val (slice pt 0 4)) = Some sock \<Longrightarrow>
    sess_input C K a d s [StreamShut sock]
      (s\<lparr>ss_peer := Some (a, rk, sk), ss_streams := (ss_streams s)(be_val (slice pt 0 4) := None)\<rparr>)"

text \<open>A datagram may take several of these: an answer that cannot be sent lets it pass on to the next check.\<close>

inductive sess_inputs :: "crypto \<Rightarrow> server \<Rightarrow> addr \<Rightarrow> bytes \<Rightarrow> session \<Rightarrow> srv_out list \<Rightarrow> session \<Rightarrow> bool"
  for C K a d where
  none: "sess_inputs C K a d s [] s"
| more: "sess_input C K a d s o1 s1 \<Longrightarrow> sess_inputs C K a d s1 o2 s2 \<Longrightarrow> sess_inputs C K a d s (o1 @ o2) s2"

inductive_cases sess_inputE: "sess_input C K a d s outs s'"

section \<open>Abstraction\<close>

definition abs_session :: "server \<Rightarrow> session" where
  "abs_session st =
     \<lparr>ss_peer = (case (sv_client_addr st, sv_recv_key st, sv_send_key st) of
          (Some a, Some rk, Some sk) \<Rightarrow> Some (a, rk, sk) | _ \<Rightarrow> None),
      ss_streams = sv_streams st\<rparr>"

definition visible :: "srv_out list \<Rightarrow> srv_out list" where
  "visible outs = filter (\<lambda>x. case x of Log _ \<Rightarrow> False | _ \<Rightarrow> True) outs"

lemma visible_simps [simp]:
  "visible [] = []" "visible (Log l # xs) = visible xs" "visible (SendTo p a # xs) = SendTo p a # visible xs"
  "visible (StartProxy i h q # xs) = StartProxy i h q # visible xs"
  "visible (StreamSend s b # xs) = StreamSend s b # visible xs" "visible (StreamShut s # xs) = StreamShut s # visible xs"
  "visible (xs @ ys) = visible xs @ visible ys"
  by (simp_all add: visible_def)

lemma visible_log_only: "log_only outs \<Longrightarrow> visible outs = []"
  by (induction outs) (auto simp: log_only_def)

lemma sess_one: "sess_input C K a d s outs s' \<Longrightarrow> sess_inputs C K a d s outs s'"
  using sess_inputs.more [OF _ sess_inputs.none] by fastforce

lemma sess_inputs_trans:
  "sess_inputs C K a d s o1 s1 \<Longrightarrow> sess_inputs C K a d s1 o2 s2 \<Longrightarrow> sess_inputs C K a d s (o1 @ o2) s2"
  by (induction rule: sess_inputs.induct) (auto intro: sess_inputs.more)

lemma abs_session_counters [simp]:
  "abs_session (st\<lparr>sv_packets_rx := n, sv_bytes_rx := m\<rparr>) = abs_session st"
  "abs_session (st\<lparr>sv_replay := f\<rparr>) = abs_session st" "abs_session (st\<lparr>sv_bytes_tx := n\<rparr>) = abs_session st"
  "abs_session (st\<lparr>sv_tx_seq := n\<rparr>) = abs_session st" "abs_session (st\<lparr>sv_packets_tx := n\<rparr>) = abs_session st"
  "abs_session (st\<lparr>sv_active := t\<rparr>) = abs_session st"
  by (simp_all add: abs_session_def)

section \<open>The stages of the server\<close>

text \<open>Entering a session is \<open>admit\<close>.\<close>

lemma entered_admit:
  assumes "knows_token C K d" "sv_recv_key st' = Some rk" "sv_send_key st' = Some sk" "sv_client_addr st' = Some a"
    and "sv_streams st' = sv_streams st" "visible outs = [] \<or> (\<exists>x. visible outs = [SendTo x a])"
  shows "sess_inputs C K a d (abs_session st) (visible outs) (abs_session st')"
proof -
  have "abs_session st' = (abs_session st)\<lparr>ss_peer := Some (a, rk, sk)\<rparr>"
    using assms(2-5) by (simp add: abs_session_def)
  then show ?thesis using sess_one [OF sess_input.admit [OF assms(1,6)]] by metis
qed

lemma masked_sess:
  assumes "masked_handshake C E st a d priv pub = (st', outs, b)" "same_secrets K st"
  shows "sess_inputs C K a d (abs_session st) (visible outs) (abs_session st') \<and> same_secrets K st'"
proof (cases "auth_init C st d")
  case False
  from masked_handshake_inert [OF assms(1) this] visible_log_only assms(2) show ?thesis
    by (auto intro: sess_inputs.none)
next
  case True
  then have kt: "knows_token C K d" using knows_token_cong [OF assms(2)] by (auto simp: knows_token_def)
  have "(st' = st \<and> log_only outs) \<or>
      (\<exists>rk sk. sv_recv_key st' = Some rk \<and> sv_send_key st' = Some sk \<and> sv_client_addr st' = Some a \<and>
        sv_streams st' = sv_streams st \<and> (visible outs = [] \<or> (\<exists>x. visible outs = [SendTo x a])) \<and> same_secrets st st')"
    using assms(1)
    by (auto simp: masked_handshake_def accept_masked_init_def print_client_connected_banner_def same_secrets_def Let_def
        split: if_splits option.splits)
  then consider "st' = st" "log_only outs"
    | rk sk where "sv_recv_key st' = Some rk" "sv_send_key st' = Some sk" "sv_client_addr st' = Some a"
      "sv_streams st' = sv_streams st" "visible outs = [] \<or> (\<exists>x. visible outs = [SendTo x a])" "same_secrets st st'"
    by blast
  then show ?thesis
  proof cases
    case 1
    with assms(2) show ?thesis by (auto simp: visible_log_only intro: sess_inputs.none)
  next
    case 2
    with entered_admit [OF kt 2(1-5)] assms(2) show ?thesis by (simp add: same_secrets_def)
  qed
qed

lemma raw_sess:
  assumes "raw_handshake C E st a d priv pub = (st', outs)" "same_secrets K st"
  shows "sess_inputs C K a d (abs_session st) (visible outs) (abs_session st')"
proof (cases "auth_raw st d")
  case False
  from raw_handshake_inert [OF assms(1) this] visible_log_only show ?thesis by (auto intro: sess_inputs.none)
next
  case True
  then have kt: "knows_token C K d" using knows_token_cong [OF assms(2), of C d] by (auto simp: knows_token_def)
  have "(st' = st \<and> log_only outs) \<or>
      (\<exists>rk sk. sv_recv_key st' = Some rk \<and> sv_send_key st' = Some sk \<and> sv_client_addr st' = Some a \<and>
        sv_streams st' = sv_streams st \<and> (visible outs = [] \<or> (\<exists>x. visible outs = [SendTo x a])))"
    using assms(1) by (auto simp: raw_handshake_def print_client_connected_banner_def Let_def split: if_splits option.splits)
  then show ?thesis using entered_admit [OF kt, of st' _ _ a st outs] by (auto simp: visible_log_only intro: sess_inputs.none)
qed

lemma resume_sess:
  assumes "resume_session C st a d = (st', outs)" "same_secrets K st"
  shows "sess_inputs C K a d (abs_session st) (visible outs) (abs_session st')"
proof (cases "auth_resume C st d")
  case False
  from resume_session_inert [OF assms(1) this] visible_log_only show ?thesis by (auto intro: sess_inputs.none)
next
  case True
  then have kt: "knows_token C K d" using knows_token_cong [OF assms(2), of C d] by (auto simp: knows_token_def)
  have "(st' = st \<and> log_only outs) \<or>
      (\<exists>rk sk. sv_recv_key st' = Some rk \<and> sv_send_key st' = Some sk \<and> sv_client_addr st' = Some a \<and>
        sv_streams st' = sv_streams st \<and> visible outs = [])"
    using assms(1) by (auto simp: resume_session_def Let_def split: if_splits option.splits)
  then show ?thesis using entered_admit [OF kt, of st' _ _ a st outs] by (auto simp: visible_log_only intro: sess_inputs.none)
qed

text \<open>A frame that opens, under the session's key.\<close>

lemma payload_sess:
  assumes "handle_client_payload E st pt a = (st', outs, ex)" "abs_session st = s\<lparr>ss_peer := Some (a, rk, sk)\<rparr>"
    and "ss_peer s = Some (p, rk, sk)" "frame_content C K rk d = Some pt"
  shows "sess_input C K a d s (visible outs) (abs_session st')"
proof -
  note rules = sess_input.intros(4-) [OF assms(3,4)]
  have str: "sv_streams st = ss_streams s" using assms(2) by (cases s) (simp add: abs_session_def)
  have cl: "abs_session (st\<lparr>sv_streams := t\<rparr>) = s\<lparr>ss_peer := Some (a, rk, sk), ss_streams := t\<rparr>" for t
    using assms(2) by (cases s) (simp add: abs_session_def split: option.splits)
  show ?thesis
    using assms(1,2) str
    by (auto simp: handle_client_payload_def Let_def cl unpack_be_def py_get_def
        intro!: rules split: if_splits option.splits sum.splits)
qed

lemma frame_sess:
  assumes "data_frame C E st a d = (st', outs, ex)" "same_secrets K st" "server_wf st"
  shows "sess_inputs C K a d (abs_session st) (visible outs) (abs_session st')"
proof (cases "\<exists>rk ch off f pt. sv_recv_key st = Some rk \<and> frame_fields C st d = Some (ch, off) \<and>
    check_and_update (sv_replay st) (frame_seq d off) = (Inr False, f) \<and>
    aead_decrypt C rk (frame_nonce d off) (drop (off + 12) d) (Some (slice d 0 off)) = Some pt")
  case False
  with assms(1) have "abs_session st' = abs_session st \<and> visible outs = []"
    by (auto simp: data_frame_def open_frame_def split: option.splits prod.splits sum.splits if_splits)
  then show ?thesis by (auto intro: sess_inputs.none)
next
  case True
  then obtain rk ch off f pt where k: "sv_recv_key st = Some rk" "frame_fields C st d = Some (ch, off)"
    "check_and_update (sv_replay st) (frame_seq d off) = (Inr False, f)"
    "aead_decrypt C rk (frame_nonce d off) (drop (off + 12) d) (Some (slice d 0 off)) = Some pt" by blast
  obtain sk p where w: "sv_send_key st = Some sk" "sv_client_addr st = Some p"
    using assms(3) k(1) by (auto simp: server_wf_def)
  have peer: "ss_peer (abs_session st) = Some (p, rk, sk)" using k(1) w by (simp add: abs_session_def)
  have "header_ok C K d" "off = header_offset C K d"
    using frame_fields_header [OF k(2)] assms(2) by (auto simp: header_ok_def header_offset_def same_secrets_def)
  with k(4) have content: "frame_content C K rk d = Some pt"
    by (simp add: frame_content_def opens_with_def frame_nonce_def)
  let ?st = "st\<lparr>sv_replay := f, sv_client_addr := Some a\<rparr>"
  have abs1: "abs_session ?st = (abs_session st)\<lparr>ss_peer := Some (a, rk, sk)\<rparr>" using k(1) w by (simp add: abs_session_def)
  let ?r = "if sv_client_addr st \<noteq> Some a then st\<lparr>sv_replay := f, sv_client_addr := Some a\<rparr> else st\<lparr>sv_replay := f\<rparr>"
  have "(st', outs, ex) =
      (if ch then (?r, [Log (LogChaff (fst a) (length d))], None) else handle_client_payload E ?r pt a)"
    using assms(1) k by (simp add: data_frame_def open_frame_def Let_def)
  moreover have "?r = ?st" by (cases st) auto
  ultimately have o: "(st', outs, ex) =
      (if ch then (?st, [Log (LogChaff (fst a) (length d))], None) else handle_client_payload E ?st pt a)"
    by (simp only:)
  show ?thesis
  proof (cases ch)
    case True
    with o abs1 sess_one [OF sess_input.roam [OF peer content, of a]] show ?thesis by simp
  next
    case False
    then have "handle_client_payload E ?st pt a = (st', outs, ex)" using o by simp
    from payload_sess [OF this abs1 peer content] show ?thesis by (rule sess_one)
  qed
qed

lemma packet_sess:
  assumes "process_packet C E st a d priv pub = (st', outs, ex)" "same_secrets K st" "server_wf st" "crypto_ok C"
  shows "sess_inputs C K a d (abs_session st) (visible outs) (abs_session st')"
proof (cases "length d < 20 \<or> take 2 d = [0, 1] \<and> length d = 20")
  case True
  then have "st' = st \<and> (outs = [] \<or> length d = 20 \<and> outs = [SendTo (stun_decoy (ent E)) a, Log (LogStun a)])"
    using assms(1) by (auto simp: process_packet_def split: if_splits)
  moreover have "sess_inputs C K a d s [SendTo (stun_decoy (ent E)) a] s" if "length d = 20" for s
    using that length_stun_decoy by (rule sess_one [OF sess_input.decoy])
  ultimately show ?thesis by (auto intro: sess_inputs.none)
next
  case False
  obtain s1 o1 b where m: "masked_handshake C E st a d priv pub = (s1, o1, b)" by (rule prod_cases3)
  note ms = masked_sess [OF m assms(2)]
  have wf1: "server_wf s1"
    using masked_handshake_state [OF assms(4) m] assms(3) by (auto intro: session_entered_wf)
  show ?thesis
  proof (cases b)
    case True
    with False m assms(1) have "st' = s1" "outs = o1" by (auto simp: process_packet_def)
    with ms show ?thesis by simp
  next
    case nb: False
    have o1: "visible o1 = []"
    proof -
      have "o1 = []" using m nb by (auto simp: masked_handshake_def accept_masked_init_def
            print_client_connected_banner_def Let_def split: if_splits option.splits)
      then show ?thesis by simp
    qed
    have "sess_inputs C K a d (abs_session s1) (visible outs) (abs_session st')"
    proof -
      obtain s2 o2 where r: "raw_handshake C E s1 a d priv pub = (s2, o2)" by fastforce
      obtain s3 o3 where u: "resume_session C s1 a d = (s3, o3)" by fastforce
      obtain s4 o4 e4 where f: "data_frame C E s1 a d = (s4, o4, e4)" by (rule prod_cases3)
      from ms have ss: "same_secrets K s1" by blast
      show ?thesis
        using False nb m assms(1) r u f raw_sess [OF r ss] resume_sess [OF u ss] frame_sess [OF f ss wf1]
        by (auto simp: process_packet_def split: if_splits)
    qed
    with ms o1 show ?thesis using sess_inputs_trans by fastforce
  qed
qed

section \<open>Properties\<close>

text \<open>C4: The server implements the specification: each datagram, whatever it holds and however sending fails, does
  what the abstract session allows for it, with the same visible effects; the threads of the proxy
  change the stream table only, and send only to the peer of the session.\<close>
theorem server_refines_session:
  assumes "crypto_ok C" "server_wf st" "same_secrets K st"
  shows "(case on_datagram C E st a d priv pub of
      (st', outs) \<Rightarrow> sess_inputs C K a d (abs_session st) (visible outs) (abs_session st')) \<and>
    abs_session (proxy_connected st sid sock) = (abs_session st)\<lparr>ss_streams := (sv_streams st)(sid \<mapsto> sock)\<rparr> \<and>
    (case proxy_chunk C E st sid chunk of
      (st', outs, ex) \<Rightarrow> abs_session st' = abs_session st \<and>
        (\<forall>x \<in> set outs. \<exists>pkt p rk sk. x = SendTo pkt p \<and> ss_peer (abs_session st) = Some (p, rk, sk))) \<and>
    (case proxy_finally C E st sid sck of
      (st', outs, ex) \<Rightarrow> abs_session st' = (abs_session st)\<lparr>ss_streams := (sv_streams st)(sid := None)\<rparr> \<and>
        (\<forall>x \<in> set outs. (\<exists>s. x = StreamShut s) \<or>
           (\<exists>pkt p rk sk. x = SendTo pkt p \<and> ss_peer (abs_session st) = Some (p, rk, sk))))"
proof (intro conjI)
  let ?st = "st\<lparr>sv_packets_rx := sv_packets_rx st + 1, sv_bytes_rx := sv_bytes_rx st + length d\<rparr>"
  have pre: "same_secrets K ?st" "server_wf ?st" using assms(2,3) by (simp_all add: same_secrets_def server_wf_def)
  obtain st' outs ex where p: "process_packet C E ?st a d priv pub = (st', outs, ex)" by (rule prod_cases3)
  have "sess_inputs C K a d (abs_session st) (visible outs) (abs_session st')"
    using packet_sess [OF p pre assms(1)] by simp
  then show "case on_datagram C E st a d priv pub of
      (st', outs) \<Rightarrow> sess_inputs C K a d (abs_session st) (visible outs) (abs_session st')"
    unfolding on_datagram_def p by (simp add: sess_inputs.none)
  show "abs_session (proxy_connected st sid sock) = (abs_session st)\<lparr>ss_streams := (sv_streams st)(sid \<mapsto> sock)\<rparr>"
    by (simp add: proxy_connected_def abs_session_def)
  have send: "abs_session s' = abs_session s \<and>
      (\<forall>x \<in> set o'. \<exists>pkt p rk sk. x = SendTo pkt p \<and> ss_peer (abs_session s) = Some (p, rk, sk))"
    if "send_aegs_frame C E s i c b = (s', o', e')" "server_wf s" for s i c b s' o' e'
    using that(1)
  proof (cases rule: send_aegs_frame_cases)
    case (3 n pkt a)
    obtain k where "sv_send_key s = Some k" using 3(5) by blast
    moreover have "sv_recv_key s \<noteq> None" using that(2) 3(5) by (simp add: server_wf_def)
    ultimately show ?thesis using 3 by (auto simp: abs_session_def)
  qed simp_all
  show "case proxy_chunk C E st sid chunk of
      (st', outs, ex) \<Rightarrow> abs_session st' = abs_session st \<and>
        (\<forall>x \<in> set outs. \<exists>pkt p rk sk. x = SendTo pkt p \<and> ss_peer (abs_session st) = Some (p, rk, sk))"
  proof -
    obtain s1 o1 e1 where f: "send_aegs_frame C E st sid CMD_DATA chunk = (s1, o1, e1)" by (rule prod_cases3)
    show ?thesis using send [OF f assms(2)] unfolding proxy_chunk_def f by (cases e1) auto
  qed
  let ?s = "st\<lparr>sv_streams := (sv_streams st)(sid := None)\<rparr>"
  have cl: "abs_session ?s = (abs_session st)\<lparr>ss_streams := (sv_streams st)(sid := None)\<rparr>" "server_wf ?s"
    using assms(2) by (simp_all add: abs_session_def server_wf_def)
  obtain s1 o1 e1 where f: "send_aegs_frame C E ?s sid CMD_CLOSE [] = (s1, o1, e1)" by (rule prod_cases3)
  note sf = send [OF f cl(2)]
  show "case proxy_finally C E st sid sck of
      (st', outs, ex) \<Rightarrow> abs_session st' = (abs_session st)\<lparr>ss_streams := (sv_streams st)(sid := None)\<rparr> \<and>
        (\<forall>x \<in> set outs. (\<exists>s. x = StreamShut s) \<or>
           (\<exists>pkt p rk sk. x = SendTo pkt p \<and> ss_peer (abs_session st) = Some (p, rk, sk)))"
    using sf unfolding cl(1) proxy_finally_def f by (cases e1) (auto split: option.split)
qed

theorem server_refines_session_witness:
  "\<forall>d. case on_datagram toy_crypto sample_env sample_server sample_addr d [7] [] of
     (st', outs) \<Rightarrow> sess_inputs toy_crypto sample_server sample_addr d (abs_session sample_server) (visible outs) (abs_session st')"
proof
  fix d
  have "same_secrets sample_server sample_server" by (simp add: same_secrets_def)
  from server_refines_session [OF toy_crypto_ok sample_server_wf this, THEN conjunct1]
  show "case on_datagram toy_crypto sample_env sample_server sample_addr d [7] [] of
     (st', outs) \<Rightarrow> sess_inputs toy_crypto sample_server sample_addr d (abs_session sample_server) (visible outs) (abs_session st')" .
qed

end
