(* ===== verification/Relay.thy ===== *)
theory Relay
  imports ClientRun ServerRun
begin

text \<open>
  A local connection through both programs: the copy loop of aegs_client.py, the frames it puts on the
  wire and the receive loop of aegs_server.py; and back, from the thread of the proxy to the receiver of
  the client. The datagrams of a run arrive in order, one per turn.
\<close>

section \<open>The wire\<close>

definition wire :: "cl_out list \<Rightarrow> bytes list" where
  "wire outs = concat (map (\<lambda>x. case x of UdpSend p _ \<Rightarrow> [p] | _ \<Rightarrow> []) outs)"

lemma wire_simps [simp]:
  "wire [] = []" "wire (UdpSend p q # xs) = p # wire xs" "wire (xs @ ys) = wire xs @ wire ys"
  by (simp_all add: wire_def)

definition arrivals :: "addr \<Rightarrow> (env \<times> bytes) list \<Rightarrow> srv_event list" where
  "arrivals a ts = map (\<lambda>(E, p). Turn [Read E a p]) ts"

lemma arrivals_simps [simp]:
  "arrivals a [] = []" "arrivals a ((E, p) # ts) = Turn [Read E a p] # arrivals a ts"
  by (simp_all add: arrivals_def)

lemma one_read: "srv_event_step C priv pub (Turn [Read E a d]) st = on_datagram C E st a d priv pub"
  by (auto simp: srv_event_step_def on_datagram_def split: prod.split option.split)

text \<open>A datagram that the earlier stages of the dispatcher leave to the frame stage.\<close>

definition passes :: "crypto \<Rightarrow> server \<Rightarrow> bytes \<Rightarrow> bool" where
  "passes C st p \<longleftrightarrow> opens_with C (hs_key C st) p (header_offset C st p) = None \<and> p ! 0 \<noteq> 1 \<and> p ! 0 \<noteq> 4"

lemma passes_cong: "peers cl st \<Longrightarrow> peers cl st' \<Longrightarrow> passes C st' = passes C st"
  by (simp add: fun_eq_iff passes_def peers_def hs_key_def header_offset_def cong: option.case_cong)

section \<open>Client and server in step\<close>

definition in_sync :: "client \<Rightarrow> server \<Rightarrow> bool" where
  "in_sync cl st \<longleftrightarrow> client_wf cl \<and> server_wf st \<and> peers cl st \<and> cl_send_key cl = sv_recv_key st \<and>
     sv_recv_key st \<noteq> None \<and> max_seq (sv_replay st) \<le> cl_tx_seq cl"

text \<open>A frame that the client sends is opened, and both stay in step.\<close>

lemma frame_relayed:
  assumes "crypto_ok C" "in_sync cl st"
    and "send_raw_packet C E cl sid cmd payload False = (cl', [UdpSend pkt dest], ex)" "passes C st pkt"
  obtains st1 where "on_datagram C Es st a pkt priv pub =
      (case handle_client_payload Es st1 (client_plain (ent E) sid cmd payload) a of (st', outs, ex) \<Rightarrow> (st', outs))"
    "sv_streams st1 = sv_streams st" "in_sync cl' st1" "sid < 2 ^ 32" "cmd < 256"
proof -
  note s = assms(2) [unfolded in_sync_def]
  let ?f = "advance (sv_replay st) (cl_tx_seq cl + 1)"
  let ?st = "st\<lparr>sv_packets_rx := sv_packets_rx st + 1, sv_bytes_rx := sv_bytes_rx st + length pkt,
                  sv_replay := ?f, sv_client_addr := Some a\<rparr>"
  have fw: "filter_wf (sv_replay st)" "window_size (sv_replay st) = 2048" using s by (simp_all add: server_wf_def)
  have fresh: "check_and_update (sv_replay st) (cl_tx_seq cl + 1) = (Inr False, ?f)"
    using s check_and_update_wf [OF fw(1)] by simp
  have cl': "cl' = cl\<lparr>cl_tx_seq := cl_tx_seq cl + 1\<rparr>"
    using assms(3) by (auto simp: send_raw_packet_def Let_def split: option.splits sum.splits if_splits)
  have "server_wf ?st" using s fw by (auto simp: server_wf_def advance_wf)
  moreover have "client_wf cl'" using send_raw_packet_wf [OF _ assms(3)] s by blast
  moreover have "peers cl' ?st" "cl_send_key cl' = sv_recv_key ?st" "sv_recv_key ?st \<noteq> None"
    "max_seq (sv_replay ?st) \<le> cl_tx_seq cl'"
    using s unfolding cl' by (simp_all add: peers_def)
  ultimately have "in_sync cl' ?st" unfolding in_sync_def by blast
  moreover have "sid < 2 ^ 32" "cmd < 256" using assms(3) by (auto elim: udp_sent_cases)
  moreover have "on_datagram C Es st a pkt priv pub =
      (case handle_client_payload Es ?st (client_plain (ent E) sid cmd payload) a of (st', outs, ex) \<Rightarrow> (st', outs))"
    using client_frame_opened [OF assms(1) _ _ _ _ assms(3) _ _ _ fresh, of Es a priv pub] s assms(4)
    by (simp add: passes_def Let_def)
  ultimately show ?thesis using that [of ?st] by simp
qed

lemma in_sync_bytes: "in_sync cl (st\<lparr>sv_bytes_tx := n\<rparr>) = in_sync cl st"
  by (simp add: in_sync_def server_wf_def peers_def)

lemma in_sync_touched: "in_sync (cl\<lparr>cl_last_real := t\<rparr>) st = in_sync cl st"
  by (simp add: in_sync_def client_wf_def peers_def)

lemma data_relayed:
  assumes "crypto_ok C" "in_sync cl st" "sv_streams st sid = Some s" "stream_ok Es s"
    and "send_raw_packet C E cl sid CMD_DATA d False = (cl', [UdpSend pkt dest], ex)" "passes C st pkt"
  obtains pad st' where "on_datagram C Es st a pkt priv pub = (st', [StreamSend s (d @ pad)])" "16 \<le> length pad"
    "in_sync cl' st'" "sv_streams st' sid = Some s" "passes C st' = passes C st"
proof -
  obtain st1 where o: "on_datagram C Es st a pkt priv pub =
      (case handle_client_payload Es st1 (client_plain (ent E) sid CMD_DATA d) a of (st', outs, ex) \<Rightarrow> (st', outs))"
    "sv_streams st1 = sv_streams st" "in_sync cl' st1" "sid < 2 ^ 32" "CMD_DATA < 256"
    by (rule frame_relayed [OF assms(1,2,5,6), of Es a priv pub]) (rule that)
  let ?pad = "token_bytes (ent E) 1 (pad_length (5 + length d) (randbelow (ent E) 0 33))"
  note f = client_plain_fields [OF o(4,5), of "ent E" d]
  define n where "n = sv_bytes_tx st1 + length (d @ ?pad)"
  have h: "handle_client_payload Es st1 (client_plain (ent E) sid CMD_DATA d) a =
      (st1\<lparr>sv_bytes_tx := n\<rparr>, [StreamSend s (d @ ?pad)], None)"
    using f(1) o(2) assms(3,4) unfolding n_def
    by (simp add: handle_client_payload_def f(2-4) Let_def) (simp add: cmd_defs)
  have sy: "in_sync cl' (st1\<lparr>sv_bytes_tx := n\<rparr>)" using o(3) by (simp only: in_sync_bytes)
  have "peers cl st" "peers cl (st1\<lparr>sv_bytes_tx := n\<rparr>)"
  proof -
    have "cl_master_key cl' = cl_master_key cl \<and> cl_mask_key cl' = cl_mask_key cl \<and> cl_raw_kid cl' = cl_raw_kid cl"
      using assms(5) by (auto simp: send_raw_packet_def Let_def split: option.splits sum.splits if_splits)
    then show "peers cl st" "peers cl (st1\<lparr>sv_bytes_tx := n\<rparr>)" using assms(2) sy by (simp_all add: in_sync_def peers_def)
  qed
  note p = passes_cong [OF this]
  have "on_datagram C Es st a pkt priv pub = (st1\<lparr>sv_bytes_tx := n\<rparr>, [StreamSend s (d @ ?pad)])"
    unfolding o(1) h by simp
  moreover have "16 \<le> length ?pad" by (simp add: length_token_bytes pad_length_ge)
  moreover have "sv_streams (st1\<lparr>sv_bytes_tx := n\<rparr>) sid = Some s" using o(2) assms(3) by simp
  ultimately show ?thesis by (rule that [OF _ _ sy _ p])
qed

lemma send_goes_out:
  assumes "send_ok E" "cl_port_count cl \<noteq> 0" "cl_send_key cl \<noteq> None" "sid < 2 ^ 32" "cmd < 256"
    and "cl_tx_seq cl + 1 < 2 ^ 64"
  obtains pkt dest where "send_raw_packet C E cl sid cmd p ch = (cl\<lparr>cl_tx_seq := cl_tx_seq cl + 1\<rparr>, [UdpSend pkt dest], None)"
  using assms by (auto simp: send_raw_packet_def pack_be_def get_current_port_def Let_def)

section \<open>The copy loop\<close>

lemma chunks_relayed:
  assumes "crypto_ok C" "in_sync cl st" "run_script C Es k cl sid conn (map Chunk ds) = (cl', outs)"
    and "cl_running cl" "cl_port_count cl \<noteq> 0" "\<forall>n. send_ok (Es n)" "sid < 2 ^ 32"
    and "cl_tx_seq cl + length ds < 2 ^ 64" "sv_streams st sid = Some s"
    and "length Ss = length ds" "\<forall>E \<in> set Ss. stream_ok E s" "\<forall>p \<in> set (wire outs). passes C st p"
  shows "\<exists>pads. length pads = length ds \<and> (\<forall>p \<in> set pads. 16 \<le> length p) \<and>
    snd (server_loop C priv pub (arrivals a (zip Ss (wire outs))) st) = map2 (\<lambda>d p. StreamSend s (d @ p)) ds pads"
  using assms(2-)
proof (induction ds arbitrary: cl st k cl' outs Ss)
  case Nil
  then show ?case by simp
next
  case (Cons d ds)
  have key: "cl_send_key cl \<noteq> None" using Cons.prems(1) by (auto simp: in_sync_def)
  have cmd: "CMD_DATA < 256" by (simp add: CMD_DATA_def)
  have sq: "cl_tx_seq cl + 1 < 2 ^ 64" using Cons.prems(7) by simp
  let ?cl = "cl\<lparr>cl_tx_seq := cl_tx_seq cl + 1\<rparr>"
  obtain pkt dest where sent: "send_raw_packet C (Es k) cl sid CMD_DATA d False = (?cl, [UdpSend pkt dest], None)"
    using send_goes_out [OF _ Cons.prems(4) key Cons.prems(6) cmd sq, of "Es k" C d False] Cons.prems(5) by blast
  let ?cl2 = "?cl\<lparr>cl_last_real := now_us (Es k)\<rparr>"
  obtain cl2 outs2 where rest: "run_script C Es (Suc k) ?cl2 sid conn (map Chunk ds) = (cl2, outs2)" by fastforce
  have outs: "outs = UdpSend pkt dest # outs2" using Cons.prems(2,3) sent rest by simp
  obtain E Ss' where Ss: "Ss = E # Ss'" using Cons.prems(9) by (cases Ss) auto
  have p: "passes C st pkt" using Cons.prems(11) outs by simp
  have ok: "stream_ok E s" using Cons.prems(10) Ss by simp
  obtain pad st' where one: "on_datagram C E st a pkt priv pub = (st', [StreamSend s (d @ pad)])" "16 \<le> length pad"
    "in_sync ?cl st'" "sv_streams st' sid = Some s" "passes C st' = passes C st"
    using data_relayed [OF assms(1) Cons.prems(1,8) ok sent p, of a priv pub] by blast
  have "in_sync ?cl2 st'" using one(3) by (simp only: in_sync_touched)
  then have "\<exists>pads. length pads = length ds \<and> (\<forall>p \<in> set pads. 16 \<le> length p) \<and>
      snd (server_loop C priv pub (arrivals a (zip Ss' (wire outs2))) st') = map2 (\<lambda>d p. StreamSend s (d @ p)) ds pads"
    by (rule Cons.IH [OF _ rest]) (use Cons.prems one outs Ss in auto)
  then obtain pads where pads: "length pads = length ds" "\<forall>p \<in> set pads. 16 \<le> length p"
    "snd (server_loop C priv pub (arrivals a (zip Ss' (wire outs2))) st') = map2 (\<lambda>d p. StreamSend s (d @ p)) ds pads"
    by blast
  have "snd (server_loop C priv pub (arrivals a (zip Ss (wire outs))) st) =
      StreamSend s (d @ pad) # map2 (\<lambda>d p. StreamSend s (d @ p)) ds pads"
    using pads(3) one(1) by (simp add: outs Ss one_read case_prod_beta)
  with pads(1,2) one(2) show ?case by (intro exI [of _ "pad # pads"]) simp
qed

lemma pump_chunks: "pump segs = map Chunk (pumped (pump segs))"
proof (induction segs rule: pump.induct)
  case (1 segs)
  then show ?case by (subst (1 2) pump.simps) (auto simp: pumped_def split: prod.split)
qed

section \<open>The way back\<close>

definition rounds :: "env list \<Rightarrow> bytes list \<Rightarrow> cl_event list" where
  "rounds Rs pkts = map (\<lambda>(E, p). RecvRound E p) (zip Rs pkts)"

lemma rounds_simps [simp]:
  "rounds [] pkts = []" "rounds Rs [] = []" "rounds (E # Rs) (p # pkts) = RecvRound E p # rounds Rs pkts"
  by (simp_all add: rounds_def)

lemma rounds_append: "length Rs = length ps \<Longrightarrow> rounds (Rs @ Qs) (ps @ qs) = rounds Rs ps @ rounds Qs qs"
  by (simp add: rounds_def)

lemma cl_session_append:
  "cl_session C (xs @ ys) cl =
     (case cl_session C xs cl of (cl1, o1) \<Rightarrow> (case cl_session C ys cl1 of (cl2, o2) \<Rightarrow> (cl2, o1 @ o2)))"
  by (induction xs arbitrary: cl) (auto split: prod.split)

lemma sent_packets_simps [simp]:
  "sent_packets [] = []" "sent_packets (SendTo p a # xs) = p # sent_packets xs"
  "sent_packets (StreamShut s # xs) = sent_packets xs" "sent_packets (xs @ ys) = sent_packets xs @ sent_packets ys"
  by (simp_all add: sent_packets_def)

text \<open>The client that listens to a session and has the stream open.\<close>

definition listens :: "client \<Rightarrow> server \<Rightarrow> nat \<Rightarrow> nat \<Rightarrow> bool" where
  "listens cl st sid conn \<longleftrightarrow> client_wf cl \<and> server_wf st \<and> peers cl st \<and> cl_recv_key cl = sv_send_key st \<and>
     sv_send_key st \<noteq> None \<and> 0 < sid \<and> sid < 2 ^ 32 \<and> cl_streams cl sid = Some conn \<and> cl_running cl"

lemma listens_cong:
  "listens cl st sid conn \<Longrightarrow> server_wf st' \<Longrightarrow> sv_master_key st' = sv_master_key st \<Longrightarrow> sv_mask_key st' = sv_mask_key st \<Longrightarrow>
   sv_raw_kid st' = sv_raw_kid st \<Longrightarrow> sv_send_key st' = sv_send_key st \<Longrightarrow> listens cl st' sid conn"
  by (simp add: listens_def peers_def)

lemma frame_goes_out:
  assumes "listens cl st sid conn" "cmd < 256" "sv_tx_seq st + 1 < 2 ^ 64" "send_ok E"
  obtains pkt a where "send_aegs_frame C E st sid cmd payload =
      (st\<lparr>sv_tx_seq := sv_tx_seq st + 1, sv_packets_tx := sv_packets_tx st + 1\<rparr>, [SendTo pkt a], None)"
proof -
  obtain k a where "sv_send_key st = Some k" "sv_client_addr st = Some a"
    using assms(1) by (cases "sv_client_addr st") (auto simp: listens_def server_wf_def)
  with that assms show ?thesis by (simp add: send_aegs_frame_eq pack_be_def listens_def)
qed

lemma answer_pumped:
  assumes "crypto_ok C" "listens cl st sid conn"
    and "\<forall>(E, c) \<in> set cs. c \<noteq> [] \<and> length c \<le> 3900 \<and> send_ok E" "sv_tx_seq st + length cs < 2 ^ 64"
    and "proxy_pump C st sid cs = (st', outs)" "length Rs = length cs" "\<forall>E \<in> set Rs. stream_ok E conn"
  shows "length (sent_packets outs) = length cs \<and> listens cl st' sid conn \<and> sv_tx_seq st' = sv_tx_seq st + length cs \<and>
    (\<exists>pads. length pads = length cs \<and> (\<forall>p \<in> set pads. 16 \<le> length p) \<and>
       cl_session C (rounds Rs (sent_packets outs)) cl = (cl, map2 (\<lambda>(E, c) p. ConnSend conn (c @ p)) cs pads))"
  using assms(2-)
proof (induction cs arbitrary: st outs Rs)
  case Nil
  then show ?case by simp
next
  case (Cons x cs)
  obtain E c where x: "x = (E, c)" by fastforce
  have c: "c \<noteq> []" "length c \<le> 3900" "send_ok E" using Cons.prems(2) x by auto
  obtain R Rs' where Rs: "Rs = R # Rs'" using Cons.prems(5) by (cases Rs) auto
  let ?s = "st\<lparr>sv_tx_seq := sv_tx_seq st + 1, sv_packets_tx := sv_packets_tx st + 1\<rparr>"
  let ?st = "?s\<lparr>sv_bytes_tx := sv_bytes_tx ?s + length c\<rparr>"
  have n: "CMD_DATA < 256" "sv_tx_seq st + 1 < 2 ^ 64" using Cons.prems(3) by (simp_all add: CMD_DATA_def)
  obtain pkt a where sent: "send_aegs_frame C E st sid CMD_DATA c = (?s, [SendTo pkt a], None)"
    by (rule frame_goes_out [OF Cons.prems(1) n c(3)])
  have ck: "proxy_chunk C E st sid c = (?st, [SendTo pkt a], None)" by (simp only: proxy_chunk_def sent prod.case option.case)
  have wf: "server_wf ?st" using proxy_chunk_wf [OF _ ck] Cons.prems(1) by (simp add: listens_def)
  have ls: "listens cl ?st sid conn" by (rule listens_cong [OF Cons.prems(1) wf]) simp_all
  obtain o2 where rest: "proxy_pump C ?st sid cs = (st', o2)" "outs = SendTo pkt a # o2"
    using Cons.prems(4) c(1) ck unfolding x by (auto split: prod.splits)
  note l = Cons.prems(1) [unfolded listens_def]
  have ok: "stream_ok R conn" using Cons.prems(6) Rs by simp
  obtain pad where pad: "udp_round C R cl pkt = (cl, [ConnSend conn (c @ pad)])" "16 \<le> length pad"
    using server_data_forwarded [OF assms(1) _ _ _ _ sent _ _ ok _ c(2), of cl] l by force
  have "length (sent_packets o2) = length cs \<and> listens cl st' sid conn \<and> sv_tx_seq st' = sv_tx_seq ?st + length cs \<and>
    (\<exists>pads. length pads = length cs \<and> (\<forall>p \<in> set pads. 16 \<le> length p) \<and>
       cl_session C (rounds Rs' (sent_packets o2)) cl = (cl, map2 (\<lambda>(E, c) p. ConnSend conn (c @ p)) cs pads))"
    by (rule Cons.IH [OF ls _ _ rest(1)]) (use Cons.prems Rs in auto)
  then obtain pads where p: "length (sent_packets o2) = length cs" "listens cl st' sid conn"
    "sv_tx_seq st' = sv_tx_seq st + 1 + length cs" "length pads = length cs" "\<forall>p \<in> set pads. 16 \<le> length p"
    "cl_session C (rounds Rs' (sent_packets o2)) cl = (cl, map2 (\<lambda>(E, c) p. ConnSend conn (c @ p)) cs pads)"
    by auto
  have "cl_session C (rounds Rs (sent_packets outs)) cl =
      (cl, map2 (\<lambda>(E, c) p. ConnSend conn (c @ p)) (x # cs) (pad # pads))"
    using p(6) pad(1) by (simp add: Rs rest(2) x cl_event_step_def)
  then have "\<exists>pads. length pads = length (x # cs) \<and> (\<forall>p \<in> set pads. 16 \<le> length p) \<and>
       cl_session C (rounds Rs (sent_packets outs)) cl = (cl, map2 (\<lambda>(E, c) p. ConnSend conn (c @ p)) (x # cs) pads)"
    using p(4,5) pad(2) by (intro exI [of _ "pad # pads"]) simp
  with p(1-3) rest(2) show ?case by simp
qed

section \<open>A sample stream\<close>

lemma sample_in_sync: "in_sync sample_client sample_server"
  using sample_link(2-4) sample_keys
  by (simp add: in_sync_def) (simp add: sample_client_def sample_server_def new_filter_def)

lemma sample_frame_passes:
  assumes "pkt = raw_packet toy_crypto (ent sample_env) sample_client (replicate 32 4) n
     (be_bytes 4 101 @ be_bytes 1 cmd @ payload) False"
  shows "passes toy_crypto sample_server pkt"
proof -
  note sp = raw_packet_sealed [OF toy_crypto_ok sample_client_wf sample_peers,
      of "ent sample_env" False n "replicate 32 4" 101 cmd payload, folded assms]
  have "foldl (XOR) 0 (replicate 32 4) \<noteq> foldl (XOR) 0 (hs_key toy_crypto sample_server)"
    unfolding sample_eval by code_simp
  from toy_wrong_key [OF this] have "opens_with toy_crypto (hs_key toy_crypto sample_server) pkt
      (header_offset toy_crypto sample_server pkt) = None"
    by (simp only: sealed_server_header(2) [OF sp] sealed_server_opens [OF sp] if_False)
  moreover have "pkt ! 0 = 9"
    by (simp add: assms raw_packet_def outer_header_def token_bytes_def sample_env_def Let_def upt_conv_Cons)
  ultimately show ?thesis by (simp add: passes_def)
qed

section \<open>Properties\<close>



text \<open>C32: The answer of a remote host: the thread of the proxy sends what it reads in chunks of at most 3900
  bytes and then closes the stream; the client writes every chunk to the local connection in order, each once
  and again with padding behind it, then shuts that connection and forgets the stream.\<close>
theorem answer_relayed:
  assumes "crypto_ok C" "listens cl st sid conn"
    and "\<forall>(E, c) \<in> set cs. c \<noteq> [] \<and> length c \<le> 3900 \<and> send_ok E" "send_ok E0"
    and "sv_tx_seq st + length cs + 1 < 2 ^ 64" "proxy_worker C E0 st sid (Some sock) cs = (st', outs, ex)"
    and "length Rs = length cs" "\<forall>R \<in> set Rs. stream_ok R conn"
  shows "length (sent_packets outs) = length cs + 1 \<and> sv_streams st' sid = None \<and> last outs = StreamShut sock \<and> ex = None \<and>
    (\<exists>pads. length pads = length cs \<and> (\<forall>p \<in> set pads. 16 \<le> length p) \<and>
       cl_session C (rounds (Rs @ [R0]) (sent_packets outs)) cl =
         (cl\<lparr>cl_streams := (cl_streams cl)(sid := None)\<rparr>,
          map2 (\<lambda>(E, c) p. ConnSend conn (c @ p)) cs pads @ [ConnShut conn]))"
proof -
  let ?st0 = "proxy_connected st sid sock"
  have tx0: "sv_tx_seq ?st0 = sv_tx_seq st" by (simp add: proxy_connected_def)
  have "server_wf ?st0" using assms(2) by (auto simp: listens_def proxy_connected_def server_wf_def)
  then have ls0: "listens cl ?st0 sid conn"
    by (rule listens_cong [OF assms(2)]) (simp_all add: proxy_connected_def)
  obtain st1 o1 where pump: "proxy_pump C ?st0 sid cs = (st1, o1)" by fastforce
  have "sv_tx_seq ?st0 + length cs < 2 ^ 64" using assms(5) tx0 by simp
  from answer_pumped [OF assms(1) ls0 assms(3) this pump assms(7,8)] tx0
  obtain pads where p: "length (sent_packets o1) = length cs" "listens cl st1 sid conn"
    "sv_tx_seq st1 = sv_tx_seq st + length cs" "length pads = length cs" "\<forall>p \<in> set pads. 16 \<le> length p"
    "cl_session C (rounds Rs (sent_packets o1)) cl = (cl, map2 (\<lambda>(E, c) p. ConnSend conn (c @ p)) cs pads)"
    by auto
  let ?st1 = "st1\<lparr>sv_streams := (sv_streams st1)(sid := None)\<rparr>"
  let ?st2 = "?st1\<lparr>sv_tx_seq := sv_tx_seq ?st1 + 1, sv_packets_tx := sv_packets_tx ?st1 + 1\<rparr>"
  have "server_wf ?st1" using p(2) by (auto simp: listens_def server_wf_def)
  then have ls1: "listens cl ?st1 sid conn" by (rule listens_cong [OF p(2)]) simp_all
  have n: "CMD_CLOSE < 256" "sv_tx_seq ?st1 + 1 < 2 ^ 64" using assms(5) p(3) by (simp_all add: CMD_CLOSE_def)
  obtain pkt a where sent: "send_aegs_frame C E0 ?st1 sid CMD_CLOSE [] = (?st2, [SendTo pkt a], None)"
    by (rule frame_goes_out [OF ls1 n assms(4)])
  have out: "st' = ?st2" "outs = o1 @ [SendTo pkt a, StreamShut sock]" "ex = None"
    using assms(6) by (simp_all add: proxy_worker_def pump proxy_finally_def sent)
  note l = ls1 [unfolded listens_def]
  have b: "sid < 2 ^ 32" "CMD_CLOSE < 256" using l n by simp_all
  have full: "take 4096 pkt = pkt"
    using server_frame_length [OF assms(1) _ sent] l randbelow_less [of 33 "ent E0" 0] by simp
  have close: "udp_round C R0 cl pkt = (cl\<lparr>cl_streams := (cl_streams cl)(sid := None)\<rparr>, [ConnShut conn])"
    using server_frame_opened [OF assms(1) _ _ _ _ sent, of cl R0] l full server_plain_fields [OF b, of "ent E0" "[]"]
    by (simp add: udp_round_def deliver_frame_def cmd_defs Let_def)
  have "cl_session C (rounds (Rs @ [R0]) (sent_packets outs)) cl =
      (cl\<lparr>cl_streams := (cl_streams cl)(sid := None)\<rparr>,
       map2 (\<lambda>(E, c) p. ConnSend conn (c @ p)) cs pads @ [ConnShut conn])"
    using p(1,6) close assms(7) by (simp add: out(2) rounds_append cl_session_append cl_event_step_def)
  with p(1,4,5) out show ?thesis by auto
qed

theorem answer_relayed_witness:
  "\<exists>st' outs pad. proxy_worker toy_crypto sample_env sample_server 101 (Some 7) [(sample_env, [79, 75])] = (st', outs, None) \<and>
     cl_session toy_crypto (rounds ([sample_env] @ [sample_env]) (sent_packets outs)) sample_client =
       (sample_client\<lparr>cl_streams := (cl_streams sample_client)(101 := None)\<rparr>, [ConnSend 9 ([79, 75] @ pad), ConnShut 9])"
proof -
  have l: "listens sample_client sample_server 101 9"
    using sample_link(2-4) sample_keys(2)
    by (simp add: listens_def) (simp add: sample_client_def sample_server_def)
  have c: "\<forall>(E, c) \<in> set [(sample_env, [79, 75 :: byte])]. c \<noteq> [] \<and> length c \<le> 3900 \<and> send_ok E" "send_ok sample_env"
    "sv_tx_seq sample_server + length [(sample_env, [79, 75 :: byte])] + 1 < 2 ^ 64"
    "length [sample_env] = length [(sample_env, [79, 75 :: byte])]" "\<forall>R \<in> set [sample_env]. stream_ok R 9"
    by (simp_all add: sample_env_def sample_server_sel)
  obtain st' outs ex where w: "proxy_worker toy_crypto sample_env sample_server 101 (Some 7) [(sample_env, [79, 75])] = (st', outs, ex)"
    by (rule prod_cases3)
  from answer_relayed [OF toy_crypto_ok l c(1,2,3) w c(4,5), of sample_env]
  obtain pads where p: "ex = None" "length pads = 1"
    "cl_session toy_crypto (rounds ([sample_env] @ [sample_env]) (sent_packets outs)) sample_client =
       (sample_client\<lparr>cl_streams := (cl_streams sample_client)(101 := None)\<rparr>,
        map2 (\<lambda>(E, c) p. ConnSend 9 (c @ p)) [(sample_env, [79, 75])] pads @ [ConnShut 9])" by auto
  obtain pad where "pads = [pad]" using p(2) by (auto simp: length_Suc_conv)
  with w p show ?thesis by auto
qed

text \<open>C28: A plain HTTP request whose frames arrive before the thread of the proxy has connected is lost: its bytes
  follow the connect frame at once, the server finds no stream and throws them away, and only the
  connection is opened.\<close>
theorem early_data_lost:
  assumes "crypto_ok C" "in_sync cl st" "sv_streams st sid = None" "length hb < 256" "port < 65536" "sid < 2 ^ 32"
    and "run_script C Es k cl sid conn
      [Frame CMD_CONNECT (be_bytes 1 (length hb) @ hb @ be_bytes 2 port), Touch, Frame CMD_DATA http_req] = (cl', outs)"
    and "cl_port_count cl \<noteq> 0" "\<forall>n. send_ok (Es n)" "cl_tx_seq cl + 2 < 2 ^ 64"
    and "\<forall>p \<in> set (wire outs). passes C st p"
  shows "length (wire outs) = 2 \<and> snd (server_loop C priv pub (arrivals a (zip [S1, S2] (wire outs))) st) =
    [Log (LogForward sid (fst a) (utf8_decode_replace hb) port), StartProxy sid (utf8_decode_replace hb) port]"
proof -
  let ?p = "be_bytes 1 (length hb) @ hb @ be_bytes 2 port"
  have key: "cl_send_key cl \<noteq> None" using assms(2) by (auto simp: in_sync_def)
  have cmd: "CMD_CONNECT < 256" "CMD_DATA < 256" by (simp_all add: cmd_defs)
  let ?cl = "cl\<lparr>cl_tx_seq := cl_tx_seq cl + 1\<rparr>"
  let ?cl2 = "?cl\<lparr>cl_last_real := now_us (Es (Suc k))\<rparr>"
  obtain p1 d1 where s1: "send_raw_packet C (Es k) cl sid CMD_CONNECT ?p False = (?cl, [UdpSend p1 d1], None)"
    by (rule send_goes_out [of "Es k" cl sid CMD_CONNECT C ?p False]) (use assms key cmd in auto)
  obtain p2 d2 where s2: "send_raw_packet C (Es (Suc (Suc k))) ?cl2 sid CMD_DATA http_req False =
      (?cl2\<lparr>cl_tx_seq := cl_tx_seq ?cl2 + 1\<rparr>, [UdpSend p2 d2], None)"
    by (rule send_goes_out [of "Es (Suc (Suc k))" ?cl2 sid CMD_DATA C http_req False]) (use assms key cmd in auto)
  have outs: "outs = [UdpSend p1 d1, UdpSend p2 d2]" using assms(7) s1 s2 by auto
  have pass: "passes C st p1" "passes C st p2" using assms(11) outs by simp_all
  obtain st1 where o1: "on_datagram C S1 st a p1 priv pub =
      (case handle_client_payload S1 st1 (client_plain (ent (Es k)) sid CMD_CONNECT ?p) a of (st', outs, ex) \<Rightarrow> (st', outs))"
    "sv_streams st1 = sv_streams st" "in_sync ?cl st1" "sid < 2 ^ 32" "CMD_CONNECT < 256"
    by (rule frame_relayed [OF assms(1,2) s1 pass(1), of S1 a priv pub]) (rule that)
  have h1: "handle_client_payload S1 st1 (client_plain (ent (Es k)) sid CMD_CONNECT ?p) a =
      (st1, [Log (LogForward sid (fst a) (utf8_decode_replace hb) port), StartProxy sid (utf8_decode_replace hb) port], None)"
    by (rule connect_payload_handled [OF o1(4,5) assms(4,5)])
  have sy: "in_sync ?cl2 st1" using o1(3) by (simp only: in_sync_touched)
  have pe: "peers cl st" "peers cl st1" using assms(2) o1(3) by (simp_all add: in_sync_def peers_def)
  have "passes C st1 p2" using pass(2) passes_cong [OF pe, of C] by simp
  from frame_relayed [OF assms(1) sy s2 this, of S2 a priv pub]
  obtain st2 where o2: "on_datagram C S2 st1 a p2 priv pub =
      (case handle_client_payload S2 st2 (client_plain (ent (Es (Suc (Suc k)))) sid CMD_DATA http_req) a of (st', outs, ex) \<Rightarrow> (st', outs))"
    "sv_streams st2 = sv_streams st1" by blast
  note f = client_plain_fields [OF o1(4) cmd(2), of "ent (Es (Suc (Suc k)))" http_req]
  have h2: "handle_client_payload S2 st2 (client_plain (ent (Es (Suc (Suc k)))) sid CMD_DATA http_req) a = (st2, [], None)"
    using f(1) o1(2) o2(2) assms(3) by (simp add: handle_client_payload_def f(2-4) Let_def) (simp add: cmd_defs)
  show ?thesis by (simp add: outs one_read o1(1) h1 o2(1) h2 del: One_nat_def)
qed

theorem early_data_lost_witness:
  "\<exists>outs. length (wire outs) = 2 \<and> snd (server_loop toy_crypto [7] []
       (arrivals sample_addr (zip [sample_env, sample_env] (wire outs))) (sample_server\<lparr>sv_streams := Map.empty\<rparr>)) =
     [Log (LogForward 101 (fst sample_addr) (utf8_decode_replace [97]) 80), StartProxy 101 (utf8_decode_replace [97]) 80]"
proof -
  let ?st = "sample_server\<lparr>sv_streams := Map.empty\<rparr>"
  let ?p = "be_bytes 1 (length [97 :: byte]) @ [97] @ be_bytes 2 80"
  let ?f = "\<lambda>n c d. raw_packet toy_crypto (ent sample_env) sample_client (replicate 32 4) n
     (be_bytes 4 101 @ be_bytes 1 c @ d) False"
  let ?outs = "[UdpSend (?f 1 CMD_CONNECT ?p) (ustr ''10.0.0.1'', 50006),
     UdpSend (?f 2 CMD_DATA [71]) (ustr ''10.0.0.1'', 50006)]"
  have sy: "in_sync sample_client ?st"
    using sample_in_sync by (auto simp: in_sync_def server_wf_def peers_def)
  have run: "run_script toy_crypto (\<lambda>_. sample_env) 1 sample_client 101 9
      [Frame CMD_CONNECT ?p, Touch, Frame CMD_DATA [71]] =
      (sample_client\<lparr>cl_tx_seq := 2, cl_last_real := 5000000\<rparr>, ?outs)"
    by (simp add: send_raw_packet_def sample_client_def sample_env_def pack_be_def CMD_DATA_def CMD_CONNECT_def
        get_current_port_def Let_def raw_packet_def numeral_2_eq_2 [symmetric])
  have pe: "peers sample_client sample_server" "peers sample_client ?st"
    using sample_in_sync sy by (simp_all add: in_sync_def)
  have ps: "\<forall>p \<in> set (wire ?outs). passes toy_crypto ?st p"
    using sample_frame_passes [OF refl, of 1 CMD_CONNECT ?p] sample_frame_passes [OF refl, of 2 CMD_DATA "[71]"]
    unfolding passes_cong [OF pe] by (simp del: One_nat_def)
  have c: "sv_streams ?st 101 = None" "length [97 :: byte] < 256" "(80 :: nat) < 65536" "(101 :: nat) < 2 ^ 32" by simp_all
  have d: "cl_port_count sample_client \<noteq> 0" "\<forall>n. send_ok ((\<lambda>_. sample_env) n)" "cl_tx_seq sample_client + 2 < 2 ^ 64"
    by (simp_all add: sample_client_def sample_env_def)
  from early_data_lost [OF toy_crypto_ok sy c run d ps] show ?thesis by blast
qed

text \<open>C10: The server holds one session. When a second device with the same token connects, the streams of the
  first stay in the table, and what their threads still read from remote hosts goes to the second
  device under its key. There it is written to the local connection that bears the same number; every client
  numbers its connections from 101 on.\<close>
theorem takeover_misdelivers:
  assumes "crypto_ok C" "server_wf st" "client_wf cl" "peers cl st" "cl_pub cl = x25519_public C (cl_priv cl)"
    and "cl_running cl" "send_ok Es"
    and "on_datagram C Es st b (handshake_init C Ei cl) priv (x25519_public C priv) = (st1, outs)"
    and "proxy_chunk C Ep st1 sid chunk = (st2, [SendTo pkt dest], ex)" "length chunk \<le> 3900" "0 < sid"
  shows "sv_streams st1 = sv_streams st \<and> dest = b \<and>
    (\<exists>reply cl1. SendTo reply b \<in> set outs \<and> handshake_reply C cl reply = Returned cl1 True \<and>
      (\<forall>conn cl2 Ec. register_conn cl1 conn = (cl2, sid) \<and> stream_ok Ec conn \<longrightarrow>
         (\<exists>pad. udp_round C Ec cl2 pkt = (cl2, [ConnSend conn (chunk @ pad)]))))"
proof -
  obtain shared where sh: "x25519_exchange C priv (cl_pub cl) = Some shared"
    "x25519_exchange C (cl_priv cl) (x25519_public C priv) = Some shared"
    using x25519_defined [OF assms(1), of priv "cl_priv cl"] x25519_commute [OF assms(1), of priv "cl_priv cl"]
      assms(5) by auto
  note v = handshake_init_valid [OF assms(1,3,4) sh(1), of Ei]
  note r = on_datagram_accepts [OF v assms(7,8)]
  have wf1: "server_wf st1" by (rule on_datagram_wf [OF assms(1,2,8)])
  let ?reply = "handshake_response C (ent Es) st (hs_key C st) (hs_salt C st) (x25519_public C priv)"
  let ?cl1 = "cl\<lparr>cl_resume_token := Some (token_bytes (ent Es) 0 32), cl_send_key := Some (c2s_key C shared),
                 cl_recv_key := Some (s2c_key C shared)\<rparr>"
  have hr: "handshake_reply C cl ?reply = Returned ?cl1 True"
    by (rule handshake_reply_accepts [OF assms(1,3,2,4) length_x25519_public [OF assms(1)] sh(2)])
  have wfc: "client_wf ?cl1" using handshake_reply_wf [OF assms(1,3) hr] by simp
  obtain s1 where sent: "send_aegs_frame C Ep st1 sid CMD_DATA chunk = (s1, [SendTo pkt dest], ex)"
    using assms(9) by (auto simp: proxy_chunk_def split: prod.splits option.splits)
  then have dest: "dest = b" using r(3) by (auto elim: server_sent_cases)
  have b: "sid < 2 ^ 32" "CMD_DATA < 256" using sent by (auto elim: server_sent_cases)
  have full: "take 4096 pkt = pkt"
    using server_frame_length [OF assms(1) wf1 sent] randbelow_less [of 33 "ent Ep" 0] assms(10) by simp
  have "\<exists>pad. udp_round C Ec cl2 pkt = (cl2, [ConnSend conn (chunk @ pad)])"
    if reg: "register_conn ?cl1 conn = (cl2, sid)" and ok: "stream_ok Ec conn" for conn cl2 Ec
  proof -
    have w: "client_wf cl2" "cl_streams cl2 sid = Some conn" using register_conn_wf [OF wfc reg] by simp_all
    have c2: "cl_running cl2" "peers cl2 st1" "cl_recv_key cl2 = sv_send_key st1"
      using reg r assms(4,6) by (auto simp: register_conn_def Let_def peers_def)
    show ?thesis
      using server_frame_opened [OF assms(1) w(1) wf1 c2(2,3) sent, of Ec] w(2) c2(1) ok assms(11)
        server_plain_fields [OF b, of "ent Ep" chunk] full
      by (simp add: udp_round_def deliver_frame_def cmd_defs Let_def)
  qed
  with r(5,7) dest hr show ?thesis by blast
qed

theorem takeover_misdelivers_witness:
  "\<exists>pkt cl2 pad. udp_round toy_crypto sample_env cl2 pkt = (cl2, [ConnSend 9 ([83] @ pad)]) \<and>
     cl_streams cl2 = [101 \<mapsto> 9]"
proof -
  let ?cl = "sample_client\<lparr>cl_stream_counter := 100, cl_streams := Map.empty\<rparr>"
  let ?hs = "handshake_init toy_crypto sample_env ?cl"
  have w: "client_wf ?cl" "peers ?cl sample_server" using sample_link(2,4) by (simp_all add: client_wf_def peers_def)
  have k: "cl_pub ?cl = x25519_public toy_crypto (cl_priv ?cl)" "cl_running ?cl" "send_ok sample_env"
    by (simp_all add: sample_client_def sample_env_def)
  obtain shared where sh: "x25519_exchange toy_crypto [7] (cl_pub ?cl) = Some shared"
    using x25519_defined [OF toy_crypto_ok, of "[7]" "replicate 32 8"] by (auto simp: sample_client_def)
  note v = handshake_init_valid [OF toy_crypto_ok w sh, of sample_env]
  obtain st1 outs where o: "on_datagram toy_crypto sample_env sample_server sample_addr ?hs [7]
      (x25519_public toy_crypto [7]) = (st1, outs)" by fastforce
  note r = on_datagram_accepts [OF v k(3) o]
  have tx: "sv_tx_seq st1 + 1 < 2 ^ 64" using r(6) by (simp add: sample_server_sel)
  obtain st2 pkt where c: "proxy_chunk toy_crypto sample_env st1 101 [83] = (st2, [SendTo pkt sample_addr], None)"
    using r(2,3) tx k(3) by (simp add: proxy_chunk_def send_aegs_frame_eq pack_be_def CMD_DATA_def)
  have l: "length [83 :: byte] \<le> 3900" "(0 :: nat) < 101" by simp_all
  from takeover_misdelivers [OF toy_crypto_ok sample_server_wf w k o c l]
  obtain reply cl1 where h: "handshake_reply toy_crypto ?cl reply = Returned cl1 True"
    "\<forall>conn cl2 Ec. register_conn cl1 conn = (cl2, 101) \<and> stream_ok Ec conn \<longrightarrow>
       (\<exists>pad. udp_round toy_crypto Ec cl2 pkt = (cl2, [ConnSend conn ([83] @ pad)]))" by blast
  have "cl_stream_counter cl1 = 100" "cl_streams cl1 = Map.empty"
    using h(1) by (auto simp: handshake_reply_def Let_def split: if_splits option.splits)
  then obtain cl2 where "register_conn cl1 9 = (cl2, 101)" "cl_streams cl2 = [101 \<mapsto> 9]"
    by (simp add: register_conn_def)
  moreover have "stream_ok sample_env 9" by (simp add: sample_env_def)
  ultimately show ?thesis using h(2) by blast
qed

end
