(* ===== verification/Spec2Isabelle.thy ===== *)
theory Spec2Isabelle
  imports Config Gateway Socks Url WinProxy BillingSpec BillingInv Worker BotSpec QuickClient Attack Monitor ToolsApp Race ClientRun QuickMain ServerRun Session Relay
begin

text \<open>
  Verification of the Python part of AEGS, an obfuscating UDP tunnel with its server, clients,
  desktop profiles and the Telegram bot that sells access.

  \<^bold>\<open>The program.\<close> \<open>aegs_client.py\<close> accepts SOCKS5 and HTTP connections on the local machine, opens a
  session with \<open>aegs_server.py\<close> by a masked handshake and carries each connection as a stream of
  sealed UDP frames; the server connects to the targets and sends their answers back.
  \<open>aegs_tunnel_gateway.py\<close> is an older pair of both with the raw handshake, and
  \<open>scripts/quick_client.py\<close> carries WireGuard datagrams instead of streams. \<open>aegs_config.py\<close> keeps the
  servers a user knows and reads and writes \<open>aegs://\<close> links. The bot under \<open>tools/telegram_bot\<close> keeps
  users, payments and orders in one SQLite database, copies each key into the table of the native
  server (\<open>aegs_sync.py\<close>), hands out links, and a thread deactivates expired users.

  \<^bold>\<open>Theories and sources.\<close>
  \<^item> Prelude, PyText, PyHash, Crypto, ReplaySpec: what the others share. Bytes are \<open>8 word\<close>, text is a
    list of code points, exceptions are the values of \<open>pyexn\<close>; struct codecs, UTF-8, number and text
    conversions, SHA-256, HMAC and PBKDF2 are defined; HKDF, ChaCha20, ChaCha20-Poly1305 and X25519
    come from the package \<open>cryptography\<close> and are the fields of the parameter \<open>crypto\<close>, with the laws
    \<open>crypto_ok\<close> that \<open>toy_crypto\<close> meets. ReplaySpec holds the locales \<open>replay_guard\<close> and
    \<open>replay_window\<close>: the contract of duplicate suppression.
  \<^item> AntiReplay: \<open>AntiReplayFilter\<close> of \<open>aegs_server.py\<close>.
  \<^item> Server, ServerInv, ServerAuth: \<open>AegsServer\<close>; \<open>process_packet\<close> in its four stages (STUN decoy, masked
    handshake, raw handshake and resumption, data frame), \<open>handle_client_payload\<close>, \<open>send_aegs_frame\<close>, the
    proxy threads as separate steps (connected, chunk, end), and \<open>on_datagram\<close>, one turn of \<open>start\<close>.
    ServerInv interleaves these steps in the relation \<open>srv_step\<close> and proves the invariant and the
    freshness of nonces; ServerAuth says what an outsider can and cannot do.
  \<^item> ServerRun, Session: the program around it, \<open>main\<close>, \<open>start\<close> with one \<open>select\<close> per turn, the threads as
    events between turns and the counts of the heartbeat; Session is the abstract specification, one
    session of a peer with its streams, and the proof that every datagram and every thread keeps to it.
  \<^item> Client, Socks, WinProxy, ClientRun, Race, Tunnel: \<open>AegsClient\<close>, its local connections, and
    \<open>WindowsSystemProxy\<close> of \<open>aegs_client.py\<close>; ClientRun is the program from \<open>main\<close> to its end, Race splits
    \<open>send_raw_packet\<close> where threads can meet; Tunnel composes client and server
    for one message, Relay for a whole local connection and for a second client.
  \<^item> Monitor: the server behind \<open>aegs_server_gui.py\<close>, whose wrappers do not change it, and the copy
    \<open>tools/aegs_server.py\<close>, which differs in one place.
  \<^item> App, ToolsApp: the window of \<open>aegs_app.py\<close> as operations on what its widgets show, and the methods
    in which \<open>tools/aegs_app.py\<close> differs.
  \<^item> Probe, Attack: the six phases and the listener of \<open>remote_security_probe.py\<close>, and the attacks of
    \<open>aegs_attack_probe.py\<close>, with their verdicts.
  \<^item> Gateway: both classes of \<open>aegs_tunnel_gateway.py\<close>.
  \<^item> Url, Config: \<open>urllib.parse\<close> and \<open>base64\<close> as used, \<open>AegsProfile\<close>, \<open>ProfileStorage\<close> of \<open>aegs_config.py\<close>
    and where \<open>tools/aegs_config.py\<close> differs.
  \<^item> QuickClient, QuickMain: \<open>scripts/quick_client.py\<close>, the proxy and its commands.
  \<^item> Billing, BillingSpec, BillingInv: \<open>database.py\<close>, \<open>aegs_sync.py\<close>, \<open>config.py\<close>. Each transaction takes an
    environment that says whether it commits; BillingSpec abstracts the tables to a ledger (who is
    paid until when, which orders and keys exist) and proves that they refine it.
  \<^item> Worker: \<open>subscription_worker.py\<close>, a round and the loop over rounds.
  \<^item> Bot, BotSpec: \<open>bot.py\<close> and \<open>qr_generator.py\<close> as state passing over \<open>bot\<close>, which holds the database, the admin
    list and the calls made to Telegram; the texts are a datatype of their parameters.

  \<^bold>\<open>How state is modelled.\<close> An object of the source is a record with one field per attribute that
  influences behaviour. Randomness, the clocks, the success of a send and the answers of the
  network are arguments, so that each theorem holds for all of them; entropy is read by position. An
  exception is \<open>Inl\<close> or the third component of a result, and a handler that swallows it drops it.

  \<^bold>\<open>What the lemmas show.\<close> Round trips: masked header, frames, connect requests, links, datagrams. Agreement
  of keys on both handshakes and the composition of a sender with its receiver, up to a whole local
  connection and the answer to it. Refinement: the server by one abstract session, the tables by the
  ledger, the 64-bit window by the set of received numbers. Invariants: the server, the tables, the
  profile list, the admin list of the bot. Safety: nothing happens without a key or an admin, for as
  long as the server runs; no order is paid twice; no nonce is used twice unless sending threads overlap
  (which nothing in the code prevents, theory Race). Liveness and termination: an expired user is
  cut off, the loops over a connection and the handshake end. Several theorems state precisely
  where the code misses what it intends; they are findings of this development.

  \<^bold>\<open>Locales.\<close> \<open>replay_guard\<close> and \<open>replay_window\<close> are interpreted on \<open>seen_check\<close> of the gateway,
  on \<open>ls_seen_check\<close> of the auditor's listener and on \<open>check_replay\<close> of the WireGuard proxy; the filter of the
  server does not meet the contract, which is what \<open>replay_accepted_again\<close> shows. \<open>bot_invariant\<close> is what every handler keeps; it is interpreted for the
  admin list, for the users and for silence.

  \<^bold>\<open>Loops and bounds.\<close> No definition needs fuel. Loops that consume a connection recurse on the segments
  that arrive (the measure is the number of bytes left), loops over attempts on their counter, loops
  that run for ever (receive loop, polling, expiry thread) on the list of their turns: a theorem about
  such a run holds for every finite prefix. Sequence numbers are natural numbers with the bound
  \<open>2 ^ 64\<close> of their field written where \<open>struct.pack\<close> raises.

  \<^bold>\<open>Not modelled.\<close> Printing, logos, argument parsers, and the layout and colours of the windows; the test
  suites; \<open>tools/aegs_client.py\<close>, \<open>tools/aegs_tunnel_gateway.py\<close> and \<open>tools/aegs_server_gui.py\<close>, whose code is
  that of the files of the same name in the root directory but for printed version names; the C++,
  Java and C# implementations. Threads are interleaved between the calls of the modelled functions;
  Race alone goes inside one.
\<close>

end
